(* ===== verification/Mtoss_Prelude.thy ===== *)
theory Mtoss_Prelude
  imports Complex_Main "HOL-Library.AList"
begin

text \<open>
  Shared vocabulary of the development: the exceptions of the Python code as values, the
  result type of every operation that may raise, the dictionary operations (a Python
  \<open>dict\<close> keeps insertion order, so it is an association list), the \<open>max\<close> and \<open>min\<close>
  built-ins of Python (which return the first of two equal arguments), and the lemma
  collections the component theories fill.
\<close>

section \<open>Lemma collections\<close>

named_theorems dec_simps \<open>values of Decimal operations\<close>
named_theorems guard_defs \<open>validators and guards, unfolded together\<close>
named_theorems op_defs \<open>definitions of state-changing operations\<close>

section \<open>Exceptions as values\<close>

text \<open>
  The exception classes the sources raise or catch. \<open>ValidationError\<close> is pydantic's
  (a subclass of \<open>ValueError\<close>) and lists every failed validator; \<open>KeyError\<close> is a
  subclass of \<open>LookupError\<close>; \<open>DecimalException\<close> stands for the signals of the
  \<open>decimal\<close> module (a zero divisor, an invalid operation). \<open>IntegrityError\<close> carries the SQLSTATE and the
  name of the violated constraint; \<open>RiskRejected\<close> (a subclass of \<open>ValueError\<close>) the identifier of
  the decision, the part of it that a handler reads; \<open>HTTPException\<close> the status and the detail
  of a response. \<open>CancelledError\<close> is the
  asyncio cancellation: a \<open>BaseException\<close> that \<open>except Exception\<close> does not catch.
\<close>

datatype exn =
    ValueError string
  | ValidationError "string list"
  | TypeError string
  | LookupError string
  | KeyError string
  | AttributeError string
  | PermissionError string
  | TimeoutError string
  | DecimalException
  | OverflowError string
  | ZeroDivisionError
  | AssertionError
  | IntegrityError string string
  | RuntimeError string
  | RiskRejected string
  | HTTPException nat string
  | CancelledError

fun is_exception :: "exn \<Rightarrow> bool" where
  "is_exception CancelledError = False"
| "is_exception _ = True"

fun is_value_error :: "exn \<Rightarrow> bool" where
  "is_value_error (ValueError _) = True"
| "is_value_error (ValidationError _) = True"
| "is_value_error (RiskRejected _) = True"
| "is_value_error _ = False"

fun is_lookup_error :: "exn \<Rightarrow> bool" where
  "is_lookup_error (LookupError _) = True"
| "is_lookup_error (KeyError _) = True"
| "is_lookup_error _ = False"

fun is_risk_rejected :: "exn \<Rightarrow> bool" where
  "is_risk_rejected (RiskRejected _) = True"
| "is_risk_rejected _ = False"

fun is_timeout :: "exn \<Rightarrow> bool" where
  "is_timeout (TimeoutError _) = True"
| "is_timeout _ = False"

fun is_permission_error :: "exn \<Rightarrow> bool" where
  "is_permission_error (PermissionError _) = True"
| "is_permission_error _ = False"

type_synonym 'a result = "exn + 'a"

fun bindr :: "'e + 'a \<Rightarrow> ('a \<Rightarrow> 'e + 'b) \<Rightarrow> 'e + 'b" where
  "bindr (Inl e) f = Inl e"
| "bindr (Inr x) f = f x"

text \<open>A guard of the source: \<open>if bad: raise e\<close>.\<close>

definition raise_if :: "bool \<Rightarrow> 'e \<Rightarrow> 'e + unit" where
  "raise_if bad e = (if bad then Inl e else Inr ())"

lemma bindr_Inr_iff: "bindr r f = Inr y \<longleftrightarrow> (\<exists>x. r = Inr x \<and> f x = Inr y)"
  by (cases r) auto

lemma bindr_Inl_iff: "bindr r f = Inl e \<longleftrightarrow> r = Inl e \<or> (\<exists>x. r = Inr x \<and> f x = Inl e)"
  by (cases r) auto

lemma raise_if_Inr_iff [simp]: "raise_if b e = Inr u \<longleftrightarrow> \<not> b"
  by (cases u) (simp add: raise_if_def)

lemma raise_if_Inl_iff [simp]: "raise_if b e = Inl e' \<longleftrightarrow> b \<and> e' = e"
  by (auto simp: raise_if_def)

lemmas result_iffs = bindr_Inr_iff bindr_Inl_iff

text \<open>A loop that builds a list and may raise.\<close>

fun mapr :: "('a \<Rightarrow> 'e + 'b) \<Rightarrow> 'a list \<Rightarrow> 'e + 'b list" where
  "mapr f [] = Inr []"
| "mapr f (x # xs) = bindr (f x) (\<lambda>y. bindr (mapr f xs) (\<lambda>ys. Inr (y # ys)))"

lemma mapr_Inr_iff: "mapr f xs = Inr ys \<longleftrightarrow> list_all2 (\<lambda>x y. f x = Inr y) xs ys"
  by (induction xs arbitrary: ys) (auto simp: bindr_Inr_iff list_all2_Cons1)

lemma mapr_length: "mapr f xs = Inr ys \<Longrightarrow> length ys = length xs"
  by (auto simp: mapr_Inr_iff dest: list_all2_lengthD)

lemma mapr_nth: "mapr f xs = Inr ys \<Longrightarrow> i < length xs \<Longrightarrow> f (xs ! i) = Inr (ys ! i)"
  by (auto simp: mapr_Inr_iff dest: list_all2_nthD)

lemma mapr_take: "mapr f xs = Inr ys \<Longrightarrow> mapr f (take n xs) = Inr (take n ys)"
  by (auto simp: mapr_Inr_iff intro: list_all2_takeI)

lemma mapr_Cons_Inr: "mapr f (x # xs) = Inr ys \<longleftrightarrow> (\<exists>y zs. ys = y # zs \<and> f x = Inr y \<and> mapr f xs = Inr zs)"
  by (auto simp: bindr_Inr_iff)

lemma mapr_mem: "mapr f xs = Inr ys \<Longrightarrow> y \<in> set ys \<Longrightarrow> \<exists>x\<in>set xs. f x = Inr y"
  by (induction xs arbitrary: ys) (auto simp: bindr_Inr_iff)

lemma mapr_image: "mapr f xs = Inr ys \<Longrightarrow> x \<in> set xs \<Longrightarrow> f x = Inr y \<Longrightarrow> y \<in> set ys"
  by (induction xs arbitrary: ys) (auto simp: bindr_Inr_iff)

lemma mapr_cong: "(\<And>x. x \<in> set xs \<Longrightarrow> f x = g x) \<Longrightarrow> mapr f xs = mapr g xs"
  by (induction xs) simp_all

section \<open>Validator messages\<close>

text \<open>
  Pydantic runs every field validator of a model and reports all the failures together,
  so a model's field checks are a list of messages; only when there is none do the
  \<open>mode="after"\<close> model validators run, one after another.
\<close>

definition complain :: "bool \<Rightarrow> string \<Rightarrow> string list" where
  "complain bad msg = (if bad then [msg] else [])"

lemma complain_Nil_iff [simp]: "complain b m = [] \<longleftrightarrow> \<not> b"
  by (simp add: complain_def)

fun first_failure :: "string option list \<Rightarrow> string option" where
  "first_failure [] = None"
| "first_failure (None # cs) = first_failure cs"
| "first_failure (Some m # cs) = Some m"

lemma first_failure_None_iff: "first_failure cs = None \<longleftrightarrow> (\<forall>c \<in> set cs. c = None)"
  by (induction cs rule: first_failure.induct) auto

definition run_model :: "string list \<Rightarrow> string option list \<Rightarrow> 'a \<Rightarrow> 'a result" where
  "run_model field_errors model_checks m =
     (if field_errors \<noteq> [] then Inl (ValidationError field_errors)
      else case first_failure model_checks of
             Some msg \<Rightarrow> Inl (ValidationError [msg])
           | None \<Rightarrow> Inr m)"

lemma run_model_Inr_iff:
  "run_model fe mc m = Inr m' \<longleftrightarrow> fe = [] \<and> first_failure mc = None \<and> m' = m"
  by (auto simp: run_model_def split: option.splits)

lemma run_model_Inl_is_value_error:
  "run_model fe mc m = Inl e \<Longrightarrow> is_value_error e"
  by (auto simp: run_model_def split: if_splits option.splits)

lemma run_model_not_rejected: "run_model fe mc m = Inl e \<Longrightarrow> \<not> is_risk_rejected e"
  by (auto simp: run_model_def split: if_splits option.splits)

section \<open>Python built-ins\<close>

definition pymax :: "'a::ord \<Rightarrow> 'a \<Rightarrow> 'a" where
  "pymax a b = (if a < b then b else a)"

definition pymin :: "'a::ord \<Rightarrow> 'a \<Rightarrow> 'a" where
  "pymin a b = (if b < a then b else a)"

lemma pymax_in: "pymax a b = a \<or> pymax a b = b"
  by (simp add: pymax_def)

lemma pymin_in: "pymin a b = a \<or> pymin a b = b"
  by (simp add: pymin_def)

section \<open>Dictionaries\<close>

text \<open>
  \<open>d[k] = v\<close> is \<^const>\<open>AList.update\<close> (in place when the key is there, at the end
  when it is not), \<open>d.get(k)\<close> is \<^const>\<open>map_of\<close>, \<open>d.pop(k, None)\<close> and
  \<open>del d[k]\<close> are \<^const>\<open>AList.delete\<close>.
\<close>

abbreviation dict_get :: "('k \<times> 'v) list \<Rightarrow> 'k \<Rightarrow> 'v option" where
  "dict_get d k \<equiv> map_of d k"

abbreviation dict_set :: "'k \<Rightarrow> 'v \<Rightarrow> ('k \<times> 'v) list \<Rightarrow> ('k \<times> 'v) list" where
  "dict_set k v d \<equiv> AList.update k v d"

abbreviation dict_del :: "'k \<Rightarrow> ('k \<times> 'v) list \<Rightarrow> ('k \<times> 'v) list" where
  "dict_del k d \<equiv> AList.delete k d"

abbreviation dict_keys :: "('k \<times> 'v) list \<Rightarrow> 'k list" where
  "dict_keys d \<equiv> map fst d"

lemma dict_get_set: "dict_get (dict_set k v d) k' = (if k' = k then Some v else dict_get d k')"
  by (simp add: update_conv')

lemma dict_get_del: "dict_get (dict_del k d) k' = (if k' = k then None else dict_get d k')"
  by (simp add: delete_conv')

lemma length_dict_set_new: "dict_get d k = None \<Longrightarrow> length (dict_set k v d) = Suc (length d)"
  by (induction d) (auto split: if_splits)

lemma dict_set_new: "dict_get d k = None \<Longrightarrow> dict_set k v d = d @ [(k, v)]"
  by (induction d) (auto split: if_splits)

lemma set_dict_set_subset: "set (dict_set k v d) \<subseteq> insert (k, v) (set d)"
  by (induction d) auto


section \<open>Effects\<close>

text \<open>
  An awaited operation on a mutable object takes the object's state and returns a result
  or an exception together with the new state: the effect is kept when it raises. The
  combinators are the sequencing, \<open>try/except\<close> and \<open>try/finally\<close> of the code.
\<close>

type_synonym ('a, 'w) io = "'w \<Rightarrow> 'a result \<times> 'w"

definition io_ret :: "'a \<Rightarrow> ('a, 'w) io" where
  "io_ret x w = (Inr x, w)"

definition io_raise :: "exn \<Rightarrow> ('a, 'w) io" where
  "io_raise e w = (Inl e, w)"

definition io_lift :: "'a result \<Rightarrow> ('a, 'w) io" where
  "io_lift r w = (r, w)"

definition io_bind :: "('a, 'w) io \<Rightarrow> ('a \<Rightarrow> ('b, 'w) io) \<Rightarrow> ('b, 'w) io" where
  "io_bind m f w = (case m w of (Inl e, w') \<Rightarrow> (Inl e, w') | (Inr x, w') \<Rightarrow> f x w')"

definition io_catch :: "('a, 'w) io \<Rightarrow> (exn \<Rightarrow> ('a, 'w) io) \<Rightarrow> ('a, 'w) io" where
  "io_catch m h w = (case m w of (Inl e, w') \<Rightarrow> h e w' | (Inr x, w') \<Rightarrow> (Inr x, w'))"

definition io_finally :: "('a, 'w) io \<Rightarrow> (unit, 'w) io \<Rightarrow> ('a, 'w) io" where
  "io_finally m fin w =
     (case m w of (r, w') \<Rightarrow> (case fin w' of (Inl e, w'') \<Rightarrow> (Inl e, w'') | (Inr _, w'') \<Rightarrow> (r, w'')))"

text \<open>A synchronous update or reading, and operations on one half of a pair of objects.\<close>

definition io_do :: "('w \<Rightarrow> 'w) \<Rightarrow> (unit, 'w) io" where
  "io_do f w = (Inr (), f w)"

definition io_get :: "('w \<Rightarrow> 'a) \<Rightarrow> ('a, 'w) io" where
  "io_get f w = (Inr (f w), w)"

definition on_fst :: "('a, 'u) io \<Rightarrow> ('a, 'u \<times> 'v) io" where
  "on_fst m w = (case m (fst w) of (r, u) \<Rightarrow> (r, (u, snd w)))"

definition on_snd :: "('a, 'v) io \<Rightarrow> ('a, 'u \<times> 'v) io" where
  "on_snd m w = (case m (snd w) of (r, v) \<Rightarrow> (r, (fst w, v)))"

lemmas io_defs = io_do_def io_get_def on_fst_def on_snd_def io_ret_def io_raise_def io_lift_def io_bind_def io_catch_def io_finally_def

lemma io_steps:
  "io_bind (io_ret x) f = f x" "io_bind (io_lift (Inr x)) f = f x"
  "io_bind (io_raise e) f = io_raise e" "io_bind (io_lift (Inl e)) f = io_raise e"
  "io_bind (io_do g) h w = h () (g w)" "io_bind (io_get f) k w = k (f w) w"
  by (simp_all add: fun_eq_iff io_bind_def io_ret_def io_raise_def io_lift_def io_do_def io_get_def)

lemma io_bind_assoc: "io_bind (io_bind m f) g = io_bind m (\<lambda>x. io_bind (f x) g)"
  by (simp add: fun_eq_iff io_bind_def split: prod.split sum.split)

lemma io_bind_run: "m w = (Inr x, w') \<Longrightarrow> io_bind m f w = f x w'"
  by (simp add: io_bind_def)

lemma io_bind_fail: "m w = (Inl e, w') \<Longrightarrow> io_bind m f w = (Inl e, w')"
  by (simp add: io_bind_def)

lemma io_bind_cases:
  obtains e w' where "m w = (Inl e, w')" "io_bind m f w = (Inl e, w')"
  | x w' where "m w = (Inr x, w')" "io_bind m f w = f x w'"
  by (cases "m w"; cases "fst (m w)") (auto simp: io_bind_def)

lemma io_bind_Inr_iff:
  "io_bind m f w = (Inr y, w'') \<longleftrightarrow> (\<exists>x w'. m w = (Inr x, w') \<and> f x w' = (Inr y, w''))"
  by (rule io_bind_cases [of m w f]) auto

text \<open>
  An operation keeps an invariant of the state when it holds after every outcome, an
  exception included.
\<close>

definition keeps :: "('w \<Rightarrow> bool) \<Rightarrow> ('a, 'w) io \<Rightarrow> bool" where
  "keeps I m \<longleftrightarrow> (\<forall>w. I w \<longrightarrow> I (snd (m w)))"

lemma keepsI: "(\<And>w r w'. I w \<Longrightarrow> m w = (r, w') \<Longrightarrow> I w') \<Longrightarrow> keeps I m"
  by (metis keeps_def prod.collapse)

lemma keepsD: "keeps I m \<Longrightarrow> I w \<Longrightarrow> m w = (r, w') \<Longrightarrow> I w'"
  by (metis keeps_def snd_conv)

lemma keeps_pure: "keeps I (io_ret x)" "keeps I (io_raise e)" "keeps I (io_lift r)"
  by (simp_all add: keeps_def io_defs)

lemma keeps_bind: "keeps I m \<Longrightarrow> (\<And>x. keeps I (f x)) \<Longrightarrow> keeps I (io_bind m f)"
  by (auto simp: keeps_def io_bind_def split: prod.split sum.split)

lemma keeps_catch: "keeps I m \<Longrightarrow> (\<And>e. keeps I (h e)) \<Longrightarrow> keeps I (io_catch m h)"
  by (auto simp: keeps_def io_catch_def split: prod.split sum.split)

lemma keeps_finally: "keeps I m \<Longrightarrow> keeps I fin \<Longrightarrow> keeps I (io_finally m fin)"
  by (auto simp: keeps_def io_finally_def split: prod.split sum.split)

lemma keeps_do: "(\<And>w. I w \<Longrightarrow> I (f w)) \<Longrightarrow> keeps I (io_do f)"
  by (simp add: keeps_def io_do_def)

lemma keeps_get: "keeps I (io_get f)"
  by (simp add: keeps_def io_get_def)

lemma keeps_if: "keeps I a \<Longrightarrow> keeps I b \<Longrightarrow> keeps I (if c then a else b)"
  by simp

lemmas keeps_rules = keeps_get keeps_if keeps_do keeps_pure keeps_bind keeps_catch keeps_finally

section \<open>Machines that only move forward\<close>

text \<open>
  The life cycles of the program (of an order, of a tranche) share one contract: a step
  never lowers the phase of the state. Its clients use that no run returns to an earlier
  phase.
\<close>

locale ranked_machine =
  fixes step :: "'s \<Rightarrow> 's \<Rightarrow> bool"
    and rank :: "'s \<Rightarrow> nat"
  assumes step_rank: "step s t \<Longrightarrow> rank s \<le> rank t"
begin

lemma steps_rank: "step\<^sup>*\<^sup>* s t \<Longrightarrow> rank s \<le> rank t"
  by (induction rule: rtranclp_induct) (auto dest: step_rank)

lemma no_return: "rank u < rank s \<Longrightarrow> \<not> step\<^sup>*\<^sup>* s u"
  using steps_rank by fastforce

lemma never_again:
  assumes "step\<^sup>*\<^sup>* s t" "rank u < rank s"
  shows "t \<noteq> u"
  using assms no_return by blast

end

text \<open>
  A machine with an inductive invariant: it holds initially and every step keeps it. Its
  clients use that it holds of every reachable state.
\<close>

locale safe_machine =
  fixes init :: "'s \<Rightarrow> bool"
    and step :: "'s \<Rightarrow> 's \<Rightarrow> bool"
    and inv :: "'s \<Rightarrow> bool"
  assumes inv_init: "init s \<Longrightarrow> inv s"
    and inv_step: "inv s \<Longrightarrow> step s t \<Longrightarrow> inv t"
begin

lemma inv_steps: "step\<^sup>*\<^sup>* s t \<Longrightarrow> inv s \<Longrightarrow> inv t"
  by (induction rule: rtranclp_induct) (auto intro: inv_step)

lemma inv_reachable: "init s \<Longrightarrow> step\<^sup>*\<^sup>* s t \<Longrightarrow> inv t"
  using inv_steps inv_init by blast

end

end
