(* ===== verification/Py_Decimal.thy ===== *)
theory Py_Decimal
  imports Mtoss_Prelude
begin

text \<open>
  Python's \<open>decimal.Decimal\<close> as the sources use it: a finite decimal is a coefficient
  and an exponent, so that \<open>1.0\<close> and \<open>1.00\<close> are different objects of equal value (the
  NUMERIC(28,10) check of the order contract looks at the exponent). Arithmetic follows
  the default context: 28 significant digits, rounding half to even, with the ideal
  exponents of the General Decimal Arithmetic specification. A zero divisor and an
  impossible quantisation are errors. The sign of a zero and the exponent limits of the
  context (999999 either way) are not modelled.
\<close>

section \<open>Representation and value\<close>

datatype dec = Dec (coeff: int) (expo: int)

definition dval :: "dec \<Rightarrow> rat" where
  "dval x = of_int (coeff x) * 10 powi expo x"

abbreviation dint :: "int \<Rightarrow> dec" where
  "dint n \<equiv> Dec n 0"

text \<open>Number of decimal digits of a coefficient, \<open>len(str(n))\<close>.\<close>

fun ndigits :: "nat \<Rightarrow> nat" where
  "ndigits n = (if n < 10 then 1 else Suc (ndigits (n div 10)))"

declare ndigits.simps [simp del]

lemma ndigits_pos [simp]: "0 < ndigits n"
  by (subst ndigits.simps) simp

lemma ndigits_le_iff: "ndigits n \<le> Suc k \<longleftrightarrow> n < 10 ^ Suc k"
proof (induction n arbitrary: k rule: ndigits.induct)
  case (1 n)
  show ?case
  proof (cases "n < 10")
    case True
    have "(10::nat) \<le> 10 ^ Suc k" by simp
    with True show ?thesis
      by (simp add: ndigits.simps [of n] del: power_Suc)
  next
    case False
    show ?thesis
    proof (cases k)
      case 0
      with False show ?thesis
        by (subst ndigits.simps) (simp add: Suc_le_eq)
    next
      case (Suc k')
      from False have "ndigits n \<le> Suc k \<longleftrightarrow> ndigits (n div 10) \<le> Suc k'"
        by (simp add: ndigits.simps [of n] Suc)
      also have "\<dots> \<longleftrightarrow> n div 10 < 10 ^ Suc k'"
        using "1.IH" False by blast
      also have "\<dots> \<longleftrightarrow> n < 10 ^ Suc k"
        by (simp add: div_less_iff_less_mult Suc mult.commute)
      finally show ?thesis .
    qed
  qed
qed

lemma ndigits_le: "0 < k \<Longrightarrow> ndigits n \<le> k \<longleftrightarrow> n < 10 ^ k"
  using ndigits_le_iff [of n "k - 1"] by simp

lemma ndigits_gt: "k < ndigits n \<Longrightarrow> 10 ^ k \<le> n \<or> k = 0"
  by (metis gr0I linorder_not_le ndigits_le)

lemma ndigits_lower: "1 < ndigits n \<Longrightarrow> 10 ^ (ndigits n - 1) \<le> n"
  using ndigits_gt [of "ndigits n - 1" n] by auto

text \<open>The same count on integers, which evaluates on numerals.\<close>

function idigits :: "int \<Rightarrow> int" where
  "idigits n = (if n < 10 then 1 else 1 + idigits (n div 10))"
  by pat_completeness auto
termination by (relation "measure nat") auto

declare idigits.simps [simp del]

lemma idigits_pos: "0 < idigits n"
proof (induction n rule: idigits.induct)
  case (1 n)
  then show ?case by (subst idigits.simps) auto
qed

lemma ndigits_nat [code_unfold]: "ndigits (nat k) = nat (idigits k)"
proof (induction k rule: idigits.induct)
  case (1 n)
  show ?case
  proof (cases "n < 10")
    case False
    with 1 have "nat n div 10 = nat (n div 10)" by (simp add: nat_div_distrib)
    with False 1 idigits_pos [of "n div 10"] show ?thesis
      by (subst ndigits.simps, subst idigits.simps) (simp add: nat_less_iff Suc_nat_eq_nat_zadd1)
  qed (simp add: ndigits.simps idigits.simps)
qed

text \<open>\<open>Decimal.adjusted()\<close>: the exponent of the most significant digit.\<close>

definition adjusted :: "dec \<Rightarrow> int" where
  "adjusted x = expo x + int (ndigits (nat \<bar>coeff x\<bar>)) - 1"

section \<open>Rounding\<close>

text \<open>ROUND_HALF_EVEN of \<open>n / d\<close> for \<open>0 \<le> n\<close> and \<open>0 < d\<close>.\<close>

definition half_even :: "int \<Rightarrow> int \<Rightarrow> int" where
  "half_even n d =
     (let q = n div d; r = n mod d
      in if 2 * r < d then q
         else if d < 2 * r then q + 1
         else if even q then q else q + 1)"

lemma half_even_err: "0 < d \<Longrightarrow> 2 * \<bar>n - d * half_even n d\<bar> \<le> d"
proof -
  assume d: "0 < d"
  define q r where "q = n div d" and "r = n mod d"
  have n: "n = d * q + r" and r: "0 \<le> r" "r < d"
    using d by (simp_all add: q_def r_def)
  consider "half_even n d = q" "2 * r \<le> d" | "half_even n d = q + 1" "d \<le> 2 * r"
    unfolding half_even_def Let_def q_def [symmetric] r_def [symmetric]
    by (meson linorder_not_le order_le_less)
  then show ?thesis
  proof cases
    case 1
    then have "n - d * half_even n d = r" using n by simp
    then show ?thesis using 1 r by simp
  next
    case 2
    then have "n - d * half_even n d = r - d" using n by (simp add: distrib_left)
    then show ?thesis using 2 r by simp
  qed
qed

lemma half_even_nonneg: "0 \<le> n \<Longrightarrow> 0 < d \<Longrightarrow> 0 \<le> half_even n d"
  by (auto simp: half_even_def Let_def pos_imp_zdiv_nonneg_iff add_nonneg_nonneg)

lemma half_even_exact: "0 < d \<Longrightarrow> half_even (d * q) d = q"
  by (simp add: half_even_def)

text \<open>Rounding to the 28 digits of the context.\<close>

definition dfix :: "dec \<Rightarrow> dec" where
  "dfix x =
     (let c = coeff x; n = ndigits (nat \<bar>c\<bar>)
      in if n \<le> 28 then x
         else let k = n - 28; q = half_even \<bar>c\<bar> (10 ^ k)
              in if ndigits (nat q) \<le> 28 then Dec (sgn c * q) (expo x + int k)
                 else Dec (sgn c * (q div 10)) (expo x + int k + 1))"


text \<open>Relative error of one rounding to 28 digits: half a unit in the last place.\<close>

definition ulp28 :: rat where
  "ulp28 = 1 / (2 * 10 ^ 27)"

definition near28 :: "rat \<Rightarrow> rat \<Rightarrow> bool" where
  "near28 r v \<longleftrightarrow> \<bar>r - v\<bar> \<le> ulp28 * \<bar>v\<bar>"

lemma ulp28_bounds: "0 < ulp28" "ulp28 < 1"
  by (simp_all add: ulp28_def)

lemma near28_refl [simp]: "near28 v v"
  using ulp28_bounds by (simp add: near28_def)

lemma dval_shift: "dval (Dec (c * 10 ^ k) e) = dval (Dec c (e + int k))"
  by (simp add: dval_def power_int_add)

lemma sgn_abs_rat: "of_int (sgn c) * of_int \<bar>c\<bar> = (of_int c :: rat)"
  by (metis mult_sgn_abs of_int_mult)

lemma dfix_small: "ndigits (nat \<bar>coeff x\<bar>) \<le> 28 \<Longrightarrow> dfix x = x"
  by (simp add: dfix_def Let_def)

text \<open>One rounding step, in integers: the coefficient loses its last \<open>k\<close> digits.\<close>

lemma twice_abs_diff: "2 * \<bar>a - t\<bar> \<le> d \<Longrightarrow> 2 * t \<le> 2 * a + d" for a t d :: int
  by (simp add: abs_if split: if_splits)

lemma half_even_bounds:
  assumes "0 \<le> a" "a < 10 ^ (k + 28)"
  shows "half_even a (10 ^ k) \<le> 10 ^ 28"
proof -
  let ?d = "10 ^ k :: int" and ?q = "half_even a (10 ^ k)"
  define t where "t = ?d * ?q"
  have "2 * \<bar>a - t\<bar> \<le> ?d" unfolding t_def by (rule half_even_err) simp
  then have "2 * t \<le> 2 * a + ?d" by (rule twice_abs_diff)
  moreover have "a + 1 \<le> ?d * 10 ^ 28" using assms by (simp add: power_add)
  moreover have "0 < ?d" by simp
  ultimately have "t < ?d * 10 ^ 28 + ?d" by linarith
  then have "?d * ?q < ?d * (10 ^ 28 + 1)" by (simp add: t_def distrib_left)
  then have "?q < 10 ^ 28 + 1" by (simp only: mult_less_cancel_left_pos \<open>0 < ?d\<close>)
  then show ?thesis by simp
qed

lemma dfix_large:
  assumes big: "28 < ndigits (nat \<bar>c\<bar>)"
  obtains q k where "k = ndigits (nat \<bar>c\<bar>) - 28" "0 \<le> q" "q \<le> 10 ^ 28"
    "2 * \<bar>\<bar>c\<bar> - 10 ^ k * q\<bar> \<le> 10 ^ k"
    "dval (dfix (Dec c e)) = of_int (sgn c * q) * 10 powi (e + int k)"
    "ndigits (nat \<bar>coeff (dfix (Dec c e))\<bar>) \<le> 28"
proof -
  define k where "k = ndigits (nat \<bar>c\<bar>) - 28"
  define q where "q = half_even \<bar>c\<bar> (10 ^ k)"
  have "nat \<bar>c\<bar> < 10 ^ (k + 28)"
    using big ndigits_le [of "k + 28" "nat \<bar>c\<bar>"] by (simp add: k_def)
  then have lt: "\<bar>c\<bar> < 10 ^ (k + 28)" by (simp add: nat_less_iff)
  have q0: "0 \<le> q" by (simp add: q_def half_even_nonneg)
  have q1: "q \<le> 10 ^ 28" using half_even_bounds [OF _ lt] by (simp add: q_def)
  have err: "2 * \<bar>\<bar>c\<bar> - 10 ^ k * q\<bar> \<le> 10 ^ k"
    unfolding q_def by (rule half_even_err) simp
  have c0: "c \<noteq> 0" using big by (auto simp: ndigits.simps)
  have fix_eq: "dfix (Dec c e) = (if ndigits (nat q) \<le> 28 then Dec (sgn c * q) (e + int k)
      else Dec (sgn c * (q div 10)) (e + int k + 1))"
    using big by (simp add: dfix_def Let_def k_def q_def)
  show thesis
  proof (cases "ndigits (nat q) \<le> 28")
    case True
    have "\<bar>sgn c * q\<bar> = q" using c0 q0 by (simp add: abs_mult)
    with True show ?thesis
      using that [OF k_def q0 q1 err] by (simp add: fix_eq dval_def)
  next
    case False
    then have "\<not> q < 10 ^ 28" by (simp add: ndigits_le nat_less_iff)
    with q1 have q: "q = 10 ^ 28" by simp
    have "q div 10 = 10 ^ 27" by (simp add: q)
    moreover have "\<bar>sgn c * 10 ^ 27\<bar> = 10 ^ 27" using c0 by (simp add: abs_mult)
    moreover have "ndigits (nat (10 ^ 27)) \<le> 28" by (simp add: ndigits_le)
    ultimately show ?thesis
      using that [OF k_def q0 q1 err] False
      by (simp add: fix_eq dval_def power_int_add q)
  qed
qed

lemma dfix_digits: "ndigits (nat \<bar>coeff (dfix x)\<bar>) \<le> 28"
proof (cases "ndigits (nat \<bar>coeff x\<bar>) \<le> 28")
  case True
  then show ?thesis by (simp add: dfix_small)
next
  case False
  then show ?thesis
    by (cases x) (metis dec.sel(1) dfix_large linorder_not_le)
qed

lemma dval_dfix_near: "near28 (dval (dfix x)) (dval x)"
proof (cases "ndigits (nat \<bar>coeff x\<bar>) \<le> 28")
  case True
  then show ?thesis by (simp add: dfix_small)
next
  case False
  obtain c e where x: "x = Dec c e" by (cases x)
  with False have big: "28 < ndigits (nat \<bar>c\<bar>)" by simp
  obtain q k where k: "k = ndigits (nat \<bar>c\<bar>) - 28"
    and err: "2 * \<bar>\<bar>c\<bar> - 10 ^ k * q\<bar> \<le> 10 ^ k"
    and v: "dval (dfix (Dec c e)) = of_int (sgn c * q) * 10 powi (e + int k)"
    using dfix_large [OF big] by metis
  let ?p = "10 powi e :: rat"
  have p: "0 < ?p" by simp
  have "dval (dfix x) - dval x = of_int (sgn c) * (10 ^ k * of_int q - of_int \<bar>c\<bar>) * ?p"
    using v sgn_abs_rat [of c] by (simp add: x dval_def power_int_add algebra_simps)
  then have "\<bar>dval (dfix x) - dval x\<bar> \<le> \<bar>10 ^ k * of_int q - of_int \<bar>c\<bar>\<bar> * ?p"
    using p by (simp add: abs_mult sgn_if)
  also have "\<bar>10 ^ k * of_int q - (of_int \<bar>c\<bar> :: rat)\<bar> = of_int \<bar>\<bar>c\<bar> - 10 ^ k * q\<bar>"
    by simp
  also have "(of_int \<bar>\<bar>c\<bar> - 10 ^ k * q\<bar> :: rat) \<le> 10 ^ k / 2"
    using of_int_le_iff [of "2 * \<bar>\<bar>c\<bar> - 10 ^ k * q\<bar>" "10 ^ k", where 'a = rat] err by simp
  finally have 1: "\<bar>dval (dfix x) - dval x\<bar> \<le> 10 ^ k / 2 * ?p"
    using p by simp
  have "10 ^ (ndigits (nat \<bar>c\<bar>) - 1) \<le> nat \<bar>c\<bar>"
    using big by (intro ndigits_lower) simp
  then have "10 ^ (27 + k) \<le> nat \<bar>c\<bar>" using big k by (simp add: add.commute)
  then have "10 ^ (27 + k) \<le> \<bar>c\<bar>" by (simp add: le_nat_iff del: power_Suc)
  then have "(of_int (10 ^ (27 + k)) :: rat) \<le> of_int \<bar>c\<bar>" by (simp only: of_int_le_iff)
  then have "(10 ^ 27 * 10 ^ k :: rat) \<le> of_int \<bar>c\<bar>" by (simp add: power_add)
  then have "10 ^ k / 2 \<le> ulp28 * of_int \<bar>c\<bar>" by (simp add: ulp28_def)
  then have "10 ^ k / 2 * ?p \<le> ulp28 * of_int \<bar>c\<bar> * ?p" using p by simp
  also have "\<dots> = ulp28 * \<bar>dval x\<bar>" using p by (simp add: x dval_def abs_mult)
  finally show ?thesis using 1 by (simp add: near28_def)
qed


section \<open>Comparison\<close>

text \<open>
  Decimals compare by value: both coefficients are written at the smaller exponent. The
  order is a preorder only, \<open>1.0\<close> and \<open>1.00\<close> being below each other.
\<close>

definition align :: "int \<Rightarrow> dec \<Rightarrow> int" where
  "align e x = coeff x * 10 ^ nat (expo x - e)"

lemma align_dval: "e \<le> expo x \<Longrightarrow> of_int (align e x) * 10 powi e = dval x"
proof -
  assume "e \<le> expo x"
  then have "(10::rat) ^ nat (expo x - e) * 10 powi e = 10 powi expo x"
    by (simp add: power_int_add [symmetric] flip: power_int_of_nat)
  then show ?thesis by (simp add: align_def dval_def)
qed

instantiation dec :: preorder
begin

definition less_eq_dec :: "dec \<Rightarrow> dec \<Rightarrow> bool" where
  "x \<le> y \<longleftrightarrow> (let e = min (expo x) (expo y) in align e x \<le> align e y)"

definition less_dec :: "dec \<Rightarrow> dec \<Rightarrow> bool" where
  "x < y \<longleftrightarrow> (let e = min (expo x) (expo y) in align e x < align e y)"

lemma dec_le_dval: "x \<le> y \<longleftrightarrow> dval x \<le> dval y" for x y :: dec
proof -
  let ?e = "min (expo x) (expo y)"
  have "dval x \<le> dval y \<longleftrightarrow>
      of_int (align ?e x) * (10::rat) powi ?e \<le> of_int (align ?e y) * 10 powi ?e"
    by (simp add: align_dval)
  also have "\<dots> \<longleftrightarrow> align ?e x \<le> align ?e y" by simp
  finally show ?thesis by (simp add: less_eq_dec_def Let_def)
qed

lemma dec_less_dval: "x < y \<longleftrightarrow> dval x < dval y" for x y :: dec
proof -
  let ?e = "min (expo x) (expo y)"
  have "dval x < dval y \<longleftrightarrow>
      of_int (align ?e x) * (10::rat) powi ?e < of_int (align ?e y) * 10 powi ?e"
    by (simp add: align_dval)
  also have "\<dots> \<longleftrightarrow> align ?e x < align ?e y" by simp
  finally show ?thesis by (simp add: less_dec_def Let_def)
qed

instance
  by standard (auto simp: dec_le_dval dec_less_dval)

end

lemmas dec_order = dec_le_dval dec_less_dval

lemma dec_linear: "x \<le> y \<or> y \<le> x" for x y :: dec
  by (simp add: dec_le_dval linear)

lemma not_less_dec: "\<not> x < y \<longleftrightarrow> y \<le> x" for x y :: dec
  by (simp add: dec_order linorder_not_less)

lemma not_le_dec: "\<not> x \<le> y \<longleftrightarrow> y < x" for x y :: dec
  by (simp add: dec_order linorder_not_le)

text \<open>Python's \<open>==\<close>.\<close>

definition deq :: "dec \<Rightarrow> dec \<Rightarrow> bool" where
  "deq x y \<longleftrightarrow> x \<le> y \<and> y \<le> x"

lemma deq_dval: "deq x y \<longleftrightarrow> dval x = dval y"
  by (auto simp: deq_def dec_le_dval)

lemma pymax_dec_ge: "a \<le> pymax a b" "b \<le> pymax a b" for a b :: dec
  by (auto simp: pymax_def dec_order)

lemma pymin_dec_le: "pymin a b \<le> a" "pymin a b \<le> b" for a b :: dec
  by (auto simp: pymin_def dec_order)

lemma dval_pymax [dec_simps]: "dval (pymax a b) = max (dval a) (dval b)"
  by (auto simp: pymax_def dec_order)

lemma dval_pymin [dec_simps]: "dval (pymin a b) = min (dval a) (dval b)"
  by (auto simp: pymin_def dec_order)

lemma dval_Dec_0 [simp]: "dval (Dec n 0) = of_int n"
  by (simp add: dval_def)

lemma pow10_pos [simp]: "(0::rat) < 10 powi e" "\<not> (10::rat) powi e < 0"
  using zero_less_power_int [of "10::rat" e] by (simp_all add: not_less less_imp_le)

lemma dval_pos_iff: "0 < dval x \<longleftrightarrow> 0 < coeff x"
  by (simp add: dval_def zero_less_mult_iff)

lemma dval_zero_iff: "dval x = 0 \<longleftrightarrow> coeff x = 0"
  by (simp add: dval_def)

lemma dval_neg_iff: "dval x < 0 \<longleftrightarrow> coeff x < 0"
  by (simp add: dval_def mult_less_0_iff)

section \<open>Arithmetic\<close>

instantiation dec :: "{zero, one, plus, minus, uminus, times}"
begin

definition zero_dec :: dec where
  "0 = Dec 0 0"

definition one_dec :: dec where
  "1 = Dec 1 0"

definition plus_dec :: "dec \<Rightarrow> dec \<Rightarrow> dec" where
  "x + y = (let e = min (expo x) (expo y) in dfix (Dec (align e x + align e y) e))"

definition minus_dec :: "dec \<Rightarrow> dec \<Rightarrow> dec" where
  "x - y = (let e = min (expo x) (expo y) in dfix (Dec (align e x - align e y) e))"

definition uminus_dec :: "dec \<Rightarrow> dec" where
  "- x = dfix (Dec (- coeff x) (expo x))"

definition times_dec :: "dec \<Rightarrow> dec \<Rightarrow> dec" where
  "x * y = dfix (Dec (coeff x * coeff y) (expo x + expo y))"

instance ..

end

lemma dval_zero [simp]: "dval 0 = 0" by (simp add: zero_dec_def)
lemma dval_one [simp]: "dval 1 = 1" by (simp add: one_dec_def)

text \<open>\<open>copy_abs\<close> does not round, \<open>abs\<close> does.\<close>

definition copy_abs :: "dec \<Rightarrow> dec" where
  "copy_abs x = Dec \<bar>coeff x\<bar> (expo x)"

definition dabs :: "dec \<Rightarrow> dec" where
  "dabs x = dfix (copy_abs x)"

lemma dval_copy_abs [dec_simps]: "dval (copy_abs x) = \<bar>dval x\<bar>"
  by (simp add: copy_abs_def dval_def abs_mult)

lemma plus_near: "near28 (dval (x + y)) (dval x + dval y)"
proof -
  let ?e = "min (expo x) (expo y)"
  have "dval (Dec (align ?e x + align ?e y) ?e) = dval x + dval y"
    by (simp add: dval_def [of "Dec _ _"] distrib_right align_dval)
  then show ?thesis
    using dval_dfix_near [of "Dec (align ?e x + align ?e y) ?e"]
    by (simp add: plus_dec_def Let_def)
qed

lemma minus_near: "near28 (dval (x - y)) (dval x - dval y)"
proof -
  let ?e = "min (expo x) (expo y)"
  have "dval (Dec (align ?e x - align ?e y) ?e) = dval x - dval y"
    by (simp add: dval_def [of "Dec _ _"] left_diff_distrib align_dval)
  then show ?thesis
    using dval_dfix_near [of "Dec (align ?e x - align ?e y) ?e"]
    by (simp add: minus_dec_def Let_def)
qed

lemma times_near: "near28 (dval (x * y)) (dval x * dval y)"
proof -
  have "dval (Dec (coeff x * coeff y) (expo x + expo y)) = dval x * dval y"
    by (simp add: dval_def power_int_add)
  then show ?thesis
    using dval_dfix_near [of "Dec (coeff x * coeff y) (expo x + expo y)"]
    by (simp add: times_dec_def)
qed

lemma dabs_near: "near28 (dval (dabs x)) \<bar>dval x\<bar>"
  using dval_dfix_near [of "copy_abs x"] by (simp add: dabs_def dec_simps)

lemma uminus_near: "near28 (dval (- x)) (- dval x)"
  using dval_dfix_near [of "Dec (- coeff x) (expo x)"] by (simp add: uminus_dec_def dval_def)


subsection \<open>What a rounded result keeps of the exact one\<close>

lemma near28_bounds:
  assumes "near28 r v" "0 \<le> v"
  shows "(1 - ulp28) * v \<le> r" "r \<le> (1 + ulp28) * v"
  using assms by (simp_all add: near28_def algebra_simps abs_if split: if_splits)

lemma near28_sign:
  assumes "near28 r v"
  shows "0 < r \<longleftrightarrow> 0 < v" "r < 0 \<longleftrightarrow> v < 0" "r = 0 \<longleftrightarrow> v = 0"
proof -
  have "v \<noteq> 0 \<Longrightarrow> ulp28 * \<bar>v\<bar> < \<bar>v\<bar>" using ulp28_bounds by simp
  then have "v \<noteq> 0 \<Longrightarrow> \<bar>r - v\<bar> < \<bar>v\<bar>" "v = 0 \<Longrightarrow> r = 0"
    using assms unfolding near28_def by (blast intro: order.strict_trans1, simp)
  then show "0 < r \<longleftrightarrow> 0 < v" "r < 0 \<longleftrightarrow> v < 0" "r = 0 \<longleftrightarrow> v = 0"
    by (cases "v = 0"; simp add: abs_if split: if_splits)+
qed

lemmas near28_sign_of = near28_sign [OF minus_near] near28_sign [OF plus_near]
  near28_sign [OF times_near] near28_sign [OF dabs_near] near28_sign [OF uminus_near]

text \<open>A rounded difference has the sign of the comparison: guards on it are exact.\<close>

lemma minus_sign [dec_simps]:
  "x - y \<le> 0 \<longleftrightarrow> x \<le> y" "0 < x - y \<longleftrightarrow> y < x" "x - y < 0 \<longleftrightarrow> x < y"
  for x y :: dec
  by (auto simp: dec_order near28_sign_of not_less [symmetric])

lemma times_pos: "0 < x \<Longrightarrow> 0 < y \<Longrightarrow> 0 < x * y" for x y :: dec
  by (simp add: dec_order near28_sign_of)

lemma plus_pos: "0 < x \<Longrightarrow> 0 < y \<Longrightarrow> 0 < x + y" for x y :: dec
  by (simp add: dec_order near28_sign_of)

lemma plus_nonneg: "0 \<le> x \<Longrightarrow> 0 \<le> y \<Longrightarrow> 0 \<le> x + y" for x y :: dec
  using near28_sign(2) [OF plus_near, of x y] by (simp add: dec_order not_less [symmetric])

section \<open>Division\<close>

text \<open>
  The quotient is computed to at least 29 digits; when it is inexact and its last digit is
  0 or 5, one is added, so that the final rounding cannot mistake it for a tie or an exact
  value. An exact quotient drops its zeros down to the ideal exponent.
\<close>

function strip_to :: "int \<Rightarrow> int \<Rightarrow> int \<Rightarrow> dec" where
  "strip_to ideal c e =
     (if e < ideal \<and> c mod 10 = 0 then strip_to ideal (c div 10) (e + 1) else Dec c e)"
  by pat_completeness auto
termination
  by (relation "measure (\<lambda>(ideal, c, e). nat (ideal - e))") auto

declare strip_to.simps [simp del]

lemma dval_div10: "c mod 10 = 0 \<Longrightarrow> dval (Dec (c div 10) (e + 1)) = dval (Dec c e)"
  by (auto simp: dval_def power_int_add elim!: dvdE simp flip: dvd_eq_mod_eq_0)

lemma dval_strip_to [dec_simps]: "dval (strip_to ideal c e) = dval (Dec c e)"
  by (induction ideal c e rule: strip_to.induct)
    (subst strip_to.simps, simp add: dval_div10)

definition sticky :: "int \<Rightarrow> int" where
  "sticky q = (if q mod 5 = 0 then q + 1 else q)"

definition ddiv_nonzero :: "dec \<Rightarrow> dec \<Rightarrow> dec" where
  "ddiv_nonzero x y =
     (let a = \<bar>coeff x\<bar>; b = \<bar>coeff y\<bar>; s = sgn (coeff x) * sgn (coeff y);
          shift = int (ndigits (nat b)) - int (ndigits (nat a)) + 29;
          e = expo x - expo y - shift;
          n = a * 10 ^ nat shift; d = b * 10 ^ nat (- shift); q = n div d
      in if n mod d \<noteq> 0 then dfix (Dec (s * sticky q) e)
         else dfix (strip_to (expo x - expo y) (s * q) e))"

definition ddiv :: "dec \<Rightarrow> dec \<Rightarrow> dec result" where
  "ddiv x y =
     (if coeff y = 0 then Inl DecimalException
      else if coeff x = 0 then Inr (Dec 0 (expo x - expo y))
      else Inr (ddiv_nonzero x y))"

lemma sticky_bounds: "q \<le> sticky q" "sticky q \<le> q + 1" "\<not> 5 dvd sticky q"
  by (auto simp: sticky_def dvd_eq_mod_eq_0 mod_add_eq [symmetric]) presburger?

lemma near28_scale:
  assumes "near28 w v" "s = 1 \<or> s = - 1" "0 < p"
  shows "near28 (of_int s * w * p) (of_int s * v * p)"
proof -
  have "of_int s * w * p - of_int s * v * p = of_int s * ((w - v) * p)"
    by (simp add: algebra_simps)
  moreover have "\<bar>of_int s :: rat\<bar> = 1" using assms(2) by auto
  moreover have "\<bar>w - v\<bar> * p \<le> ulp28 * \<bar>v\<bar> * p" using assms by (simp add: near28_def)
  ultimately show ?thesis using assms(3) by (simp add: near28_def abs_mult mult.assoc)
qed

text \<open>Rounding a sticky coefficient is never a tie, so it errs by less than half a unit.\<close>

lemma no_tie:
  fixes q m :: int
  assumes "\<not> 5 dvd q" "0 < k" "2 * \<bar>q - 10 ^ k * r\<bar> \<le> 10 ^ k"
  shows "2 * \<bar>q - 10 ^ k * r\<bar> \<le> 10 ^ k - 2"
proof -
  obtain j where k: "k = Suc j" using assms(2) by (cases k) auto
  define t where "t = 10 ^ j * r"
  define h :: int where "h = 10 ^ j"
  have "2 * \<bar>q - 10 * t\<bar> \<noteq> 10 * h"
  proof
    assume "2 * \<bar>q - 10 * t\<bar> = 10 * h"
    then have "q = 5 * (2 * t + h) \<or> q = 5 * (2 * t - h)" by (auto simp: abs_if split: if_splits)
    then show False using assms(1) by (metis dvd_triv_left)
  qed
  moreover have "2 * \<bar>q - 10 * t\<bar> \<le> 10 * h" using assms(3) by (simp add: k t_def h_def mult.assoc)
  ultimately have "2 * \<bar>q - 10 * t\<bar> \<le> 10 * h - 2" by presburger
  then show ?thesis by (simp add: k t_def h_def mult.assoc)
qed

lemma sticky_near:
  fixes n d :: int
  assumes d: "0 < d" and inexact: "n mod d \<noteq> 0" and big: "10 ^ 28 \<le> n div d"
    and s: "s = 1 \<or> s = - 1"
  shows "near28 (dval (dfix (Dec (s * sticky (n div d)) e)))
           (of_int s * (of_int n / of_int d) * 10 powi e)"
proof -
  define q where "q = sticky (n div d)"
  define v :: rat where "v = of_int n / of_int d"
  let ?c = "s * q"
  have q_lo: "n div d \<le> q" "q \<le> n div d + 1" and q5: "\<not> 5 dvd q"
    unfolding q_def by (rule sticky_bounds)+
  have abs_c: "\<bar>?c\<bar> = q" using s big q_lo by auto
  have "28 < ndigits (nat q)"
    using big q_lo by (simp add: ndigits_le nat_le_iff not_le [symmetric])
  then have dig: "28 < ndigits (nat \<bar>?c\<bar>)" by (simp add: abs_c)
  obtain r k where k: "k = ndigits (nat q) - 28" and r0: "0 \<le> r"
    and err: "2 * \<bar>q - 10 ^ k * r\<bar> \<le> 10 ^ k"
    and val: "dval (dfix (Dec ?c e)) = of_int (sgn ?c * r) * 10 powi (e + int k)"
    using dfix_large [OF dig, of e] by (metis abs_c)
  have fl: "of_int (n div d) < v" "v < of_int (n div d) + 1"
  proof -
    have "n = d * (n div d) + n mod d" by simp
    moreover have "0 < n mod d" "n mod d < d"
      using d inexact pos_mod_sign [OF d, of n] by (simp_all add: order.strict_iff_order [of 0])
    ultimately have "d * (n div d) < n" "n < d * (n div d) + d" by linarith+
    then have "(of_int (d * (n div d)) :: rat) < of_int n"
        "(of_int n :: rat) < of_int (d * (n div d) + d)"
      by (simp_all only: of_int_less_iff)
    then show "of_int (n div d) < v" "v < of_int (n div d) + 1"
      using d by (simp_all add: v_def field_simps)
  qed
  have k0: "0 < k" using dig k by (simp add: abs_c)
  have "2 * \<bar>q - 10 ^ k * r\<bar> \<le> 10 ^ k - 2" by (rule no_tie [OF q5 k0 err])
  then have "(of_int (2 * \<bar>q - 10 ^ k * r\<bar>) :: rat) \<le> of_int (10 ^ k - 2)"
    by (simp only: of_int_le_iff)
  then have e1: "\<bar>of_int q - 10 ^ k * of_int r :: rat\<bar> \<le> 10 ^ k / 2 - 1" by simp
  have e2: "\<bar>of_int q - v\<bar> \<le> 1" "of_int q - 1 < v"
    using fl q_lo by (simp_all add: abs_le_iff)
  have "10 ^ (ndigits (nat q) - 1) \<le> nat q"
    using dig by (intro ndigits_lower) (simp add: abs_c)
  then have "10 ^ (27 + k) \<le> q"
    using dig k by (simp add: abs_c le_nat_iff add.commute)
  moreover have "5 dvd (10 ^ (27 + k) :: int)"
    by (rule dvd_power_le [of 5 10 1, simplified]) simp_all
  then have "q \<noteq> 10 ^ (27 + k)" using q5 by blast
  ultimately have "10 ^ (27 + k) \<le> q - 1" by simp
  then have "(of_int (10 ^ (27 + k)) :: rat) \<le> of_int (q - 1)" by (simp only: of_int_le_iff)
  then have lo: "10 ^ 27 * 10 ^ k \<le> v" using e2(2) by (simp add: power_add)
  have "near28 (10 ^ k * of_int r) v"
  proof -
    have "\<bar>10 ^ k * of_int r - v\<bar> \<le> 10 ^ k / 2" using e1 e2(1) by linarith
    also have "\<dots> \<le> ulp28 * v" using lo by (simp add: ulp28_def)
    finally have "\<bar>10 ^ k * of_int r - v\<bar> \<le> ulp28 * v" .
    moreover have "0 \<le> v" using lo order_trans [of 0 "10 ^ 27 * 10 ^ k" v] by simp
    ultimately show ?thesis by (simp only: near28_def abs_of_nonneg)
  qed
  then have "near28 (of_int s * (10 ^ k * of_int r) * 10 powi e) (of_int s * v * 10 powi e)"
    using s by (intro near28_scale) auto
  moreover have "0 < q" using big q_lo by simp
  then have "sgn ?c = s" using s by (auto simp: sgn_if)
  ultimately show ?thesis
    using val by (simp add: q_def v_def power_int_add mult_ac)
qed


lemma power_ratio: "(10::rat) ^ nat k / 10 ^ nat (- k) = 10 powi k"
  by (cases "0 \<le> k") (simp_all add: power_int_def field_simps)

lemma quotient_big:
  assumes a: "0 < a" and b: "0 < b"
    and sh: "sh = int (ndigits (nat b)) - int (ndigits (nat a)) + 29"
  shows "10 ^ 28 \<le> (a * 10 ^ nat sh) div (b * 10 ^ nat (- sh))"
proof -
  let ?la = "ndigits (nat a)" and ?lb = "ndigits (nat b)"
  have "10 ^ (?la - 1) \<le> a"
    using a ndigits_lower [of "nat a"] by (cases "1 < ?la") (auto simp: le_nat_iff)
  then have A: "10 ^ (?la - 1) * 10 ^ nat sh \<le> a * 10 ^ nat sh" by simp
  have "b \<le> 10 ^ ?lb"
    using b ndigits_le [of ?lb "nat b"] by (simp add: nat_less_iff)
  then have B: "b * 10 ^ nat (- sh) * 10 ^ 28 \<le> 10 ^ ?lb * 10 ^ nat (- sh) * 10 ^ 28" by simp
  have "?lb + nat (- sh) + 28 = ?la - 1 + nat sh"
    using sh ndigits_pos [of "nat a"] by linarith
  then have "10 ^ ?lb * 10 ^ nat (- sh) * 10 ^ 28 = (10 ^ (?la - 1) * 10 ^ nat sh :: int)"
    by (simp only: power_add [symmetric])
  with A B have "10 ^ 28 * (b * 10 ^ nat (- sh)) \<le> a * 10 ^ nat sh"
    by (simp only: mult.commute [of "10 ^ 28"])
  then have "(10 ^ 28 * (b * 10 ^ nat (- sh))) div (b * 10 ^ nat (- sh))
      \<le> (a * 10 ^ nat sh) div (b * 10 ^ nat (- sh))"
    using b by (intro zdiv_mono1) simp_all
  then show ?thesis using b by simp
qed


text \<open>Division returns the correctly rounded quotient, to within half a unit in place 28.\<close>

lemma ddiv_near:
  assumes "ddiv x y = Inr z"
  shows "near28 (dval z) (dval x / dval y)"
proof (cases "coeff x = 0")
  case True
  with assms show ?thesis by (auto simp: ddiv_def dval_def split: if_splits)
next
  case False
  define a b s where "a = \<bar>coeff x\<bar>" and "b = \<bar>coeff y\<bar>"
    and "s = sgn (coeff x) * sgn (coeff y)"
  define sh where "sh = int (ndigits (nat b)) - int (ndigits (nat a)) + 29"
  define n d where "n = a * 10 ^ nat sh" and "d = b * 10 ^ nat (- sh)"
  define e where "e = expo x - expo y - sh"
  have y0: "coeff y \<noteq> 0" using assms by (auto simp: ddiv_def split: if_splits)
  have ab: "0 < a" "0 < b" using False y0 by (simp_all add: a_def b_def)
  have d0: "0 < d" using ab by (simp add: d_def)
  have s1: "s = 1 \<or> s = - 1" using False y0 by (auto simp: s_def sgn_if)
  have z: "z = (if n mod d \<noteq> 0 then dfix (Dec (s * sticky (n div d)) e)
      else dfix (strip_to (expo x - expo y) (s * (n div d)) e))"
    using assms False y0 unfolding n_def d_def e_def sh_def a_def b_def s_def
    by (simp only: ddiv_def ddiv_nonzero_def Let_def if_False sum.inject)
  have "of_int (coeff x) = (of_int (sgn (coeff x)) * of_int a :: rat)"
       "of_int (coeff y) = (of_int (sgn (coeff y)) * of_int b :: rat)"
    by (simp_all only: a_def b_def sgn_abs_rat)
  then have "of_int (coeff x) / of_int (coeff y) =
      (of_int (sgn (coeff x)) / of_int (sgn (coeff y)) * (of_int a / of_int b) :: rat)"
    by (metis times_divide_times_eq)
  also have "of_int (sgn (coeff x)) / of_int (sgn (coeff y)) = (of_int s :: rat)"
    using y0 by (simp add: s_def sgn_if)
  finally have q1: "of_int (coeff x) / of_int (coeff y) = (of_int s * (of_int a / of_int b) :: rat)" .
  have q2: "(of_int n / of_int d :: rat) = of_int a / of_int b * 10 powi sh"
    by (simp add: n_def d_def power_ratio [symmetric])
  have q3: "(10 powi expo x / 10 powi expo y :: rat) = 10 powi sh * 10 powi e"
    by (simp add: e_def power_int_add power_int_diff)
  have "dval x / dval y = of_int (coeff x) / of_int (coeff y) * (10 powi expo x / 10 powi expo y)"
    by (simp add: dval_def)
  then have quot: "dval x / dval y = of_int s * (of_int n / of_int d) * 10 powi e"
    by (simp only: q1 q2 q3 mult.assoc)
  show ?thesis
  proof (cases "n mod d = 0")
    case True
    then have "of_int n / of_int d = (of_int (n div d) :: rat)"
      using d0 by (auto elim!: dvdE simp flip: dvd_eq_mod_eq_0)
    then have "dval (strip_to (expo x - expo y) (s * (n div d)) e) = dval x / dval y"
      by (simp add: quot dec_simps) (simp add: dval_def)
    with True show ?thesis
      using dval_dfix_near [of "strip_to (expo x - expo y) (s * (n div d)) e"] by (simp add: z)
  next
    case False
    then show ?thesis
      using sticky_near [OF d0 False _ s1, of e] quotient_big [OF ab sh_def]
      by (simp add: z quot n_def d_def)
  qed
qed

lemma ddiv_total: "dval y \<noteq> 0 \<Longrightarrow> \<exists>z. ddiv x y = Inr z"
  by (simp add: ddiv_def dval_zero_iff)

lemma ddiv_zero: "ddiv x y = Inl e \<longleftrightarrow> coeff y = 0 \<and> e = DecimalException"
  by (auto simp: ddiv_def)

lemma ddiv_pos: "ddiv x y = Inr z \<Longrightarrow> 0 < x \<Longrightarrow> 0 < y \<Longrightarrow> 0 < z"
  using near28_sign(1) [OF ddiv_near] by (simp add: dec_order)

section \<open>Quantisation, rounding to integers, normal form\<close>

text \<open>\<open>x.quantize(Decimal(1).scaleb(e))\<close> with the default rounding.\<close>

definition quantize :: "int \<Rightarrow> dec \<Rightarrow> dec result" where
  "quantize e x =
     (let c = coeff x;
          q = (if e \<le> expo x then \<bar>c\<bar> * 10 ^ nat (expo x - e)
               else half_even \<bar>c\<bar> (10 ^ nat (e - expo x)))
      in if 28 < ndigits (nat q) then Inl DecimalException else Inr (Dec (sgn c * q) e))"

text \<open>\<open>x.to_integral_value(rounding=ROUND_FLOOR)\<close> and \<open>int(x)\<close>.\<close>

definition floor_integral :: "dec \<Rightarrow> dec" where
  "floor_integral x = (if 0 \<le> expo x then x else Dec (coeff x div 10 ^ nat (- expo x)) 0)"

definition trunc_int :: "dec \<Rightarrow> int" where
  "trunc_int x =
     (if 0 \<le> expo x then coeff x * 10 ^ nat (expo x)
      else sgn (coeff x) * (\<bar>coeff x\<bar> div 10 ^ nat (- expo x)))"

text \<open>\<open>x.normalize()\<close>: round to the context, then drop every trailing zero.\<close>

function strip_all :: "int \<Rightarrow> int \<Rightarrow> dec" where
  "strip_all c e = (if c \<noteq> 0 \<and> c mod 10 = 0 then strip_all (c div 10) (e + 1) else Dec c e)"
  by pat_completeness auto
termination
  by (relation "measure (\<lambda>(c, e). nat \<bar>c\<bar>)") (auto simp: dvd_eq_mod_eq_0 [symmetric] elim!: dvdE)

declare strip_all.simps [simp del]

definition dnormalize :: "dec \<Rightarrow> dec" where
  "dnormalize x = (let y = dfix x in if coeff y = 0 then Dec 0 0 else strip_all (coeff y) (expo y))"

lemma dval_strip_all [dec_simps]: "dval (strip_all c e) = dval (Dec c e)"
  by (induction c e rule: strip_all.induct) (subst strip_all.simps, simp add: dval_div10)

lemma dval_dnormalize [dec_simps]: "dval (dnormalize x) = dval (dfix x)"
  by (simp add: dnormalize_def Let_def dec_simps) (simp add: dval_def)

lemma dval_floor_integral [dec_simps]: "dval (floor_integral x) = of_int \<lfloor>dval x\<rfloor>"
proof (cases "0 \<le> expo x")
  case True
  then have "dval x = of_int (coeff x * 10 ^ nat (expo x))" by (simp add: dval_def power_int_def)
  then show ?thesis using True by (simp add: floor_integral_def)
next
  case False
  then have "dval x = of_int (coeff x) / of_int (10 ^ nat (- expo x))"
    by (simp add: dval_def power_int_def field_simps)
  then have "\<lfloor>dval x\<rfloor> = coeff x div 10 ^ nat (- expo x)" by (simp only: floor_divide_of_int_eq)
  then show ?thesis using False by (simp add: floor_integral_def)
qed

end
