(* ===== verification/Py_Values.thy ===== *)
theory Py_Values
  imports Py_Decimal "HOL-Library.Word"
begin

text \<open>
  The other Python values the domain contracts inspect: raw inputs of a pydantic field
  before its conversion, the text of a Decimal, aware and naive datetimes, UUIDs. Strings
  are lists of characters.
\<close>

section \<open>Decimals from text\<close>

datatype decval = Finite dec | Infinite bool | NotANumber

fun is_finite :: "decval \<Rightarrow> bool" where
  "is_finite (Finite _) = True"
| "is_finite _ = False"

definition is_digit :: "char \<Rightarrow> bool" where
  "is_digit c \<longleftrightarrow> c \<in> set ''0123456789''"

definition digit_value :: "char \<Rightarrow> nat" where
  "digit_value c = of_char c - 48"

definition digits_value :: "string \<Rightarrow> nat" where
  "digits_value ds = foldl (\<lambda>n c. 10 * n + digit_value c) 0 ds"

definition is_space :: "char \<Rightarrow> bool" where
  "is_space c \<longleftrightarrow> c \<in> set [CHR '' '', CHR 0x09, CHR 0x0A, CHR 0x0B, CHR 0x0C, CHR 0x0D,
     CHR 0x1C, CHR 0x1D, CHR 0x1E, CHR 0x1F, CHR 0x85, CHR 0xA0]"

text \<open>\<open>str.strip\<close>, and \<open>str.upper\<close> and \<open>str.lower\<close> on ASCII letters.\<close>

definition strip :: "string \<Rightarrow> string" where
  "strip s = rev (dropWhile is_space (rev (dropWhile is_space s)))"

definition upper_char :: "char \<Rightarrow> char" where
  "upper_char c = (let n = of_char c :: nat in if 97 \<le> n \<and> n \<le> 122 then char_of (n - 32) else c)"

definition upper :: "string \<Rightarrow> string" where
  "upper s = map upper_char s"

definition lower_char :: "char \<Rightarrow> char" where
  "lower_char c = (let n = of_char c :: nat in if 65 \<le> n \<and> n \<le> 90 then char_of (n + 32) else c)"

definition lower :: "string \<Rightarrow> string" where
  "lower s = map lower_char s"

fun take_sign :: "string \<Rightarrow> bool \<times> string" where
  "take_sign (c # cs) =
     (if c = CHR ''-'' then (True, cs) else if c = CHR ''+'' then (False, cs) else (False, c # cs))"
| "take_sign [] = (False, [])"

fun parse_exponent :: "string \<Rightarrow> int option" where
  "parse_exponent [] = Some 0"
| "parse_exponent (c # cs) =
     (if c = CHR ''e'' \<or> c = CHR ''E'' then
        (case take_sign cs of (neg, ds) \<Rightarrow>
           if ds \<noteq> [] \<and> list_all is_digit ds
           then Some (if neg then - int (digits_value ds) else int (digits_value ds))
           else None)
      else None)"

definition parse_special :: "bool \<Rightarrow> string \<Rightarrow> decval option" where
  "parse_special neg s =
     (let t = lower s; u = dropWhile is_digit (rev t)
      in if t = ''inf'' \<or> t = ''infinity'' then Some (Infinite neg)
         else if rev u = ''nan'' \<or> rev u = ''snan'' then Some NotANumber
         else None)"

text \<open>
  \<open>Decimal(text)\<close>: optional sign, digits with an optional point, an optional exponent; or
  an infinity or a NaN. Surrounding blanks are dropped and underscores ignored. \<open>None\<close>
  is the \<open>DecimalException\<close> of a malformed text.
\<close>

definition parse_decimal :: "string \<Rightarrow> decval option" where
  "parse_decimal s =
     (case take_sign (filter (\<lambda>c. c \<noteq> CHR ''_'') (strip s)) of (neg, body) \<Rightarrow>
        let ip = takeWhile is_digit body; r = dropWhile is_digit body;
            fp = (case r of c # cs \<Rightarrow> if c = CHR ''.'' then takeWhile is_digit cs else [] | [] \<Rightarrow> []);
            r' = (case r of c # cs \<Rightarrow> if c = CHR ''.'' then dropWhile is_digit cs else r | [] \<Rightarrow> [])
        in if ip = [] \<and> fp = [] then parse_special neg body
           else case parse_exponent r' of
                  None \<Rightarrow> None
                | Some e \<Rightarrow>
                    let c = int (digits_value (ip @ fp))
                    in Some (Finite (Dec (if neg then - c else c) (e - int (length fp)))))"

lemma parse_decimal_examples:
  "parse_decimal ''0.10'' = Some (Finite (Dec 10 (- 2)))"
  "parse_decimal '' -1_000.5e+3 '' = Some (Finite (Dec (- 10005) 2))"
  "parse_decimal ''.5'' = Some (Finite (Dec 5 (- 1)))"
  "parse_decimal ''5.'' = Some (Finite (Dec 5 0))"
  "parse_decimal ''-Infinity'' = Some (Infinite True)"
  "parse_decimal ''sNaN12'' = Some NotANumber"
  "parse_decimal ''1.2.3'' = None" "parse_decimal ''.'' = None" "parse_decimal ''1e'' = None"
  by code_simp+

section \<open>Raw field values\<close>

text \<open>
  What a before-validator can be handed. A Python \<open>bool\<close> is an \<open>int\<close>. The value of a
  \<open>float\<close> is never looked at: every validator rejects the type.
\<close>

datatype pyval = VNone | VFloat | VInt int | VStr string | VDec decval | VOther

fun is_vfloat :: "pyval \<Rightarrow> bool" where
  "is_vfloat VFloat = True"
| "is_vfloat _ = False"

section \<open>Datetimes\<close>

text \<open>
  A datetime is its local clock reading in microseconds since 1970, with its UTC offset
  when it is aware. \<open>astimezone(UTC)\<close> keeps the instant.
\<close>

datatype pydatetime = Naive int | Aware int int

fun is_aware :: "pydatetime \<Rightarrow> bool" where
  "is_aware (Aware _ _) = True"
| "is_aware (Naive _) = False"

fun instant :: "pydatetime \<Rightarrow> int" where
  "instant (Aware t off) = t - off"
| "instant (Naive t) = t"

definition astimezone_utc :: "pydatetime \<Rightarrow> pydatetime" where
  "astimezone_utc d = Aware (instant d) 0"

lemma astimezone_utc_simps [simp]:
  "is_aware (astimezone_utc d)" "instant (astimezone_utc d) = instant d"
  "astimezone_utc (astimezone_utc d) = astimezone_utc d"
  by (simp_all add: astimezone_utc_def)

section \<open>UUIDs\<close>

type_synonym uuid = "128 word"

definition hex_digit :: "nat \<Rightarrow> char" where
  "hex_digit n = ''0123456789abcdef'' ! (n mod 16)"

text \<open>The last \<open>k\<close> hexadecimal digits of \<open>n\<close>, most significant first.\<close>

fun hex :: "nat \<Rightarrow> nat \<Rightarrow> string" where
  "hex 0 n = []"
| "hex (Suc k) n = hex k (n div 16) @ [hex_digit n]"

definition is_hex :: "char \<Rightarrow> bool" where
  "is_hex c \<longleftrightarrow> c \<in> set ''0123456789abcdef''"

definition str_uuid :: "uuid \<Rightarrow> string" where
  "str_uuid u =
     (let h = hex 32 (unat u)
      in take 8 h @ ''-'' @ take 4 (drop 8 h) @ ''-'' @ take 4 (drop 12 h) @ ''-'' @
         take 4 (drop 16 h) @ ''-'' @ drop 20 h)"

lemma length_hex [simp]: "length (hex k n) = k"
  by (induction k n rule: hex.induct) simp_all

lemma hex_digit_is_hex [simp]: "is_hex (hex_digit n)"
proof -
  have "n mod 16 < length ''0123456789abcdef''" by simp
  then show ?thesis unfolding is_hex_def hex_digit_def by (rule nth_mem)
qed

lemma hex_is_hex: "c \<in> set (hex k n) \<Longrightarrow> is_hex c"
  by (induction k n rule: hex.induct) auto

lemma hex_digit_inj: "hex_digit m = hex_digit n \<longleftrightarrow> m mod 16 = n mod 16"
proof -
  have "distinct ''0123456789abcdef''" by simp
  moreover have "m mod 16 < length ''0123456789abcdef''" "n mod 16 < length ''0123456789abcdef''"
    by simp_all
  ultimately show ?thesis unfolding hex_digit_def by (rule nth_eq_iff_index_eq)
qed

lemma digit16_eq_iff:
  "16 * a + x mod 16 = 16 * b + y mod 16 \<longleftrightarrow> a = b \<and> x mod 16 = y mod 16" for a b x y :: nat
proof
  assume eq: "16 * a + x mod 16 = 16 * b + y mod 16"
  have "(16 * a + x mod 16) mod 16 = x mod 16" "(16 * b + y mod 16) mod 16 = y mod 16" by simp_all
  with eq have "x mod 16 = y mod 16" by simp
  with eq show "a = b \<and> x mod 16 = y mod 16" by simp
qed simp

lemma hex_inj: "hex k m = hex k n \<longleftrightarrow> m mod 16 ^ k = n mod 16 ^ k"
proof (induction k arbitrary: m n)
  case 0
  show ?case by simp
next
  case (Suc k)
  have split: "x mod 16 ^ Suc k = 16 * (x div 16 mod 16 ^ k) + x mod 16" for x :: nat
    by (simp add: mod_mult2_eq)
  have "hex (Suc k) m = hex (Suc k) n \<longleftrightarrow>
      m div 16 mod 16 ^ k = n div 16 mod 16 ^ k \<and> m mod 16 = n mod 16"
    by (simp add: Suc hex_digit_inj)
  also have "\<dots> \<longleftrightarrow> m mod 16 ^ Suc k = n mod 16 ^ Suc k"
    unfolding split digit16_eq_iff ..
  finally show ?case .
qed

lemma length_str_uuid [simp]: "length (str_uuid u) = 36"
  by (simp add: str_uuid_def Let_def)

lemma str_uuid_chars: "c \<in> set (str_uuid u) \<Longrightarrow> is_hex c \<or> c = CHR ''-''"
  unfolding str_uuid_def Let_def by (auto dest!: in_set_takeD in_set_dropD intro: hex_is_hex)

lemma list_split_at: "xs = take n xs @ drop n xs"
  by simp

text \<open>The text of a UUID determines it.\<close>

lemma str_uuid_inj: "str_uuid u = str_uuid v \<Longrightarrow> u = v"
proof -
  assume eq: "str_uuid u = str_uuid v"
  let ?h = "hex 32 (unat u)" and ?g = "hex 32 (unat v)"
  from eq have "take 8 ?h = take 8 ?g" "take 4 (drop 8 ?h) = take 4 (drop 8 ?g)"
    "take 4 (drop 12 ?h) = take 4 (drop 12 ?g)" "take 4 (drop 16 ?h) = take 4 (drop 16 ?g)"
    "drop 20 ?h = drop 20 ?g"
    by (simp_all add: str_uuid_def Let_def append_eq_append_conv)
  moreover have "xs = take 8 xs @ take 4 (drop 8 xs) @ take 4 (drop 12 xs) @ take 4 (drop 16 xs)
      @ drop 20 xs" for xs :: string
    by (simp add: take_add [symmetric] drop_drop [symmetric] append_assoc [symmetric]
        del: append_assoc drop_drop)
  ultimately have "?h = ?g" by metis
  then have "unat u mod 16 ^ 32 = unat v mod 16 ^ 32" by (simp only: hex_inj)
  moreover have "unat w < 16 ^ 32" for w :: uuid
    using unsigned_less [of w] by simp
  ultimately have "unat u = unat v" by simp
  then show "u = v" by (simp only: unsigned_word_eqI)
qed

end
