(* ===== verification/Domain_Orders.thy ===== *)
theory Domain_Orders
  imports Py_Values
begin

text \<open>
  The order contracts of \<open>domain/enums.py\<close>, \<open>domain/orders.py\<close> and \<open>domain/numeric.py\<close>'s
  constant: the enums, the NUMERIC(28,10) check, and the pydantic models as records with a
  constructor that runs their validators and returns the error or the model. A validated
  model is one the constructor returned.
\<close>

section \<open>Enums\<close>

datatype source_type = STRATEGY | LEADER | EXTERNAL | FORM_13F

datatype order_side = BUY | SELL

datatype order_type = MARKET | LIMIT

datatype order_state =
    CREATED | PENDING_APPROVAL | QUEUED | SUBMITTED | PARTIALLY_FILLED
  | FILLED | CANCELED | REJECTED | EXPIRED | UNKNOWN

fun side_value :: "order_side \<Rightarrow> string" where
  "side_value BUY = ''BUY''"
| "side_value SELL = ''SELL''"

fun state_value :: "order_state \<Rightarrow> string" where
  "state_value CREATED = ''CREATED''"
| "state_value PENDING_APPROVAL = ''PENDING_APPROVAL''"
| "state_value QUEUED = ''QUEUED''"
| "state_value SUBMITTED = ''SUBMITTED''"
| "state_value PARTIALLY_FILLED = ''PARTIALLY_FILLED''"
| "state_value FILLED = ''FILLED''"
| "state_value CANCELED = ''CANCELED''"
| "state_value REJECTED = ''REJECTED''"
| "state_value EXPIRED = ''EXPIRED''"
| "state_value UNKNOWN = ''UNKNOWN''"

section \<open>The NUMERIC(28,10) check\<close>

definition ORDER_NUMERIC_PRECISION :: int where "ORDER_NUMERIC_PRECISION = 28"
definition ORDER_NUMERIC_SCALE :: int where "ORDER_NUMERIC_SCALE = 10"
definition ORDER_NUMERIC_INTEGER_DIGITS :: int where
  "ORDER_NUMERIC_INTEGER_DIGITS = ORDER_NUMERIC_PRECISION - ORDER_NUMERIC_SCALE"

lemmas numeric_defs = ORDER_NUMERIC_PRECISION_def ORDER_NUMERIC_SCALE_def
  ORDER_NUMERIC_INTEGER_DIGITS_def

definition fits_numeric :: "dec \<Rightarrow> bool" where
  "fits_numeric d =
     (let scale = max (- expo d) 0;
          integer_digits = (if coeff d = 0 then 0 else max (adjusted d + 1) 0)
      in \<not> (scale > ORDER_NUMERIC_SCALE
            \<or> integer_digits > ORDER_NUMERIC_INTEGER_DIGITS
            \<or> integer_digits + scale > ORDER_NUMERIC_PRECISION))"

definition order_candidate :: "pyval \<Rightarrow> decval option" where
  "order_candidate v =
     (case v of
        VDec d \<Rightarrow> Some d
      | VInt n \<Rightarrow> Some (Finite (dint n))
      | VStr s \<Rightarrow> parse_decimal s
      | _ \<Rightarrow> None)"

definition validate_order_decimal_input :: "pyval \<Rightarrow> string \<Rightarrow> pyval result" where
  "validate_order_decimal_input v field_name =
     (if is_vfloat v then Inl (ValueError (field_name @ '' must not be a float''))
      else case order_candidate v of
        None \<Rightarrow> Inr v
      | Some (Finite d) \<Rightarrow>
          if fits_numeric d then Inr v
          else Inl (ValueError (field_name @ '' must fit PostgreSQL NUMERIC(28,10) exactly''))
      | Some _ \<Rightarrow> Inl (ValueError (field_name @ '' must be finite'')))"

text \<open>
  The check accepts exactly the finite decimals that are a multiple of ten to the minus ten
  as written (no more than ten decimal places) and smaller than ten to the eighteen.
\<close>

lemma fits_numeric_iff: "fits_numeric d \<longleftrightarrow> - 10 \<le> expo d \<and> \<bar>dval d\<bar> < 10 ^ 18"
proof (cases "coeff d = 0")
  case True
  then show ?thesis by (auto simp: fits_numeric_def numeric_defs Let_def dval_def)
next
  case False
  define n where "n = ndigits (nat \<bar>coeff d\<bar>)"
  have n0: "0 < n" by (simp add: n_def)
  have key: "adjusted d + 1 \<le> 18 \<longleftrightarrow> \<bar>dval d\<bar> < 10 ^ 18" if e: "- 10 \<le> expo d"
  proof (cases "expo d < 18")
    case True
    define k where "k = nat (18 - expo d)"
    have k: "0 < k" "int k = 18 - expo d" using True by (simp_all add: k_def)
    have "adjusted d + 1 \<le> 18 \<longleftrightarrow> n \<le> k" using k by (simp add: adjusted_def n_def) linarith
    also have "\<dots> \<longleftrightarrow> \<bar>coeff d\<bar> < 10 ^ k"
      using k by (simp add: n_def ndigits_le nat_less_iff)
    also have "\<dots> \<longleftrightarrow> (of_int \<bar>coeff d\<bar> :: rat) < of_int (10 ^ k)" by (simp only: of_int_less_iff)
    also have "\<dots> \<longleftrightarrow> of_int \<bar>coeff d\<bar> * (10::rat) powi expo d < 10 powi int k * 10 powi expo d"
      by simp
    also have "(10::rat) powi int k * 10 powi expo d = 10 ^ 18"
      by (simp add: k power_int_add [symmetric])
    finally show ?thesis by (simp add: dval_def abs_mult)
  next
    case False
    have "(10::rat) ^ 18 \<le> 10 powi expo d"
      using False power_int_increasing [of 18 "expo d" "10::rat"] by simp
    also have "\<dots> \<le> of_int \<bar>coeff d\<bar> * 10 powi expo d"
      using \<open>coeff d \<noteq> 0\<close> by (simp add: mult_le_cancel_right1 flip: of_int_abs)
    finally have "\<not> \<bar>dval d\<bar> < 10 ^ 18" by (simp add: dval_def abs_mult)
    moreover have "\<not> adjusted d + 1 \<le> 18" using False n0 unfolding adjusted_def n_def by linarith
    ultimately show ?thesis by blast
  qed
  have "fits_numeric d \<longleftrightarrow> - 10 \<le> expo d \<and> adjusted d + 1 \<le> 18"
    using False by (auto simp: fits_numeric_def numeric_defs Let_def)
  with key show ?thesis by blast
qed

lemma fits_numeric_column:
  assumes "fits_numeric d"
  shows "\<exists>k. dval d = of_int k / 10 ^ 10 \<and> \<bar>k\<bar> < 10 ^ 28"
proof (intro exI conjI)
  let ?k = "coeff d * 10 ^ nat (expo d + 10)"
  have e: "- 10 \<le> expo d" and v: "\<bar>dval d\<bar> < 10 ^ 18"
    using assms by (simp_all add: fits_numeric_iff)
  have "(10::rat) ^ nat (expo d + 10) = 10 powi (expo d + 10)" using e by (simp add: power_int_def)
  also have "\<dots> = 10 powi expo d * 10 ^ 10" by (simp add: power_int_add)
  finally show eq: "dval d = of_int ?k / 10 ^ 10" by (simp add: dval_def)
  then have "(of_int \<bar>?k\<bar> :: rat) < of_int (10 ^ 28)" using v by (simp add: abs_mult)
  then show "\<bar>?k\<bar> < 10 ^ 28" by (simp only: of_int_less_iff)
qed


section \<open>Field checks shared by the models\<close>

text \<open>
  A Decimal field: the before-validator sees the value as a Decimal; when it accepts, the
  after-validator looks at the sign.
\<close>

definition decimal_field :: "string \<Rightarrow> bool \<Rightarrow> string \<Rightarrow> dec \<Rightarrow> string list" where
  "decimal_field field_name bad message d =
     (case validate_order_decimal_input (VDec (Finite d)) field_name of
        Inl (ValueError m) \<Rightarrow> [m]
      | Inl _ \<Rightarrow> []
      | Inr _ \<Rightarrow> complain bad message)"

definition optional_field :: "('a \<Rightarrow> string list) \<Rightarrow> 'a option \<Rightarrow> string list" where
  "optional_field check v = (case v of None \<Rightarrow> [] | Some x \<Rightarrow> check x)"

lemma decimal_field_Nil [simp]: "decimal_field f b m d = [] \<longleftrightarrow> fits_numeric d \<and> \<not> b"
  by (auto simp: decimal_field_def validate_order_decimal_input_def order_candidate_def)

lemma optional_field_Nil [simp]:
  "optional_field check v = [] \<longleftrightarrow> (\<forall>x. v = Some x \<longrightarrow> check x = [])"
  by (cases v) (auto simp: optional_field_def)

definition sha256_key :: "string \<Rightarrow> bool" where
  "sha256_key k \<longleftrightarrow> length k = 64 \<and> list_all is_hex k"

abbreviation utc :: "pydatetime \<Rightarrow> bool" where
  "utc d \<equiv> is_aware d \<and> astimezone_utc d = d"

section \<open>ExecutionIntent\<close>

record execution_intent =
  ei_intent_id :: uuid
  ei_account_id :: uuid
  ei_signal_id :: uuid
  ei_target_version :: int
  ei_market :: string
  ei_symbol :: string
  ei_side :: order_side
  ei_order_type :: order_type
  ei_quantity :: dec
  ei_limit_price :: "dec option"
  ei_reference_price :: "dec option"
  ei_stop_loss :: "dec option"
  ei_take_profit :: "dec option"
  ei_reduce_only :: bool
  ei_tranche_ref :: "string option"
  ei_currency :: string
  ei_expires_at :: pydatetime
  ei_idempotency_key :: string

definition pricing_reference :: "execution_intent \<Rightarrow> dec option" where
  "pricing_reference i =
     (case ei_limit_price i of Some p \<Rightarrow> Some p | None \<Rightarrow> ei_reference_price i)"

lemma pricing_reference_expires [simp]:
  "pricing_reference (i\<lparr>ei_expires_at := t\<rparr>) = pricing_reference i"
  by (simp add: pricing_reference_def split: option.split)

definition intent_field_errors :: "execution_intent \<Rightarrow> string list" where
  "intent_field_errors i =
     decimal_field ''quantity'' (ei_quantity i \<le> 0) ''quantity must be positive'' (ei_quantity i)
     @ optional_field
         (\<lambda>p. decimal_field ''limit_price'' (p \<le> 0) ''limit_price must be positive'' p)
         (ei_limit_price i)
     @ concat (map (optional_field
         (\<lambda>p. decimal_field ''bracket price'' (p \<le> 0) ''bracket prices must be positive'' p))
         [ei_reference_price i, ei_stop_loss i, ei_take_profit i])
     @ optional_field
         (\<lambda>t. complain (t = [] \<or> length t > 16) ''tranche_ref must be 1-16 characters'')
         (ei_tranche_ref i)
     @ complain (\<not> is_aware (ei_expires_at i)) ''expires_at must be timezone-aware''
     @ complain (\<not> sha256_key (ei_idempotency_key i))
         ''idempotency_key must be a lowercase SHA-256 hex digest''"

definition require_consistent_pricing :: "execution_intent \<Rightarrow> string option" where
  "require_consistent_pricing i =
     (if ei_order_type i = LIMIT then
        (if ei_limit_price i = None then Some ''limit orders require limit_price'' else None)
      else if ei_limit_price i \<noteq> None then
        Some ''market orders must not carry a limit_price''
      else if ei_reference_price i = None then
        Some ''market orders require reference_price for risk sizing''
      else None)"

definition bad_level :: "(dec \<Rightarrow> bool) \<Rightarrow> dec option \<Rightarrow> bool" where
  "bad_level p v = (case v of None \<Rightarrow> False | Some x \<Rightarrow> p x)"

definition require_brackets_on_the_correct_side :: "execution_intent \<Rightarrow> string option" where
  "require_brackets_on_the_correct_side i =
     (case pricing_reference i of
        None \<Rightarrow> None
      | Some anchor \<Rightarrow>
          if ei_side i = BUY then
            (if bad_level (\<lambda>s. s \<ge> anchor) (ei_stop_loss i) then
               Some ''buy stop_loss must sit below the entry price''
             else if bad_level (\<lambda>t. t \<le> anchor) (ei_take_profit i) then
               Some ''buy take_profit must sit above the entry price''
             else None)
          else
            (if bad_level (\<lambda>s. s \<le> anchor) (ei_stop_loss i) then
               Some ''sell stop_loss must sit above the entry price''
             else if bad_level (\<lambda>t. t \<ge> anchor) (ei_take_profit i) then
               Some ''sell take_profit must sit below the entry price''
             else None))"

definition ExecutionIntent :: "execution_intent \<Rightarrow> execution_intent result" where
  "ExecutionIntent raw =
     (let i = raw\<lparr>ei_expires_at := astimezone_utc (ei_expires_at raw)\<rparr>
      in run_model (intent_field_errors raw)
           [require_consistent_pricing i, require_brackets_on_the_correct_side i] i)"

subsection \<open>What a validated intent promises\<close>

text \<open>
  The abstract contract: every amount is positive and fits the database column, the order
  type agrees with the prices, and the protective levels straddle the anchor price.
\<close>

definition column_price :: "dec \<Rightarrow> bool" where
  "column_price p \<longleftrightarrow> fits_numeric p \<and> 0 < p"

definition optional_price :: "dec option \<Rightarrow> bool" where
  "optional_price v \<longleftrightarrow> (\<forall>p. v = Some p \<longrightarrow> column_price p)"

definition brackets_straddle :: "execution_intent \<Rightarrow> bool" where
  "brackets_straddle i \<longleftrightarrow>
     (\<forall>anchor. pricing_reference i = Some anchor \<longrightarrow>
        (\<forall>s. ei_stop_loss i = Some s \<longrightarrow> (if ei_side i = BUY then s < anchor else anchor < s)) \<and>
        (\<forall>t. ei_take_profit i = Some t \<longrightarrow> (if ei_side i = BUY then anchor < t else t < anchor)))"

definition intent_contract :: "execution_intent \<Rightarrow> bool" where
  "intent_contract i \<longleftrightarrow>
     column_price (ei_quantity i) \<and>
     optional_price (ei_limit_price i) \<and> optional_price (ei_reference_price i) \<and>
     optional_price (ei_stop_loss i) \<and> optional_price (ei_take_profit i) \<and>
     (\<forall>t. ei_tranche_ref i = Some t \<longrightarrow> 1 \<le> length t \<and> length t \<le> 16) \<and>
     is_aware (ei_expires_at i) \<and>
     sha256_key (ei_idempotency_key i) \<and>
     (if ei_order_type i = LIMIT then ei_limit_price i \<noteq> None
      else ei_limit_price i = None \<and> ei_reference_price i \<noteq> None) \<and>
     brackets_straddle i"

lemma intent_field_errors_Nil:
  "intent_field_errors i = [] \<longleftrightarrow>
     column_price (ei_quantity i) \<and>
     optional_price (ei_limit_price i) \<and> optional_price (ei_reference_price i) \<and>
     optional_price (ei_stop_loss i) \<and> optional_price (ei_take_profit i) \<and>
     (\<forall>t. ei_tranche_ref i = Some t \<longrightarrow> 1 \<le> length t \<and> length t \<le> 16) \<and>
     is_aware (ei_expires_at i) \<and> sha256_key (ei_idempotency_key i)"
  unfolding intent_field_errors_def column_price_def optional_price_def not_le_dec [symmetric]
  by (auto simp: Suc_le_eq not_le)

lemma require_consistent_pricing_None:
  "require_consistent_pricing i = None \<longleftrightarrow>
     (if ei_order_type i = LIMIT then ei_limit_price i \<noteq> None
      else ei_limit_price i = None \<and> ei_reference_price i \<noteq> None)"
  by (simp add: require_consistent_pricing_def)

lemma require_brackets_None:
  "require_brackets_on_the_correct_side i = None \<longleftrightarrow> brackets_straddle i"
  unfolding require_brackets_on_the_correct_side_def brackets_straddle_def bad_level_def
    not_le_dec [symmetric]
  by (auto split: option.splits)

definition in_utc :: "execution_intent \<Rightarrow> execution_intent" where
  "in_utc i = i\<lparr>ei_expires_at := astimezone_utc (ei_expires_at i)\<rparr>"

lemma intent_contract_in_utc: "is_aware (ei_expires_at i) \<Longrightarrow>
    intent_contract (in_utc i) \<longleftrightarrow> intent_contract i"
  by (simp add: intent_contract_def in_utc_def brackets_straddle_def)

lemma ExecutionIntent_iff:
  "ExecutionIntent raw = Inr i \<longleftrightarrow> intent_contract raw \<and> i = in_utc raw"
proof -
  let ?u = "in_utc raw"
  have "ExecutionIntent raw = Inr i \<longleftrightarrow> intent_field_errors raw = [] \<and>
      require_consistent_pricing ?u = None \<and> require_brackets_on_the_correct_side ?u = None \<and> i = ?u"
    by (auto simp: ExecutionIntent_def Let_def in_utc_def run_model_Inr_iff first_failure_None_iff)
  also have "brackets_straddle ?u \<longleftrightarrow> brackets_straddle raw"
    by (simp add: in_utc_def brackets_straddle_def)
  ultimately show ?thesis
    by (auto simp: intent_field_errors_Nil require_consistent_pricing_None require_brackets_None
        intent_contract_def in_utc_def)
qed

lemma ExecutionIntent_contract: "ExecutionIntent raw = Inr i \<Longrightarrow> intent_contract i"
  using intent_contract_in_utc [of raw] by (auto simp: ExecutionIntent_iff intent_contract_def)

lemma ExecutionIntent_error: "ExecutionIntent raw = Inl e \<Longrightarrow> is_value_error e"
  unfolding ExecutionIntent_def Let_def by (rule run_model_Inl_is_value_error)


text \<open>A plain limit order, on which the theorems are exercised.\<close>

definition plain_intent :: execution_intent where
  "plain_intent =
     \<lparr>ei_intent_id = 5, ei_account_id = 1, ei_signal_id = 2, ei_target_version = 1,
      ei_market = ''FX'', ei_symbol = ''XAUUSD'', ei_side = BUY, ei_order_type = LIMIT,
      ei_quantity = dint 1, ei_limit_price = Some (dint 2000), ei_reference_price = None,
      ei_stop_loss = None, ei_take_profit = None, ei_reduce_only = False, ei_tranche_ref = None,
      ei_currency = ''USD'', ei_expires_at = Aware 1000 0,
      ei_idempotency_key = replicate 64 (CHR ''a'')\<rparr>"

lemma plain_intent_valid: "ExecutionIntent plain_intent = Inr plain_intent"
  by (simp add: ExecutionIntent_iff plain_intent_def intent_contract_def column_price_def
      optional_price_def fits_numeric_iff dec_less_dval brackets_straddle_def in_utc_def
      astimezone_utc_def sha256_key_def list_all_iff is_hex_def)

section \<open>BrokerOrderResult and BrokerPosition\<close>

record broker_result =
  br_client_order_id :: string
  br_broker_order_id :: "string option"
  br_state :: order_state
  br_filled_quantity :: dec
  br_average_price :: "dec option"
  br_broker_request_id :: "string option"
  br_error_code :: "string option"

definition BrokerOrderResult :: "broker_result \<Rightarrow> broker_result result" where
  "BrokerOrderResult r =
     run_model
       (decimal_field ''order result decimal'' (br_filled_quantity r < 0)
          ''filled_quantity cannot be negative'' (br_filled_quantity r)
        @ optional_field
            (\<lambda>p. decimal_field ''order result decimal'' (p \<le> 0) ''average_price must be positive'' p)
            (br_average_price r))
       [] r"

definition result_contract :: "broker_result \<Rightarrow> bool" where
  "result_contract r \<longleftrightarrow>
     fits_numeric (br_filled_quantity r) \<and> 0 \<le> br_filled_quantity r \<and>
     optional_price (br_average_price r)"

lemma BrokerOrderResult_iff: "BrokerOrderResult r = Inr r' \<longleftrightarrow> result_contract r \<and> r' = r"
  by (auto simp: BrokerOrderResult_def run_model_Inr_iff result_contract_def optional_price_def
      column_price_def not_less_dec not_le_dec)

record broker_position =
  bp_position_ref :: string
  bp_account_id :: uuid
  bp_symbol :: string
  bp_side :: order_side
  bp_quantity :: dec
  bp_entry_price :: dec
  bp_stop_loss :: "dec option"
  bp_take_profit :: "dec option"
  bp_tranche_ref :: "string option"
  bp_opened_at :: "pydatetime option"

definition BrokerPosition :: "broker_position \<Rightarrow> broker_position result" where
  "BrokerPosition p =
     run_model
       (decimal_field ''position decimal'' (bp_quantity p \<le> 0)
          ''position quantity and entry price must be positive'' (bp_quantity p)
        @ decimal_field ''position decimal'' (bp_entry_price p \<le> 0)
            ''position quantity and entry price must be positive'' (bp_entry_price p)
        @ concat (map (optional_field (\<lambda>x. decimal_field ''position decimal'' False [] x))
            [bp_stop_loss p, bp_take_profit p])
        @ optional_field (\<lambda>t. complain (\<not> is_aware t) ''opened_at must be timezone-aware'')
            (bp_opened_at p))
       [] (p\<lparr>bp_opened_at := map_option astimezone_utc (bp_opened_at p)\<rparr>)"

lemma BrokerPosition_iff:
  "BrokerPosition p = Inr p' \<longleftrightarrow>
     column_price (bp_quantity p) \<and> column_price (bp_entry_price p) \<and>
     (\<forall>x. bp_stop_loss p = Some x \<longrightarrow> fits_numeric x) \<and>
     (\<forall>x. bp_take_profit p = Some x \<longrightarrow> fits_numeric x) \<and>
     (\<forall>t. bp_opened_at p = Some t \<longrightarrow> is_aware t) \<and>
     p' = p\<lparr>bp_opened_at := map_option astimezone_utc (bp_opened_at p)\<rparr>"
  by (auto simp: BrokerPosition_def run_model_Inr_iff column_price_def not_le_dec)

section \<open>Properties\<close>

text \<open>C11: An intent is accepted exactly when it satisfies the order contract (positive amounts
  that fit NUMERIC(28,10), prices consistent with the order type, protective levels on the
  right side of the anchor, an aware deadline, a SHA-256 key); validating the accepted model
  again changes nothing, and a refusal is always a \<open>ValueError\<close>.\<close>

theorem intent_validation:
  "case ExecutionIntent raw of
     Inl e \<Rightarrow> \<not> intent_contract raw \<and> is_value_error e
   | Inr i \<Rightarrow> intent_contract raw \<and> intent_contract i \<and> utc (ei_expires_at i) \<and>
             ExecutionIntent i = Inr i"
proof (cases "ExecutionIntent raw")
  case (Inl e)
  then have "\<not> intent_contract raw" using ExecutionIntent_iff [of raw "in_utc raw"] by auto
  then show ?thesis using Inl ExecutionIntent_error [OF Inl] by simp
next
  case (Inr i)
  then have i: "intent_contract raw" "i = in_utc raw" by (simp_all add: ExecutionIntent_iff)
  then have aw: "is_aware (ei_expires_at raw)" by (simp add: intent_contract_def)
  then have c: "intent_contract i" "utc (ei_expires_at i)"
    using i intent_contract_in_utc by (simp_all add: in_utc_def)
  moreover have "in_utc i = i" using c(2) by (simp add: in_utc_def)
  then have "ExecutionIntent i = Inr i" using c(1) by (simp add: ExecutionIntent_iff)
  ultimately show ?thesis using Inr i by simp
qed

text \<open>C12: The numeric guard never rounds: it refuses every non-finite number, and a finite
  decimal it accepts is exactly an integer multiple of ten to the minus ten that the
  28-digit column holds.\<close>

theorem order_decimal_exact:
  "(case validate_order_decimal_input (VDec d) f of
      Inl e \<Rightarrow> is_value_error e \<and> (d = NotANumber \<or> (\<exists>b. d = Infinite b) \<or>
                 (\<exists>x. d = Finite x \<and> \<not> fits_numeric x))
    | Inr v \<Rightarrow> v = VDec d \<and> (\<exists>x k. d = Finite x \<and> dval x = of_int k / 10 ^ 10 \<and> \<bar>k\<bar> < 10 ^ 28))"
  by (cases d) (auto simp: validate_order_decimal_input_def order_candidate_def dest: fits_numeric_column)

end
