(* ===== verification/Domain_Decisions.thy ===== *)
theory Domain_Decisions
  imports Domain_Orders
begin

text \<open>
  The contracts of \<open>domain/risk.py\<close>, \<open>domain/approvals.py\<close>, \<open>domain/confirmations.py\<close> and
  \<open>domain/signals.py\<close>.
\<close>

section \<open>Guards against floats and non-finite numbers\<close>

text \<open>
  The before-validators of these models share one shape: a float is refused, a Decimal or
  a text that reads as a Decimal must be finite, anything else is left to pydantic.
\<close>

definition text_candidate :: "pyval \<Rightarrow> decval option" where
  "text_candidate v =
     (case v of VDec d \<Rightarrow> Some d | VStr s \<Rightarrow> parse_decimal s | _ \<Rightarrow> None)"

definition reject_non_finite :: "pyval \<Rightarrow> string \<Rightarrow> pyval result" where
  "reject_non_finite v message =
     (case text_candidate v of
        Some d \<Rightarrow> if is_finite d then Inr v else Inl (ValueError message)
      | None \<Rightarrow> Inr v)"

definition finite_guard :: "string \<Rightarrow> string \<Rightarrow> pyval \<Rightarrow> pyval result" where
  "finite_guard float_message finite_message v =
     (if is_vfloat v then Inl (ValueError float_message)
      else reject_non_finite v finite_message)"

lemma finite_guard_finite [simp]: "finite_guard a b (VDec (Finite d)) = Inr (VDec (Finite d))"
  by (simp add: finite_guard_def reject_non_finite_def text_candidate_def)

lemma finite_guard_Inr:
  "finite_guard a b v = Inr w \<Longrightarrow> w = v \<and> v \<noteq> VFloat \<and>
     (\<forall>d. v = VDec d \<longrightarrow> is_finite d) \<and> (\<forall>s d. v = VStr s \<and> parse_decimal s = Some d \<longrightarrow> is_finite d)"
  by (auto simp: finite_guard_def reject_non_finite_def text_candidate_def
      split: if_splits option.splits pyval.splits)

section \<open>Risk\<close>

datatype risk_scope = SYSTEM | USER | ACCOUNT | SOURCE | SYMBOL

datatype risk_metric = ORDER_NOTIONAL | ACCOUNT_CAPITAL | SYMBOL_WEIGHT | DAILY_LOSS | MAX_DRAWDOWN

definition risk_metrics :: "risk_metric list" where
  "risk_metrics = [ORDER_NOTIONAL, ACCOUNT_CAPITAL, SYMBOL_WEIGHT, DAILY_LOSS, MAX_DRAWDOWN]"

lemma risk_metrics_all [simp]: "m \<in> set risk_metrics"
  by (cases m) (simp_all add: risk_metrics_def)

definition reject_float_limit :: "pyval \<Rightarrow> pyval result" where
  "reject_float_limit v = finite_guard ''limit must not be a float'' ''limit must be finite'' v"

definition reject_float_metric :: "pyval \<Rightarrow> pyval result" where
  "reject_float_metric v =
     finite_guard ''risk metrics must not be floats'' ''risk metrics must be finite'' v"

record risk_rule =
  rr_rule_id :: uuid
  rr_scope :: risk_scope
  rr_metric :: risk_metric
  rr_limit :: dec

definition RiskRule :: "risk_rule \<Rightarrow> risk_rule result" where
  "RiskRule r = run_model (complain (rr_limit r < 0) ''limit must be non-negative'') [] r"

record risk_context =
  rc_account_id :: uuid
  rc_order_notional :: dec
  rc_account_capital :: dec
  rc_resulting_symbol_weight :: dec
  rc_daily_loss :: dec
  rc_drawdown :: dec

definition RiskContext :: "risk_context \<Rightarrow> risk_context result" where
  "RiskContext c =
     run_model
       (complain (rc_order_notional c \<le> 0) ''risk metric must be positive''
        @ complain (rc_account_capital c \<le> 0) ''risk metric must be positive''
        @ complain (rc_resulting_symbol_weight c < 0) ''risk metric must be non-negative''
        @ complain (rc_daily_loss c < 0) ''risk metric must be non-negative''
        @ complain (rc_drawdown c < 0) ''risk metric must be non-negative'')
       [] c"

definition risk_context_contract :: "risk_context \<Rightarrow> bool" where
  "risk_context_contract c \<longleftrightarrow>
     0 < rc_order_notional c \<and> 0 < rc_account_capital c \<and>
     0 \<le> rc_resulting_symbol_weight c \<and> 0 \<le> rc_daily_loss c \<and> 0 \<le> rc_drawdown c"

lemma RiskContext_iff: "RiskContext c = Inr c' \<longleftrightarrow> risk_context_contract c \<and> c' = c"
  by (auto simp: RiskContext_def run_model_Inr_iff risk_context_contract_def
      not_less_dec not_le_dec)

lemma RiskContext_error: "RiskContext c = Inl e \<Longrightarrow> is_value_error e"
  unfolding RiskContext_def by (rule run_model_Inl_is_value_error)

record risk_violation =
  rv_code :: string
  rv_metric :: "risk_metric option"
  rv_actual :: "dec option"
  rv_limit :: "dec option"

record risk_decision =
  rd_decision_id :: uuid
  rd_allowed :: bool
  rd_violations :: "risk_violation list"

section \<open>Approvals\<close>

datatype approval_mode = AUTO | MANUAL | CONDITIONAL

datatype approval_status = Approved | Pending | Rejected | Expired

record approval_config =
  ap_mode :: approval_mode
  ap_auto_notional_limit :: "dec option"

definition reject_invalid_limit :: "pyval \<Rightarrow> pyval result" where
  "reject_invalid_limit v =
     (if is_vfloat v then Inl (ValueError ''auto_notional_limit must not be a float'')
      else case v of
        VDec d \<Rightarrow> if is_finite d then Inr v else Inl (ValueError ''auto_notional_limit must be finite'')
      | _ \<Rightarrow> Inr v)"

definition conditional_requires_limit :: "approval_config \<Rightarrow> string option" where
  "conditional_requires_limit c =
     (if ap_mode c = CONDITIONAL \<and> ap_auto_notional_limit c = None then
        Some ''conditional approval requires auto_notional_limit'' else None)"

definition ApprovalPolicyConfig :: "approval_config \<Rightarrow> approval_config result" where
  "ApprovalPolicyConfig c = run_model [] [conditional_requires_limit c] c"

lemma ApprovalPolicyConfig_iff:
  "ApprovalPolicyConfig c = Inr c' \<longleftrightarrow>
     (ap_mode c = CONDITIONAL \<longrightarrow> ap_auto_notional_limit c \<noteq> None) \<and> c' = c"
  by (auto simp: ApprovalPolicyConfig_def run_model_Inr_iff conditional_requires_limit_def
      first_failure_None_iff)

record approval_decision =
  ad_approval_id :: uuid
  ad_status :: approval_status
  ad_reason :: string

section \<open>Confirmations of over-budget signals\<close>

datatype confirmation_choice = ENTER | SKIP

datatype confirmation_state = ConfirmationPending | CONFIRMED | DECLINED | ConfirmationExpired

datatype notification_channel = TELEGRAM | CONSOLE

record confirmation_request =
  cr_confirmation_id :: uuid
  cr_symbol :: string
  cr_side :: order_side
  cr_bar_close_time :: pydatetime
  cr_stop_price :: dec
  cr_stop_distance :: dec
  cr_proposed_lots :: dec
  cr_risk_amount :: dec
  cr_budget :: dec
  cr_equity :: dec
  cr_deadline_at :: pydatetime

definition ConfirmationRequest :: "confirmation_request \<Rightarrow> confirmation_request result" where
  "ConfirmationRequest r =
     run_model
       (complain (\<not> is_aware (cr_bar_close_time r)) ''confirmation timestamps must be timezone-aware''
        @ concat (map (decimal_field ''confirmation amount'' False [])
            [cr_stop_price r, cr_stop_distance r, cr_proposed_lots r, cr_risk_amount r,
             cr_budget r, cr_equity r])
        @ complain (\<not> is_aware (cr_deadline_at r)) ''confirmation timestamps must be timezone-aware'')
       []
       (r\<lparr>cr_bar_close_time := astimezone_utc (cr_bar_close_time r),
          cr_deadline_at := astimezone_utc (cr_deadline_at r)\<rparr>)"

definition over_budget_by :: "confirmation_request \<Rightarrow> dec" where
  "over_budget_by r = pymax (cr_risk_amount r - cr_budget r) 0"

definition risk_pct_of_equity :: "confirmation_request \<Rightarrow> dec result" where
  "risk_pct_of_equity r =
     (if cr_equity r \<le> 0 then Inr 0
      else bindr (ddiv (cr_risk_amount r) (cr_equity r)) (\<lambda>q. quantize (- 1) (q * dint 100)))"

definition is_expired :: "confirmation_request \<Rightarrow> pydatetime \<Rightarrow> bool" where
  "is_expired r now \<longleftrightarrow> instant now \<ge> instant (cr_deadline_at r)"

record confirmation_response =
  cs_confirmation_id :: uuid
  cs_choice :: confirmation_choice
  cs_responder :: string
  cs_channel :: notification_channel
  cs_received_at :: pydatetime

definition ConfirmationResponse :: "confirmation_response \<Rightarrow> confirmation_response result" where
  "ConfirmationResponse r =
     run_model (complain (\<not> is_aware (cs_received_at r)) ''received_at must be timezone-aware'')
       [] (r\<lparr>cs_received_at := astimezone_utc (cs_received_at r)\<rparr>)"

lemma over_budget_by_iff: "0 < over_budget_by r \<longleftrightarrow> cr_budget r < cr_risk_amount r"
  by (auto simp: over_budget_by_def pymax_def dec_simps dest: less_asym)

lemma over_budget_by_nonneg: "0 \<le> over_budget_by r"
  unfolding over_budget_by_def by (rule pymax_dec_ge)

lemma is_expired_mono: "is_expired r now \<Longrightarrow> instant now \<le> instant later \<Longrightarrow> is_expired r later"
  by (simp add: is_expired_def)

section \<open>Trade signals\<close>

record trade_signal =
  ts_signal_id :: uuid
  ts_source_type :: source_type
  ts_source_id :: string
  ts_source_version :: string
  ts_generated_at :: pydatetime
  ts_observed_at :: pydatetime
  ts_expires_at :: pydatetime
  ts_market :: string
  ts_symbol :: string
  ts_currency :: string
  ts_target_weight :: dec
  ts_raw_payload_hash :: string
  ts_trace_id :: uuid

definition reject_float_weight :: "pyval \<Rightarrow> pyval result" where
  "reject_float_weight v =
     finite_guard ''target_weight must not be a float'' ''target_weight must be finite'' v"

definition require_valid_window :: "trade_signal \<Rightarrow> string option" where
  "require_valid_window s =
     (if instant (ts_expires_at s) \<le> instant (ts_generated_at s) then
        Some ''expires_at must be after generated_at''
      else if \<not> (dint (- 1) \<le> ts_target_weight s \<and> ts_target_weight s \<le> dint 1) then
        Some ''target_weight must be between -1 and 1''
      else None)"

definition TradeSignal :: "trade_signal \<Rightarrow> trade_signal result" where
  "TradeSignal s =
     run_model
       (concat (map (\<lambda>t. complain (\<not> is_aware t) ''timestamp must be timezone-aware'')
          [ts_generated_at s, ts_observed_at s, ts_expires_at s]))
       [require_valid_window s]
       (s\<lparr>ts_generated_at := astimezone_utc (ts_generated_at s),
          ts_observed_at := astimezone_utc (ts_observed_at s),
          ts_expires_at := astimezone_utc (ts_expires_at s)\<rparr>)"

lemma TradeSignal_contract:
  assumes "TradeSignal s = Inr s'"
  shows "utc (ts_generated_at s')" "utc (ts_observed_at s')" "utc (ts_expires_at s')"
    and "instant (ts_generated_at s') < instant (ts_expires_at s')"
    and "\<bar>dval (ts_target_weight s')\<bar> \<le> 1"
  using assms
  by (auto simp: TradeSignal_def run_model_Inr_iff first_failure_None_iff require_valid_window_def
      dec_le_dval split: if_splits)

end
