(* ===== verification/Py_Sha256.thy ===== *)
theory Py_Sha256
  imports Domain_Orders
begin

text \<open>
  \<open>hashlib.sha256(text.encode("utf-8")).hexdigest()\<close>, which the idempotency key of an
  intent is made of: the hash of FIPS 180-4 on 32-bit words. Texts are taken as their
  bytes, one character each.
\<close>

unbundle bit_operations_syntax

type_synonym w32 = "32 word"

text \<open>
  The constants of the standard are the first 32 bits of the fractional parts of the cube
  roots of the first 64 primes and of the square roots of the first eight;
  \<open>root_bits\<close> finds an integer root bit by bit.
\<close>

definition sha_primes :: "int list" where
  "sha_primes = [2, 3, 5, 7, 11, 13, 17, 19, 23, 29, 31, 37, 41, 43, 47, 53, 59, 61, 67, 71, 73, 79,
     83, 89, 97, 101, 103, 107, 109, 113, 127, 131, 137, 139, 149, 151, 157, 163, 167, 173, 179, 181,
     191, 193, 197, 199, 211, 223, 227, 229, 233, 239, 241, 251, 257, 263, 269, 271, 277, 281, 283,
     293, 307, 311]"

fun root_bits :: "nat \<Rightarrow> int \<Rightarrow> nat \<Rightarrow> int \<Rightarrow> int" where
  "root_bits e n 0 acc = acc"
| "root_bits e n (Suc i) acc =
     root_bits e n i (if (acc + 2 ^ i) ^ e \<le> n then acc + 2 ^ i else acc)"

definition fraction_of_root :: "nat \<Rightarrow> int \<Rightarrow> w32" where
  "fraction_of_root e p = of_int (root_bits e (p * 2 ^ (32 * e)) 37 0)"

definition sha_k :: "w32 list" where
  "sha_k = map (fraction_of_root 3) sha_primes"

definition sha_init :: "w32 list" where
  "sha_init = map (fraction_of_root 2) (take 8 sha_primes)"

definition pad_message :: "nat list \<Rightarrow> nat list" where
  "pad_message bs =
     (let n = length bs; bits = 8 * n
      in bs @ 128 # replicate ((119 - n mod 64) mod 64) 0
         @ map (\<lambda>i. bits div 256 ^ (7 - i) mod 256) [0..<8])"

fun words_of :: "nat list \<Rightarrow> w32 list" where
  "words_of (a # b # c # d # bs) = of_nat (((a * 256 + b) * 256 + c) * 256 + d) # words_of bs"
| "words_of _ = []"

definition sigma0 :: "w32 \<Rightarrow> w32" where
  "sigma0 x = word_rotr 7 x XOR word_rotr 18 x XOR drop_bit 3 x"

definition sigma1 :: "w32 \<Rightarrow> w32" where
  "sigma1 x = word_rotr 17 x XOR word_rotr 19 x XOR drop_bit 10 x"

text \<open>The message schedule, newest word first.\<close>

fun extend_schedule :: "nat \<Rightarrow> w32 list \<Rightarrow> w32 list" where
  "extend_schedule 0 ws = ws"
| "extend_schedule (Suc k) ws =
     extend_schedule k ((sigma1 (ws ! 1) + ws ! 6 + sigma0 (ws ! 14) + ws ! 15) # ws)"

definition schedule :: "w32 list \<Rightarrow> w32 list" where
  "schedule block = rev (extend_schedule 48 (rev block))"

fun sha_round :: "w32 list \<Rightarrow> w32 \<times> w32 \<Rightarrow> w32 list" where
  "sha_round [a, b, c, d, e, f, g, h] (k, w) =
     (let s1 = word_rotr 6 e XOR word_rotr 11 e XOR word_rotr 25 e;
          ch = (e AND f) XOR (NOT e AND g);
          t1 = h + s1 + ch + k + w;
          s0 = word_rotr 2 a XOR word_rotr 13 a XOR word_rotr 22 a;
          maj = (a AND b) XOR (a AND c) XOR (b AND c);
          t2 = s0 + maj
      in [t1 + t2, a, b, c, d + t1, e, f, g])"
| "sha_round st _ = st"

definition compress :: "w32 list \<Rightarrow> w32 list \<Rightarrow> w32 list" where
  "compress st block = map2 (+) st (foldl sha_round st (zip sha_k (schedule block)))"

function sha_blocks :: "w32 list \<Rightarrow> w32 list \<Rightarrow> w32 list" where
  "sha_blocks st ws = (if length ws < 16 then st else sha_blocks (compress st (take 16 ws)) (drop 16 ws))"
  by pat_completeness auto
termination
  by (relation "measure (\<lambda>(st, ws). length ws)") auto

declare sha_blocks.simps [simp del]

definition sha256_hex :: "string \<Rightarrow> string" where
  "sha256_hex s =
     concat (map (\<lambda>w. hex 8 (unat w))
       (sha_blocks sha_init (words_of (pad_message (map of_char s)))))"

lemma length_sha_round [simp]: "length (sha_round st kw) = length st"
  by (induction st kw rule: sha_round.induct) (simp_all add: Let_def)

lemma length_sha_rounds [simp]: "length (foldl sha_round st kws) = length st"
  by (induction kws arbitrary: st) simp_all

lemma length_compress [simp]: "length (compress st block) = length st"
  by (simp add: compress_def)

lemma length_sha_blocks [simp]: "length (sha_blocks st ws) = length st"
  by (induction st ws rule: sha_blocks.induct) (subst sha_blocks.simps, simp)

text \<open>A digest is 64 lowercase hexadecimal digits, the shape the order contract demands.\<close>

lemma sha256_key_hex [simp]: "sha256_key (sha256_hex s)"
  unfolding sha256_key_def sha256_hex_def
  by (auto simp: length_concat o_def sum_list_triv sha_init_def sha_primes_def list_all_iff intro: hex_is_hex)

end
