(* ===== verification/Idempotency.thy ===== *)
theory Idempotency
  imports Py_Sha256
begin

text \<open>
  \<open>application/idempotency.py\<close>: the key of an intent is the SHA-256 of a canonical text of
  its account, signal, target version, symbol and side. What identifies the intent is that
  text; the lemmas show that it can be read back, whatever characters the symbol has.
\<close>

section \<open>Decimal text of an int\<close>

fun str_nat :: "nat \<Rightarrow> string" where
  "str_nat n = (if n < 10 then [hex_digit n] else str_nat (n div 10) @ [hex_digit (n mod 10)])"

declare str_nat.simps [simp del]

definition str_int :: "int \<Rightarrow> string" where
  "str_int i = (if i < 0 then ''-'' @ str_nat (nat (- i)) else str_nat (nat i))"

fun join :: "string \<Rightarrow> string list \<Rightarrow> string" where
  "join sep [] = []"
| "join sep [x] = x"
| "join sep (x # y # xs) = x @ sep @ join sep (y # xs)"

definition canonical :: "uuid \<Rightarrow> uuid \<Rightarrow> int \<Rightarrow> string \<Rightarrow> order_side \<Rightarrow> string" where
  "canonical account_id signal_id target_version symbol side =
     join ''|'' [str_uuid account_id, str_uuid signal_id, str_int target_version, upper symbol,
                 side_value side]"

definition build_intent_key :: "uuid \<Rightarrow> uuid \<Rightarrow> int \<Rightarrow> string \<Rightarrow> order_side \<Rightarrow> string" where
  "build_intent_key account_id signal_id target_version symbol side =
     sha256_hex (canonical account_id signal_id target_version symbol side)"

section \<open>Reading the canonical text back\<close>

lemma digit_value_hex_digit: "d < 10 \<Longrightarrow> digit_value (hex_digit d) = d"
proof -
  assume "d < 10"
  then have "d \<in> {0, 1, 2, 3, 4, 5, 6, 7, 8, 9}" by auto
  then show ?thesis by (auto simp: digit_value_def hex_digit_def)
qed

lemma digits_value_snoc: "digits_value (ds @ [c]) = 10 * digits_value ds + digit_value c"
  by (simp add: digits_value_def)

lemma digits_value_str_nat: "digits_value (str_nat n) = n"
proof (induction n rule: str_nat.induct)
  case (1 n)
  show ?case
  proof (cases "n < 10")
    case True
    then show ?thesis
      using digits_value_snoc [of "[]" "hex_digit n"]
      by (simp add: str_nat.simps [of n] digit_value_hex_digit digits_value_def)
  next
    case False
    with "1.IH" show ?thesis
      by (simp add: str_nat.simps [of n] digits_value_snoc digit_value_hex_digit)
  qed
qed

lemma str_nat_inj: "str_nat m = str_nat n \<Longrightarrow> m = n"
  by (metis digits_value_str_nat)

lemma str_nat_chars: "c \<in> set (str_nat n) \<Longrightarrow> is_hex c"
  by (induction n rule: str_nat.induct) (subst (asm) str_nat.simps, auto split: if_splits)

lemma is_hex_not_sep: "is_hex c \<Longrightarrow> c \<noteq> CHR ''|'' \<and> c \<noteq> CHR ''-''"
  by (auto simp: is_hex_def)

lemma str_int_inj: "str_int i = str_int j \<Longrightarrow> i = j"
proof -
  assume eq: "str_int i = str_int j"
  have no_minus: "str_nat m \<noteq> CHR ''-'' # cs" for m cs
    using str_nat_chars [of "CHR ''-''" m] is_hex_not_sep by force
  have "i < 0 \<longleftrightarrow> j < 0" using eq no_minus by (auto simp: str_int_def split: if_splits) metis+
  then show "i = j" using eq by (auto simp: str_int_def dest!: str_nat_inj split: if_splits)
qed

lemma no_sep:
  "CHR ''|'' \<notin> set (str_uuid u)" "CHR ''|'' \<notin> set (str_int i)" "CHR ''|'' \<notin> set (side_value s)"
proof -
  show "CHR ''|'' \<notin> set (str_uuid u)" using str_uuid_chars is_hex_not_sep by force
  have "CHR ''|'' \<notin> set (str_nat n)" for n
    using str_nat_chars [of "CHR ''|''" n] is_hex_not_sep by blast
  then show "CHR ''|'' \<notin> set (str_int i)" by (auto simp: str_int_def)
  show "CHR ''|'' \<notin> set (side_value s)" by (cases s) auto
qed

lemma split_first:
  assumes "x @ [c] @ r = y @ [c] @ r'" "c \<notin> set x" "c \<notin> set y"
  shows "x = y \<and> r = r'"
proof -
  have "takeWhile (\<lambda>a. a \<noteq> c) (x @ [c] @ r) = x" "takeWhile (\<lambda>a. a \<noteq> c) (y @ [c] @ r') = y"
    using assms(2,3) by (auto simp: takeWhile_tail takeWhile_eq_all_conv)
  with assms(1) have "x = y" by simp
  with assms(1) show ?thesis by simp
qed

lemma split_last:
  assumes "r @ [c] @ x = r' @ [c] @ y" "c \<notin> set x" "c \<notin> set y"
  shows "x = y \<and> r = r'"
proof -
  have "rev x @ [c] @ rev r = rev y @ [c] @ rev r'"
    using arg_cong [OF assms(1), of rev] by simp
  then have "rev x = rev y \<and> rev r = rev r'" using assms by (intro split_first) simp_all
  then show ?thesis by simp
qed

lemma canonical_iff:
  "canonical a s v smb side = canonical a' s' v' smb' side' \<longleftrightarrow>
     a = a' \<and> s = s' \<and> v = v' \<and> upper smb = upper smb' \<and> side = side'"
proof
  assume eq: "canonical a s v smb side = canonical a' s' v' smb' side'"
  have shape: "canonical a s v smb side = str_uuid a @ [CHR ''|''] @ str_uuid s @ [CHR ''|''] @
      str_int v @ [CHR ''|''] @ upper smb @ [CHR ''|''] @ side_value side" for a s v smb side
    by (simp add: canonical_def)
  note 1 = split_first [OF eq [unfolded shape] no_sep(1) no_sep(1)]
  note 2 = split_first [OF conjunct2 [OF 1] no_sep(1) no_sep(1)]
  note 3 = split_first [OF conjunct2 [OF 2] no_sep(2) no_sep(2)]
  note 4 = split_last [OF conjunct2 [OF 3] no_sep(3) no_sep(3)]
  from 4 have "side = side'" by (cases side; cases side') simp_all
  with 1 2 3 4 show "a = a' \<and> s = s' \<and> v = v' \<and> upper smb = upper smb' \<and> side = side'"
    by (simp add: str_uuid_inj str_int_inj)
qed (simp add: canonical_def)

lemma build_intent_key_is_key [simp]: "sha256_key (build_intent_key a s v smb side)"
  by (simp add: build_intent_key_def)

section \<open>Properties\<close>

text \<open>C15: The idempotency key is the SHA-256 digest of a text that identifies the order: account,
  signal, target version, symbol and side, separated by bars. Two orders have the same text
  exactly when they agree on all five, the symbol up to letter case, whatever characters the
  symbol contains (a bar included); so two orders that agree have one key, and two that differ
  are told apart by the key unless the digest itself confuses their two texts. The key always has
  the form the order contract asks for.\<close>

theorem intent_key_identifies:
  "build_intent_key a s v smb side = sha256_hex (str_uuid a @ ''|'' @ str_uuid s @ ''|'' @ str_int v @
     ''|'' @ upper smb @ ''|'' @ side_value side) \<and>
   (str_uuid a @ ''|'' @ str_uuid s @ ''|'' @ str_int v @ ''|'' @ upper smb @ ''|'' @ side_value side =
      str_uuid a' @ ''|'' @ str_uuid s' @ ''|'' @ str_int v' @ ''|'' @ upper smb' @ ''|'' @ side_value side' \<longleftrightarrow>
    a = a' \<and> s = s' \<and> v = v' \<and> upper smb = upper smb' \<and> side = side') \<and>
   sha256_key (build_intent_key a s v smb side)"
  using canonical_iff [of a s v smb side a' s' v' smb' side']
  by (simp add: build_intent_key_def canonical_def del: append.simps)

theorem intent_key_identifies_witness:
  "build_intent_key 1 2 3 ''abc'' BUY = build_intent_key 1 2 3 ''ABC'' BUY \<and>
   canonical 1 2 3 ''abc'' BUY \<noteq> canonical 1 2 3 ''a|bc'' BUY"
proof -
  have u: "upper ''abc'' = upper ''ABC''" "upper ''abc'' \<noteq> upper ''a|bc''" by code_simp+
  have "build_intent_key 1 2 3 ''abc'' BUY = build_intent_key 1 2 3 ''ABC'' BUY"
    using intent_key_identifies [of 1 2 3 "''abc''" BUY 1 2 3 "''ABC''" BUY]
      intent_key_identifies [of 1 2 3 "''ABC''" BUY] u(1) by metis
  moreover have "canonical 1 2 3 ''abc'' BUY \<noteq> canonical 1 2 3 ''a|bc'' BUY"
    using canonical_iff u(2) by blast
  ultimately show ?thesis by blast
qed

end
