(* ===== verification/Fake_Broker.thy ===== *)
theory Fake_Broker
  imports Domain_Decisions Idempotency
begin

text \<open>
  The broker port of \<open>ports/broker.py\<close> as a record of operations with the contract its
  docstrings state (the locale \<open>broker_adapter\<close>), and \<open>infrastructure/broker/fake.py\<close>, the
  in-memory broker, which satisfies it.
\<close>

section \<open>The port\<close>

record 'b broker_ops =
  ba_submit :: "execution_intent \<Rightarrow> (broker_result, 'b) io"
  ba_lookup_by_client_order_id :: "uuid \<Rightarrow> string \<Rightarrow> (broker_result option, 'b) io"
  ba_modify_position_sltp ::
    "uuid \<Rightarrow> string \<Rightarrow> dec option \<Rightarrow> dec option \<Rightarrow> (broker_position, 'b) io"
  ba_close_position :: "uuid \<Rightarrow> string \<Rightarrow> dec option \<Rightarrow> (broker_result, 'b) io"
  ba_list_positions :: "uuid \<Rightarrow> (broker_position list, 'b) io"

text \<open>
  \<open>sent b (account, key)\<close> counts the orders that reached the market under the key. The
  docstring of the look-up makes \<open>None\<close> a promise: nothing was sent under the key. One
  submission sends at most one order, also when it raises (a timeout leaves it open).
\<close>

locale broker_adapter =
  fixes B :: "'b broker_ops" and sent :: "'b \<Rightarrow> uuid \<times> string \<Rightarrow> nat"
  assumes lookup_sends_nothing: "ba_lookup_by_client_order_id B a k b = (x, b') \<Longrightarrow> sent b' = sent b"
    and lookup_None: "ba_lookup_by_client_order_id B a k b = (Inr None, b') \<Longrightarrow> sent b (a, k) = 0"
    and submit_sends_one: "ba_submit B i b = (y, b') \<Longrightarrow>
      sent b' (ei_account_id i, ei_idempotency_key i) \<le> Suc (sent b (ei_account_id i, ei_idempotency_key i)) \<and>
      (\<forall>k. k \<noteq> (ei_account_id i, ei_idempotency_key i) \<longrightarrow> sent b' k = sent b k)"
begin

definition at_most_once :: "'b \<Rightarrow> bool" where
  "at_most_once b \<longleftrightarrow> (\<forall>k. sent b k \<le> 1)"

text \<open>Submitting after a look-up that found nothing keeps every key at one order at most.\<close>

lemma lookup_keeps: "keeps at_most_once (ba_lookup_by_client_order_id B a k)"
  by (auto simp: at_most_once_def intro!: keepsI dest: lookup_sends_nothing)

lemma submit_after_lookup:
  assumes "ba_lookup_by_client_order_id B (ei_account_id i) (ei_idempotency_key i) b = (Inr None, b1)"
    and "ba_submit B i b1 = (y, b2)" "at_most_once b"
  shows "at_most_once b2"
proof -
  let ?k = "(ei_account_id i, ei_idempotency_key i)"
  have "sent b1 = sent b" "sent b ?k = 0"
    using lookup_sends_nothing [OF assms(1)] lookup_None [OF assms(1)] by simp_all
  then have "sent b2 ?k \<le> 1" "\<forall>k. k \<noteq> ?k \<longrightarrow> sent b2 k = sent b k"
    using submit_sends_one [OF assms(2)] by auto
  then show ?thesis using assms(3) unfolding at_most_once_def by (metis)
qed

end

section \<open>FakeBroker\<close>

record fake_broker =
  fb_results :: "((uuid \<times> string) \<times> broker_result) list"
  fb_positions :: "((uuid \<times> string) \<times> broker_position) list"
  fb_submitted_keys :: "string list"

definition new_fake_broker :: fake_broker where
  "new_fake_broker = \<lparr>fb_results = [], fb_positions = [], fb_submitted_keys = []\<rparr>"

definition fake_result :: "nat \<Rightarrow> execution_intent \<Rightarrow> broker_result" where
  "fake_result sequence i =
     \<lparr>br_client_order_id = ei_idempotency_key i,
      br_broker_order_id = Some (''fake-'' @ str_nat sequence), br_state = SUBMITTED,
      br_filled_quantity = 0, br_average_price = None,
      br_broker_request_id = Some (''fake-request-'' @ str_nat sequence), br_error_code = None\<rparr>"

definition fake_position :: "pydatetime \<Rightarrow> string \<Rightarrow> dec \<Rightarrow> execution_intent \<Rightarrow> broker_position" where
  "fake_position now position_ref entry i =
     \<lparr>bp_position_ref = position_ref, bp_account_id = ei_account_id i, bp_symbol = ei_symbol i,
      bp_side = ei_side i, bp_quantity = ei_quantity i, bp_entry_price = entry,
      bp_stop_loss = ei_stop_loss i, bp_take_profit = ei_take_profit i,
      bp_tranche_ref = ei_tranche_ref i, bp_opened_at = Some now\<rparr>"

definition record_result :: "uuid \<times> string \<Rightarrow> broker_result \<Rightarrow> execution_intent \<Rightarrow> fake_broker \<Rightarrow> fake_broker" where
  "record_result key result i fb = fb\<lparr>fb_results := dict_set key result (fb_results fb),
     fb_submitted_keys := fb_submitted_keys fb @ [ei_idempotency_key i]\<rparr>"

definition fake_submit :: "pydatetime \<Rightarrow> execution_intent \<Rightarrow> (broker_result, fake_broker) io" where
  "fake_submit now i fb =
     (let key = (ei_account_id i, ei_idempotency_key i) in
      case dict_get (fb_results fb) key of
        Some existing \<Rightarrow> (Inr existing, fb)
      | None \<Rightarrow>
          let sequence = length (fb_results fb) + 1 in
          io_bind (io_lift (BrokerOrderResult (fake_result sequence i))) (\<lambda>result.
          io_bind (io_do (record_result key result i)) (\<lambda>_.
          io_bind
            (case pricing_reference i of
               Some entry \<Rightarrow>
                 if ei_reduce_only i then io_ret ()
                 else
                   let position_ref = ''fake-position-'' @ str_nat sequence in
                   io_bind (io_lift (BrokerPosition (fake_position now position_ref entry i))) (\<lambda>p.
                   io_do (\<lambda>b. b\<lparr>fb_positions := dict_set (ei_account_id i, position_ref) p (fb_positions b)\<rparr>))
             | None \<Rightarrow> io_ret ()) (\<lambda>_.
          io_ret result))) fb)"

definition fake_lookup :: "uuid \<Rightarrow> string \<Rightarrow> (broker_result option, fake_broker) io" where
  "fake_lookup account_id client_order_id fb =
     (Inr (dict_get (fb_results fb) (account_id, client_order_id)), fb)"

definition unknown_position :: "string \<Rightarrow> exn" where
  "unknown_position position_ref = KeyError (''unknown position '' @ position_ref)"

definition fake_modify_position_sltp ::
  "uuid \<Rightarrow> string \<Rightarrow> dec option \<Rightarrow> dec option \<Rightarrow> (broker_position, fake_broker) io" where
  "fake_modify_position_sltp account_id position_ref stop_loss take_profit fb =
     (case dict_get (fb_positions fb) (account_id, position_ref) of
        None \<Rightarrow> (Inl (unknown_position position_ref), fb)
      | Some position \<Rightarrow>
          let updated = position\<lparr>bp_stop_loss := stop_loss, bp_take_profit := take_profit\<rparr>
          in (Inr updated,
              fb\<lparr>fb_positions := dict_set (account_id, position_ref) updated (fb_positions fb)\<rparr>))"

definition close_result :: "string \<Rightarrow> dec \<Rightarrow> broker_position \<Rightarrow> broker_result" where
  "close_result position_ref closing position =
     \<lparr>br_client_order_id = position_ref, br_broker_order_id = Some (''fake-close-'' @ position_ref),
      br_state = FILLED, br_filled_quantity = closing,
      br_average_price = Some (bp_entry_price position), br_broker_request_id = None,
      br_error_code = None\<rparr>"

definition fake_close_position :: "uuid \<Rightarrow> string \<Rightarrow> dec option \<Rightarrow> (broker_result, fake_broker) io" where
  "fake_close_position account_id position_ref quantity fb =
     (case dict_get (fb_positions fb) (account_id, position_ref) of
        None \<Rightarrow> (Inl (unknown_position position_ref), fb)
      | Some position \<Rightarrow>
          let closing = (case quantity of None \<Rightarrow> bp_quantity position | Some q \<Rightarrow> q) in
          if bp_quantity position < closing then
            (Inl (ValueError ''cannot close more than the open quantity''), fb)
          else
            let remaining = bp_quantity position - closing;
                positions =
                  (if 0 < remaining then
                     dict_set (account_id, position_ref) (position\<lparr>bp_quantity := remaining\<rparr>)
                       (fb_positions fb)
                   else dict_del (account_id, position_ref) (fb_positions fb))
            in (BrokerOrderResult (close_result position_ref closing position),
                fb\<lparr>fb_positions := positions\<rparr>))"

definition fake_list_positions :: "uuid \<Rightarrow> (broker_position list, fake_broker) io" where
  "fake_list_positions account_id fb =
     (Inr (map snd (filter (\<lambda>((owner, _), _). owner = account_id) (fb_positions fb))), fb)"

definition fake_ops :: "pydatetime \<Rightarrow> fake_broker broker_ops" where
  "fake_ops now =
     \<lparr>ba_submit = fake_submit now, ba_lookup_by_client_order_id = fake_lookup,
      ba_modify_position_sltp = fake_modify_position_sltp,
      ba_close_position = fake_close_position, ba_list_positions = fake_list_positions\<rparr>"

section \<open>FakeBroker keeps the contract of the port\<close>

definition fake_sent :: "fake_broker \<Rightarrow> uuid \<times> string \<Rightarrow> nat" where
  "fake_sent fb k = count_list (dict_keys (fb_results fb)) k"

lemma count_list_absent: "dict_get d k = None \<longleftrightarrow> count_list (dict_keys d) k = 0"
  by (induction d) auto

lemma count_list_dict_set:
  "count_list (dict_keys (dict_set k v d)) k' =
     (if k' = k \<and> dict_get d k = None then 1 else count_list (dict_keys d) k')"
  by (induction d) (auto simp: count_list_absent)

lemma fake_result_valid [simp]: "BrokerOrderResult (fake_result n i) = Inr (fake_result n i)"
  by (simp add: BrokerOrderResult_iff result_contract_def fake_result_def optional_price_def
      fits_numeric_iff zero_dec_def)

text \<open>What a submission leaves behind: always the recorded result, also when it raises.\<close>

lemma fake_submit_known:
  "dict_get (fb_results fb) (ei_account_id i, ei_idempotency_key i) = Some r \<Longrightarrow>
     fake_submit now i fb = (Inr r, fb)"
  by (simp add: fake_submit_def Let_def)

lemma fake_submit_results:
  assumes "fake_submit now i fb = (x, fb')"
  shows "fb_results fb' =
    (if dict_get (fb_results fb) (ei_account_id i, ei_idempotency_key i) = None then
       fb_results fb @ [((ei_account_id i, ei_idempotency_key i), fake_result (length (fb_results fb) + 1) i)]
     else fb_results fb)"
  using assms
  by (auto simp: fake_submit_def Let_def io_defs record_result_def dict_set_new
      split: option.splits if_splits sum.splits)

text \<open>A validated intent is always accepted.\<close>

lemma fake_position_valid:
  assumes "intent_contract i" "pricing_reference i = Some entry" "is_aware now"
  shows "BrokerPosition (fake_position now r entry i) =
    Inr (fake_position (astimezone_utc now) r entry i)"
  using assms
  by (auto simp: BrokerPosition_iff fake_position_def intent_contract_def optional_price_def
      column_price_def pricing_reference_def split: option.splits)

lemma fake_submit_accepts:
  assumes "intent_contract i" "is_aware now"
    and "dict_get (fb_results fb) (ei_account_id i, ei_idempotency_key i) = None"
  shows "fst (fake_submit now i fb) = Inr (fake_result (length (fb_results fb) + 1) i)"
  using assms fake_position_valid [OF assms(1) _ assms(2)]
  by (auto simp: fake_submit_def Let_def io_steps io_defs split: option.split)

lemma fake_submit_sent:
  assumes "fake_submit now i fb = (x, fb')"
  shows "fake_sent fb' k = fake_sent fb k +
    (if k = (ei_account_id i, ei_idempotency_key i) \<and> fake_sent fb k = 0 then 1 else 0)"
  by (auto simp: fake_sent_def fake_submit_results [OF assms] count_list_absent)

interpretation fake: broker_adapter "fake_ops now" fake_sent for now
proof unfold_locales
  fix i b y b'
  assume "ba_submit (fake_ops now) i b = (y, b')"
  then have "fake_submit now i b = (y, b')" by (simp add: fake_ops_def)
  from fake_submit_sent [OF this]
  show "fake_sent b' (ei_account_id i, ei_idempotency_key i)
      \<le> Suc (fake_sent b (ei_account_id i, ei_idempotency_key i)) \<and>
      (\<forall>k. k \<noteq> (ei_account_id i, ei_idempotency_key i) \<longrightarrow> fake_sent b' k = fake_sent b k)"
    by simp
qed (auto simp: fake_ops_def fake_lookup_def fake_sent_def count_list_absent)

section \<open>Properties\<close>

text \<open>Submitting is idempotent: once a submission of a key has answered, submitting any
  intent with the same account and key again gives the same answer and leaves the broker,
  its positions included, as it is; the first submission of a valid intent always answers.\<close>

lemma fake_broker_idempotent:
  assumes "intent_contract i" and "is_aware now"
    and "ei_account_id j = ei_account_id i" and "ei_idempotency_key j = ei_idempotency_key i"
  shows "\<exists>r fb'. fake_submit now i fb = (Inr r, fb') \<and> fake_submit later j fb' = (Inr r, fb') \<and>
    fake_lookup (ei_account_id i) (ei_idempotency_key i) fb' = (Inr (Some r), fb')"
proof (cases "dict_get (fb_results fb) (ei_account_id i, ei_idempotency_key i)")
  case None
  obtain x fb' where s: "fake_submit now i fb = (x, fb')" by fastforce
  then have x: "x = Inr (fake_result (length (fb_results fb) + 1) i)"
    using fake_submit_accepts [OF assms(1,2) None] by simp
  have "dict_get (fb_results fb') (ei_account_id i, ei_idempotency_key i) =
      Some (fake_result (length (fb_results fb) + 1) i)"
    using fake_submit_results [OF s] None by (simp add: map_add_def)
  then show ?thesis using s x fake_submit_known [of fb' j] assms(3,4)
    by (auto simp: fake_lookup_def)
next
  case (Some r)
  then show ?thesis using fake_submit_known [of fb i r] fake_submit_known [of fb j r] assms(3,4)
    by (auto simp: fake_lookup_def)
qed

text \<open>
  Amounts that fit the columns are multiples of ten to the minus ten below ten to the
  eighteen: their difference needs no more than 28 digits, so it is exact.
\<close>

lemma minus_exact:
  assumes "fits_numeric x" "fits_numeric y" "0 \<le> y" "y \<le> x"
  shows "dval (x - y) = dval x - dval y"
proof -
  let ?e = "min (expo x) (expo y)" let ?c = "align ?e x - align ?e y"
  have v: "dval (Dec ?c ?e) = dval x - dval y"
    by (simp add: dval_def [of "Dec _ _"] left_diff_distrib align_dval)
  have e: "- 10 \<le> ?e" and x: "dval x < 10 ^ 18" and y: "0 \<le> dval y" "dval y \<le> dval x"
    using assms by (auto simp: fits_numeric_iff dec_le_dval)
  have "ndigits (nat \<bar>?c\<bar>) \<le> 28"
  proof -
    have up: "of_int ?c * (10::rat) powi ?e < 10 ^ 18" and "0 \<le> of_int ?c * (10::rat) powi ?e"
      using v x y by (simp_all add: dval_def [of "Dec _ _"])
    define w where "w = (10::rat) powi ?e"
    have "0 < w" by (simp add: w_def)
    then have "0 \<le> (of_int ?c :: rat)"
      using \<open>0 \<le> of_int ?c * (10::rat) powi ?e\<close> unfolding w_def [symmetric]
      by (simp only: zero_le_mult_iff) linarith
    then have c: "0 \<le> ?c" by (simp only: of_int_0_le_iff)
    have "(10::rat) powi (- 10) \<le> 10 powi ?e" using e by (intro power_int_increasing) simp_all
    then have "of_int ?c * (10::rat) powi (- 10) \<le> of_int ?c * 10 powi ?e"
      using c by (intro mult_left_mono) simp_all
    then have "of_int ?c * (10::rat) powi (- 10) < 10 ^ 18" using up by linarith
    moreover have "t * (10::rat) powi (- 10) < 10 ^ 18 \<Longrightarrow> t < 10 ^ 28" for t
      by (simp add: power_int_def power_one_over field_simps)
    ultimately have "(of_int ?c :: rat) < of_int (10 ^ 28)" by simp
    then have "?c < 10 ^ 28" by (simp only: of_int_less_iff)
    then show ?thesis using c by (simp add: ndigits_le nat_less_iff)
  qed
  then have "x - y = Dec ?c ?e" by (simp add: minus_dec_def Let_def dfix_small)
  then show ?thesis using v by simp
qed


text \<open>Closing is exact: for a position and an amount that fit the order columns, closing no
  more than the open quantity reports exactly the amount closed, and what stays open is
  exactly the difference; a full close removes the position and nothing else; asking for
  more than is open is refused and changes nothing.\<close>

lemma fake_close_conserves:
  assumes "dict_get (fb_positions fb) (acc, ref) = Some p"
    and "column_price (bp_quantity p)" and "column_price (bp_entry_price p)" and "column_price q"
  shows "case fake_close_position acc ref (Some q) fb of
      (Inl e, fb') \<Rightarrow> bp_quantity p < q \<and> fb' = fb
    | (Inr res, fb') \<Rightarrow> q \<le> bp_quantity p \<and> br_filled_quantity res = q \<and>
        (\<forall>k. k \<noteq> (acc, ref) \<longrightarrow> dict_get (fb_positions fb') k = dict_get (fb_positions fb) k) \<and>
        (case dict_get (fb_positions fb') (acc, ref) of
           None \<Rightarrow> dval q = dval (bp_quantity p)
         | Some p' \<Rightarrow> dval (bp_quantity p') + dval q = dval (bp_quantity p) \<and> 0 < bp_quantity p')"
proof (cases "bp_quantity p < q")
  case True
  then show ?thesis using assms by (simp add: fake_close_position_def Let_def)
next
  case False
  then have le: "q \<le> bp_quantity p" by (simp add: not_less_dec)
  have d: "dval (bp_quantity p - q) = dval (bp_quantity p) - dval q"
    using assms(2,4) le by (intro minus_exact) (auto simp: column_price_def dec_order)
  have r: "BrokerOrderResult (close_result ref q p) = Inr (close_result ref q p)"
    using assms(3,4) by (auto simp: BrokerOrderResult_iff result_contract_def close_result_def
        optional_price_def column_price_def dec_order)
  have f: "br_filled_quantity (close_result ref q p) = q" by (simp add: close_result_def)
  show ?thesis using False assms(1) le d
    by (auto simp: fake_close_position_def Let_def r f dict_get_set dict_get_del dec_order)
qed

definition sample_position :: broker_position where
  "sample_position = \<lparr>bp_position_ref = ''p'', bp_account_id = 1, bp_symbol = ''XAUUSD'', bp_side = BUY,
     bp_quantity = dint 3, bp_entry_price = dint 2000, bp_stop_loss = None, bp_take_profit = None,
     bp_tranche_ref = None, bp_opened_at = None\<rparr>"

text \<open>A negative amount defeats the check of \<open>close_position\<close>: the operation raises, but the
  position has already grown.\<close>

lemma fake_close_negative_grows:
  "\<exists>msgs fb'. fake_close_position 1 ''p'' (Some (dint (- 2)))
       (new_fake_broker\<lparr>fb_positions := [((1, ''p''), sample_position)]\<rparr>) = (Inl (ValidationError msgs), fb') \<and>
     map_option bp_quantity (dict_get (fb_positions fb') (1, ''p'')) = Some (dint 5)"
proof -
  have five: "dint 3 - dint (- 2) = dint 5" by code_simp
  have fits: "fits_numeric (dint (- 2))" "fits_numeric (dint 2000)"
    by (simp_all add: fits_numeric_iff)
  show ?thesis
    by (simp add: fake_close_position_def Let_def sample_position_def new_fake_broker_def dec_order
        five fits BrokerOrderResult_def close_result_def run_model_def decimal_field_def
        validate_order_decimal_input_def order_candidate_def optional_field_def complain_def)
qed

end
