(* ===== verification/Order_State_Machine.thy ===== *)
theory Order_State_Machine
  imports Domain_Orders
begin

text \<open>
  The order life cycle of \<open>application/order_state_machine.py\<close>: the table of allowed
  transitions, the checked \<open>transition\<close>, and the runs of the machine.
\<close>

fun ALLOWED :: "order_state \<Rightarrow> order_state list" where
  "ALLOWED CREATED = [PENDING_APPROVAL, QUEUED, REJECTED]"
| "ALLOWED PENDING_APPROVAL = [QUEUED, REJECTED, EXPIRED]"
| "ALLOWED QUEUED = [SUBMITTED, REJECTED, EXPIRED, UNKNOWN]"
| "ALLOWED SUBMITTED = [PARTIALLY_FILLED, FILLED, CANCELED, REJECTED, UNKNOWN]"
| "ALLOWED PARTIALLY_FILLED = [FILLED, CANCELED, UNKNOWN]"
| "ALLOWED UNKNOWN = [SUBMITTED, PARTIALLY_FILLED, FILLED, CANCELED, REJECTED]"
| "ALLOWED FILLED = []"
| "ALLOWED CANCELED = []"
| "ALLOWED REJECTED = []"
| "ALLOWED EXPIRED = []"

definition transition :: "order_state \<Rightarrow> order_state \<Rightarrow> order_state result" where
  "transition current target =
     (if target \<notin> set (ALLOWED current) then
        Inl (ValueError (''cannot transition '' @ state_value current @ '' -> '' @ state_value target))
      else Inr target)"

lemma transition_Inr [simp]: "transition s t = Inr u \<longleftrightarrow> t \<in> set (ALLOWED s) \<and> u = t"
  by (auto simp: transition_def)

lemma transition_error: "transition s t = Inl e \<Longrightarrow> is_value_error e \<and> t \<notin> set (ALLOWED s)"
  by (auto simp: transition_def split: if_splits)

inductive order_step :: "order_state \<Rightarrow> order_state \<Rightarrow> bool" where
  moved: "transition s t = Inr u \<Longrightarrow> order_step s u"

inductive_simps order_step_iff: "order_step s t"

lemma order_step_allowed: "order_step s t \<longleftrightarrow> t \<in> set (ALLOWED s)"
  by (simp add: order_step_iff)

definition terminal :: "order_state \<Rightarrow> bool" where
  "terminal s \<longleftrightarrow> s \<in> {FILLED, CANCELED, REJECTED, EXPIRED}"

text \<open>
  The phases: before the queue, in the queue, with the broker (where a partial fill and an
  unknown outcome may alternate with a submission), settled.
\<close>

fun phase :: "order_state \<Rightarrow> nat" where
  "phase CREATED = 0"
| "phase PENDING_APPROVAL = 1"
| "phase QUEUED = 2"
| "phase SUBMITTED = 3"
| "phase PARTIALLY_FILLED = 3"
| "phase UNKNOWN = 3"
| "phase FILLED = 4"
| "phase CANCELED = 4"
| "phase REJECTED = 4"
| "phase EXPIRED = 4"

lemma order_step_phase: "order_step s t \<Longrightarrow> phase s \<le> phase t"
  by (cases s) (auto simp: order_step_allowed)

interpretation order_life: ranked_machine order_step phase
  by unfold_locales (rule order_step_phase)

lemma terminal_no_step: "terminal s \<longleftrightarrow> (\<forall>t. \<not> order_step s t)"
  by (cases s) (auto simp: terminal_def order_step_allowed)

lemma terminal_stays: "order_step\<^sup>*\<^sup>* s t \<Longrightarrow> terminal s \<Longrightarrow> t = s"
  by (induction rule: converse_rtranclp_induct) (auto simp: terminal_no_step)

lemma expires_only_before_broker: "order_step s EXPIRED \<Longrightarrow> phase s < 3"
  by (cases s) (auto simp: order_step_allowed)

lemma some_terminal_reachable: "\<exists>t. order_step\<^sup>*\<^sup>* s t \<and> terminal t"
proof -
  have step: "order_step a b \<Longrightarrow> order_step\<^sup>*\<^sup>* a b" for a b by (rule r_into_rtranclp)
  have "\<exists>t. (t = s \<or> order_step s t) \<and> terminal t"
    by (cases s) (auto simp: order_step_allowed terminal_def)
  then show ?thesis using step by blast
qed

section \<open>Properties\<close>

text \<open>C13: The order life cycle only moves forward: along any sequence of checked transitions
  the phase never decreases, a settled order keeps its state for ever, and from every state
  some settled state can be reached.\<close>

theorem order_life_forward:
  "(order_step\<^sup>*\<^sup>* s t \<longrightarrow> phase s \<le> phase t \<and> (terminal s \<longrightarrow> t = s)) \<and>
   (\<exists>u. order_step\<^sup>*\<^sup>* s u \<and> terminal u)"
  using order_life.steps_rank terminal_stays some_terminal_reachable by blast

theorem order_life_forward_witness:
  "phase QUEUED \<le> phase FILLED"
proof -
  have "order_step\<^sup>*\<^sup>* QUEUED FILLED"
    by (rule converse_rtranclp_into_rtranclp [of _ _ SUBMITTED])
      (auto simp: order_step_allowed intro: r_into_rtranclp)
  then show ?thesis using order_life_forward [of QUEUED FILLED] by blast
qed

end
