(* ===== verification/Py_Json.thy ===== *)
theory Py_Json
  imports Py_Values
begin

text \<open>
  The JSON payloads of outbox events, and \<open>uuid.UUID(text)\<close>, which reads the identifiers in
  them back: the \<open>urn:\<close> and \<open>uuid:\<close> prefixes, braces and hyphens are dropped and what
  remains is read by \<open>int(text, 16)\<close>.
\<close>

datatype json = JNull | JBool bool | JNumber int | JString string | JArray "json list"
  | JObject "(string \<times> json) list"

fun strip_prefix :: "string \<Rightarrow> string \<Rightarrow> string option" where
  "strip_prefix [] s = Some s"
| "strip_prefix (p # ps) [] = None"
| "strip_prefix (p # ps) (c # cs) = (if p = c then strip_prefix ps cs else None)"

lemma strip_prefix_length: "strip_prefix p s = Some r \<Longrightarrow> length r + length p = length s"
  by (induction p s rule: strip_prefix.induct) (auto split: if_splits)

lemma strip_prefix_head: "strip_prefix p s = Some r \<Longrightarrow> p \<noteq> [] \<Longrightarrow> hd p \<in> set s"
  by (cases p; cases s) (auto split: if_splits)

text \<open>\<open>s.replace(p, "")\<close> for a non-empty \<open>p\<close>.\<close>

function remove_all :: "string \<Rightarrow> string \<Rightarrow> string" where
  "remove_all p [] = []"
| "remove_all p (c # cs) =
     (case strip_prefix p (c # cs) of
        None \<Rightarrow> c # remove_all p cs
      | Some r \<Rightarrow> if p = [] then c # cs else remove_all p r)"
  by pat_completeness auto
termination
  by (relation "measure (\<lambda>(p, s). length s)") (auto dest!: strip_prefix_length simp: neq_Nil_conv)

lemma remove_all_absent: "p \<noteq> [] \<Longrightarrow> hd p \<notin> set s \<Longrightarrow> remove_all p s = s"
proof (induction s)
  case (Cons c cs)
  then have "strip_prefix p (c # cs) = None" using strip_prefix_head [of p "c # cs"] by fastforce
  with Cons show ?case by simp
qed simp

definition strip_braces :: "string \<Rightarrow> string" where
  "strip_braces s =
     (let brace = (\<lambda>c. c = CHR ''{'' \<or> c = CHR ''}'')
      in rev (dropWhile brace (rev (dropWhile brace s))))"

definition hex_value :: "char \<Rightarrow> nat" where
  "hex_value c =
     (let n = of_char (lower_char c) :: nat in if 97 \<le> n then n - 87 else n - 48)"

definition int_base16 :: "string \<Rightarrow> nat" where
  "int_base16 s = foldl (\<lambda>n c. 16 * n + hex_value c) 0 s"

text \<open>
  \<open>int(text, 16)\<close>: blanks around it, a sign, a prefix \<open>0x\<close> that may be followed by an underscore,
  and digits of either case with single underscores between them.
\<close>

fun hex_groups :: "string \<Rightarrow> bool" where
  "hex_groups [] = False"
| "hex_groups [c] = is_hex (lower_char c)"
| "hex_groups (c # d # cs) =
     (is_hex (lower_char c) \<and> (if d = CHR ''_'' then hex_groups cs else hex_groups (d # cs)))"

fun drop_0x :: "string \<Rightarrow> string" where
  "drop_0x (c # x # cs) =
     (if c = CHR ''0'' \<and> lower_char x = CHR ''x''
      then (case cs of d # ds \<Rightarrow> if d = CHR ''_'' then ds else cs | [] \<Rightarrow> [])
      else c # x # cs)"
| "drop_0x s = s"

definition int_text16 :: "string \<Rightarrow> int option" where
  "int_text16 text1 =
     (case take_sign (strip text1) of (neg, rest) \<Rightarrow>
        let ds = drop_0x rest; n = int (int_base16 (filter (\<lambda>c. c \<noteq> CHR ''_'') ds))
        in if hex_groups ds then Some (if neg then - n else n) else None)"

text \<open>\<open>uuid.UUID(text)\<close>: 32 characters must remain, and \<open>int(text, 16)\<close> a 128-bit value.\<close>

definition parse_uuid :: "string \<Rightarrow> uuid option" where
  "parse_uuid raw =
     (let h = filter (\<lambda>c. c \<noteq> CHR ''-'')
                (strip_braces (remove_all ''uuid:'' (remove_all ''urn:'' raw)))
      in if length h \<noteq> 32 then None
         else case int_text16 h of
                None \<Rightarrow> None
              | Some n \<Rightarrow> if 0 \<le> n \<and> n < 2 ^ 128 then Some (word_of_int n) else None)"

lemma below_16: "d < 16 \<Longrightarrow> d \<in> {0, 1, 2, 3, 4, 5, 6, 7, 8, 9, 10, 11, 12, 13, 14, 15}" for d :: nat
  unfolding insert_iff empty_iff by presburger

lemma hex_value_hex_digit: "hex_value (hex_digit n) = n mod 16"
proof -
  have "n mod 16 \<in> {0, 1, 2, 3, 4, 5, 6, 7, 8, 9, 10, 11, 12, 13, 14, 15}"
    by (rule below_16) simp
  then show ?thesis
    by (auto simp: hex_digit_def hex_value_def lower_char_def Let_def)
qed

lemma int_base16_hex: "int_base16 (hex k n) = n mod 16 ^ k"
proof (induction k n rule: hex.induct)
  case (2 k n)
  then show ?case by (simp add: int_base16_def hex_value_hex_digit mod_mult2_eq)
qed (simp add: int_base16_def)

lemma lower_hex: "is_hex c \<Longrightarrow> is_hex (lower_char c)"
  by (auto simp: is_hex_def lower_char_def Let_def)

lemma str_uuid_hyphens: "filter (\<lambda>c. c \<noteq> CHR ''-'') (str_uuid u) = hex 32 (unat u)"
proof -
  let ?h = "hex 32 (unat u)"
  have "c \<noteq> CHR ''-''" if "is_hex c" for c using that by (auto simp: is_hex_def)
  then have keep: "filter (\<lambda>c. c \<noteq> CHR ''-'') xs = xs" if "set xs \<subseteq> set ?h" for xs
    using that hex_is_hex [of _ 32 "unat u"] by (auto simp: filter_id_conv)
  have sub: "set (take n (drop m ?h)) \<subseteq> set ?h" "set (take n ?h) \<subseteq> set ?h"
    "set (drop m ?h) \<subseteq> set ?h" for m n
    by (meson order.trans set_drop_subset set_take_subset)+
  have "?h = take 8 ?h @ take 4 (drop 8 ?h) @ take 4 (drop 12 ?h) @ take 4 (drop 16 ?h)
      @ drop 20 ?h"
    by (simp add: take_add [symmetric] drop_drop [symmetric] append_assoc [symmetric]
        del: append_assoc drop_drop)
  then show ?thesis by (simp add: str_uuid_def Let_def keep [OF sub(1)] keep [OF sub(2)] keep [OF sub(3)])
qed

lemma strip_braces_absent:
  assumes "CHR ''{'' \<notin> set s" "CHR ''}'' \<notin> set s"
  shows "strip_braces s = s"
proof -
  define brace where "brace = (\<lambda>c. c = CHR ''{'' \<or> c = CHR ''}'')"
  have drop: "dropWhile brace xs = xs" if "set xs = set s" for xs
    using assms that by (cases xs) (auto simp: brace_def)
  from drop [of s] drop [of "rev s"] show ?thesis
    by (simp add: strip_braces_def Let_def flip: brace_def)
qed

text \<open>Plain lowercase digits are read as they stand.\<close>

lemma hex_plain:
  "is_hex c \<Longrightarrow> is_hex (lower_char c) \<and> \<not> is_space c \<and> lower_char c \<noteq> CHR ''x'' \<and>
     c \<noteq> CHR ''_'' \<and> c \<noteq> CHR ''-'' \<and> c \<noteq> CHR ''+''"
  by (auto simp: is_hex_def lower_char_def is_space_def Let_def)

lemma hex_groups_plain: "s \<noteq> [] \<Longrightarrow> \<forall>c\<in>set s. is_hex c \<Longrightarrow> hex_groups s"
  by (induction s rule: hex_groups.induct) (auto dest: hex_plain)

lemma int_text16_plain:
  assumes "s \<noteq> []" "\<forall>c\<in>set s. is_hex c"
  shows "int_text16 s = Some (int (int_base16 s))"
proof -
  note h = hex_plain [OF bspec [OF assms(2)]]
  have blank: "dropWhile is_space xs = xs" if "set xs = set s" for xs
    using h that by (cases xs) auto
  have "strip s = s" using blank [of s] blank [of "rev s"] by (simp add: strip_def)
  moreover have "take_sign s = (False, s)" using h by (cases s) auto
  moreover have "drop_0x s = s" using h by (cases s rule: drop_0x.cases) auto
  moreover have "filter (\<lambda>c. c \<noteq> CHR ''_'') s = s" using h by (auto simp: filter_id_conv)
  ultimately show ?thesis using hex_groups_plain [OF assms] by (simp add: int_text16_def)
qed

text \<open>A UUID survives being written into a payload and read back.\<close>

lemma parse_str_uuid [simp]: "parse_uuid (str_uuid u) = Some u"
proof -
  have not_in: "c \<notin> set (str_uuid u)" if "\<not> is_hex c" "c \<noteq> CHR ''-''" for c
    using that str_uuid_chars by blast
  have "CHR ''u'' \<notin> set (str_uuid u)" by (rule not_in) (simp_all add: is_hex_def)
  then have "remove_all ''uuid:'' (remove_all ''urn:'' (str_uuid u)) = str_uuid u"
    by (simp add: remove_all_absent)
  moreover have "CHR ''{'' \<notin> set (str_uuid u)" "CHR ''}'' \<notin> set (str_uuid u)"
    by (rule not_in; simp add: is_hex_def)+
  then have "strip_braces (str_uuid u) = str_uuid u"
    by (rule strip_braces_absent)
  moreover have "int_text16 (hex 32 (unat u)) = Some (uint u)"
  proof -
    have "unat u < 16 ^ 32" using unsigned_less [of u] by simp
    moreover have "hex 32 (unat u) \<noteq> []" using length_hex [of 32 "unat u"] by (metis length_0_conv zero_neq_numeral)
    ultimately show ?thesis
      using int_text16_plain [of "hex 32 (unat u)"] hex_is_hex [of _ 32 "unat u"]
      by (simp add: int_base16_hex)
  qed
  moreover have "uint u < 2 ^ 128" using uint_lt2p [of u] by simp
  ultimately show ?thesis
    by (simp add: parse_uuid_def Let_def str_uuid_hyphens)
qed

section \<open>Dictionary access\<close>

text \<open>
  A JSON object is read into a \<open>dict\<close>, where the last of two equal keys wins. \<open>v.get(k, d)\<close> on
  anything else is an \<open>AttributeError\<close>, and \<open>v[k]\<close> with a text key a \<open>TypeError\<close>.
\<close>

definition json_get :: "(string \<times> json) list \<Rightarrow> string \<Rightarrow> json option" where
  "json_get obj k = dict_get (rev obj) k"

fun py_get :: "json \<Rightarrow> string \<Rightarrow> json \<Rightarrow> json result" where
  "py_get (JObject kvs) k d = Inr (case json_get kvs k of Some v \<Rightarrow> v | None \<Rightarrow> d)"
| "py_get _ k d = Inl (AttributeError ''get'')"

fun py_subscript :: "json \<Rightarrow> string \<Rightarrow> json result" where
  "py_subscript (JObject kvs) k = (case json_get kvs k of Some v \<Rightarrow> Inr v | None \<Rightarrow> Inl (KeyError k))"
| "py_subscript _ k = Inl (TypeError ''indices must be integers'')"

text \<open>\<open>bool(v)\<close>, and the items a \<open>for\<close> loop over \<open>v\<close> visits.\<close>

fun truthy :: "json \<Rightarrow> bool" where
  "truthy JNull = False"
| "truthy (JBool b) = b"
| "truthy (JNumber i) = (i \<noteq> 0)"
| "truthy (JString s) = (s \<noteq> [])"
| "truthy (JArray xs) = (xs \<noteq> [])"
| "truthy (JObject kvs) = (kvs \<noteq> [])"

fun py_iter :: "json \<Rightarrow> json list result" where
  "py_iter (JArray xs) = Inr xs"
| "py_iter (JString s) = Inr (map (\<lambda>c. JString [c]) s)"
| "py_iter (JObject kvs) = Inr (map JString (remdups (map fst kvs)))"
| "py_iter _ = Inl (TypeError ''object is not iterable'')"

text \<open>\<open>int(v)\<close>: a text may have blanks, a sign, and single underscores between its digits.\<close>

fun digit_groups :: "string \<Rightarrow> bool" where
  "digit_groups [] = False"
| "digit_groups [c] = is_digit c"
| "digit_groups (c # d # cs) =
     (is_digit c \<and> (if d = CHR ''_'' then digit_groups cs else digit_groups (d # cs)))"

fun py_int :: "json \<Rightarrow> int result" where
  "py_int (JNumber i) = Inr i"
| "py_int (JBool b) = Inr (if b then 1 else 0)"
| "py_int (JString s) =
     (case take_sign (strip s) of (neg, ds) \<Rightarrow>
        if digit_groups ds
        then let n = int (digits_value (filter (\<lambda>c. c \<noteq> CHR ''_'') ds)) in Inr (if neg then - n else n)
        else Inl (ValueError ''invalid literal for int()''))"
| "py_int _ = Inl (TypeError ''int() argument'')"

end
