(* ===== verification/Db_Session.thy ===== *)
theory Db_Session
  imports Order_State_Machine Domain_Decisions Py_Json
begin

text \<open>
  The persistence boundary. The rows of \<open>infrastructure/db/models\<close> are records, with the
  column defaults and constraints the models declare. SQLAlchemy's session and PostgreSQL
  are not part of the sources: a session is a record of operations, and the locale
  \<open>sql_session\<close> states what the repositories rely on (what a query sees, that only a commit
  makes changes durable, that a rollback forgets them, that a flush checks the constraints).
  \<open>mem_session\<close> is a session on in-memory tables that satisfies the locale, so the laws
  are consistent and the repositories can be run.
\<close>

section \<open>Rows\<close>

record order_record =
  or_id :: uuid
  or_account_id :: uuid
  or_signal_id :: uuid
  or_target_version :: int
  or_market :: string
  or_symbol :: string
  or_side :: order_side
  or_order_type :: order_type
  or_quantity :: dec
  or_limit_price :: "dec option"
  or_reference_price :: "dec option"
  or_stop_loss :: "dec option"
  or_take_profit :: "dec option"
  or_reduce_only :: bool
  or_tranche_ref :: "string option"
  or_currency :: string
  or_expires_at :: pydatetime
  or_idempotency_key :: string
  or_state :: order_state
  or_broker_order_id :: "string option"
  or_filled_quantity :: dec
  or_average_price :: "dec option"
  or_broker_request_id :: "string option"
  or_error_code :: "string option"
  or_risk_decision_id :: "uuid option"
  or_approval_id :: "uuid option"

text \<open>\<open>OrderIntentRecord.as_domain\<close> and \<open>as_broker_result\<close>.\<close>

definition as_domain :: "order_record \<Rightarrow> execution_intent result" where
  "as_domain r = ExecutionIntent
     \<lparr>ei_intent_id = or_id r, ei_account_id = or_account_id r, ei_signal_id = or_signal_id r,
      ei_target_version = or_target_version r, ei_market = or_market r, ei_symbol = or_symbol r,
      ei_side = or_side r, ei_order_type = or_order_type r, ei_quantity = or_quantity r,
      ei_limit_price = or_limit_price r, ei_reference_price = or_reference_price r,
      ei_stop_loss = or_stop_loss r, ei_take_profit = or_take_profit r,
      ei_reduce_only = or_reduce_only r, ei_tranche_ref = or_tranche_ref r,
      ei_currency = or_currency r, ei_expires_at = or_expires_at r,
      ei_idempotency_key = or_idempotency_key r\<rparr>"

definition as_broker_result :: "order_record \<Rightarrow> broker_result result" where
  "as_broker_result r = BrokerOrderResult
     \<lparr>br_client_order_id = or_idempotency_key r, br_broker_order_id = or_broker_order_id r,
      br_state = or_state r, br_filled_quantity = or_filled_quantity r,
      br_average_price = or_average_price r, br_broker_request_id = or_broker_request_id r,
      br_error_code = or_error_code r\<rparr>"

lemma as_domain_key: "as_domain r = Inr i \<Longrightarrow>
    ei_idempotency_key i = or_idempotency_key r \<and> ei_account_id i = or_account_id r \<and>
    ei_intent_id i = or_id r"
  by (auto simp: as_domain_def ExecutionIntent_iff in_utc_def)

lemma as_domain_contract: "as_domain r = Inr i \<Longrightarrow> intent_contract i"
  unfolding as_domain_def by (rule ExecutionIntent_contract)

text \<open>The constraints of the table \<open>order_intents\<close>: checks, NOT NULL, column lengths.\<close>

definition positive_or_null :: "dec option \<Rightarrow> bool" where
  "positive_or_null v = (case v of None \<Rightarrow> True | Some p \<Rightarrow> 0 < p)"

definition text_or_null :: "nat \<Rightarrow> string option \<Rightarrow> bool" where
  "text_or_null n v = (case v of None \<Rightarrow> True | Some s \<Rightarrow> length s \<le> n)"

definition order_row_ok :: "order_record \<Rightarrow> bool" where
  "order_row_ok r \<longleftrightarrow>
     0 < or_quantity r \<and> positive_or_null (or_limit_price r) \<and> 0 \<le> or_filled_quantity r \<and>
     positive_or_null (or_average_price r) \<and> positive_or_null (or_reference_price r) \<and>
     positive_or_null (or_stop_loss r) \<and> positive_or_null (or_take_profit r) \<and>
     or_risk_decision_id r \<noteq> None \<and> or_approval_id r \<noteq> None \<and>
     length (or_market r) \<le> 16 \<and> length (or_symbol r) \<le> 32 \<and> length (or_currency r) \<le> 8 \<and>
     length (or_idempotency_key r) \<le> 64 \<and>
     - (2 ^ 31) \<le> or_target_version r \<and> or_target_version r < 2 ^ 31 \<and>
     text_or_null 16 (or_tranche_ref r) \<and> text_or_null 128 (or_broker_order_id r) \<and>
     text_or_null 128 (or_broker_request_id r) \<and> text_or_null 128 (or_error_code r)"

datatype audit_payload =
    RiskSnapshot risk_decision
  | ApprovalSnapshot approval_decision
  | RejectionSnapshot uuid risk_decision

record audit_record =
  au_id :: uuid
  au_event_type :: string
  au_actor_id :: "uuid option"
  au_trace_id :: uuid
  au_payload :: audit_payload

text \<open>
  \<open>created_at\<close> of an audit row is filled by the database and read by nothing; it is left out.
  \<open>created_at\<close> of an outbox row (in microseconds) is filled by the database when a row is added
  (\<open>server_default=func.now()\<close>); the value it has before is never read.
\<close>

record outbox_record =
  ob_id :: uuid
  ob_topic :: string
  ob_message_key :: string
  ob_payload :: json
  ob_created_at :: int
  ob_published_at :: "pydatetime option"

record db =
  db_orders :: "order_record list"
  db_audits :: "audit_record list"
  db_outbox :: "outbox_record list"

definition empty_db :: db where
  "empty_db = \<lparr>db_orders = [], db_audits = [], db_outbox = []\<rparr>"

definition find_order :: "uuid \<Rightarrow> db \<Rightarrow> order_record option" where
  "find_order i d = find (\<lambda>r. or_id r = i) (db_orders d)"

definition find_outbox :: "uuid \<Rightarrow> db \<Rightarrow> outbox_record option" where
  "find_outbox i d = find (\<lambda>r. ob_id r = i) (db_outbox d)"

definition put_order :: "order_record \<Rightarrow> db \<Rightarrow> db" where
  "put_order r d = d\<lparr>db_orders := map (\<lambda>x. if or_id x = or_id r then r else x) (db_orders d)\<rparr>"

definition put_outbox :: "outbox_record \<Rightarrow> db \<Rightarrow> db" where
  "put_outbox r d = d\<lparr>db_outbox := map (\<lambda>x. if ob_id x = ob_id r then r else x) (db_outbox d)\<rparr>"

text \<open>
  Unpublished rows of a topic in the order of \<open>created_at\<close>. The query leaves the order of rows with
  one timestamp open; here they come in the order of their insertion.
\<close>

definition unpublished :: "string option \<Rightarrow> db \<Rightarrow> outbox_record list" where
  "unpublished topic d =
     sort_key ob_created_at
       (filter (\<lambda>r. ob_published_at r = None \<and> (case topic of None \<Rightarrow> True | Some t \<Rightarrow> ob_topic r = t))
          (db_outbox d))"

definition unique_by :: "('a \<Rightarrow> 'b) \<Rightarrow> 'a list \<Rightarrow> bool" where
  "unique_by key xs \<longleftrightarrow> distinct (map key xs)"

definition constraints_ok :: "db \<Rightarrow> bool" where
  "constraints_ok d \<longleftrightarrow>
     list_all order_row_ok (db_orders d) \<and>
     unique_by or_id (db_orders d) \<and> unique_by or_idempotency_key (db_orders d) \<and>
     unique_by au_id (db_audits d) \<and> unique_by ob_id (db_outbox d)"

lemma find_order_Some: "find_order i d = Some r \<Longrightarrow> or_id r = i \<and> r \<in> set (db_orders d)"
  by (auto simp: find_order_def find_Some_iff)

lemma find_order_put [simp]:
  "find_order i (put_order r d) =
     (if i = or_id r then (case find_order i d of None \<Rightarrow> None | Some _ \<Rightarrow> Some r)
      else find_order i d)"
proof -
  have "find (\<lambda>x. or_id x = i) (map (\<lambda>x. if or_id x = or_id r then r else x) xs) =
      (if i = or_id r then (case find (\<lambda>x. or_id x = i) xs of None \<Rightarrow> None | Some _ \<Rightarrow> Some r)
       else find (\<lambda>x. or_id x = i) xs)" for xs
    by (induction xs) auto
  then show ?thesis by (simp add: find_order_def put_order_def)
qed

lemma put_order_frame [simp]:
  "db_audits (put_order r d) = db_audits d" "db_outbox (put_order r d) = db_outbox d"
  by (simp_all add: put_order_def)

lemma put_outbox_frame [simp]:
  "db_orders (put_outbox r d) = db_orders d" "db_audits (put_outbox r d) = db_audits d"
  "find_order i (put_outbox r d) = find_order i d"
  by (simp_all add: put_outbox_def find_order_def)

section \<open>The session interface\<close>

record 's session_ops =
  ss_add_order :: "order_record \<Rightarrow> 's \<Rightarrow> 's"
  ss_add_audit :: "audit_record \<Rightarrow> 's \<Rightarrow> 's"
  ss_add_outbox :: "outbox_record \<Rightarrow> 's \<Rightarrow> 's"
  ss_write_order :: "order_record \<Rightarrow> 's \<Rightarrow> 's"
  ss_write_outbox :: "outbox_record \<Rightarrow> 's \<Rightarrow> 's"
  ss_select_order :: "uuid \<Rightarrow> (order_record option, 's) io"
  ss_select_unpublished :: "nat \<Rightarrow> string option \<Rightarrow> (outbox_record list, 's) io"
  ss_get_outbox :: "uuid \<Rightarrow> (outbox_record option, 's) io"
  ss_flush :: "(unit, 's) io"
  ss_commit :: "(unit, 's) io"
  ss_rollback :: "(unit, 's) io"

text \<open>
  \<open>live\<close> is the database as the session's transaction sees it, \<open>durable\<close> the committed
  database. Of an operation that raises, the laws say that the exception is one of the database
  layer (an \<open>IntegrityError\<close>, another database failure, a timeout, a cancellation), not one of
  the application's own. Only a commit makes changes durable. When a commit raises (the connection
  may be lost, or the caller cancelled, after the server has committed), its outcome is open, but a
  transaction is atomic: everything the transaction wrote is durable, or nothing of it.
\<close>

fun database_error :: "exn \<Rightarrow> bool" where
  "database_error (IntegrityError _ _) = True"
| "database_error (RuntimeError _) = True"
| "database_error (TimeoutError _) = True"
| "database_error CancelledError = True"
| "database_error _ = False"

lemma database_error_kind:
  "database_error e \<Longrightarrow> \<not> is_value_error e \<and> \<not> is_lookup_error e \<and> \<not> is_permission_error e"
  by (cases e) auto

locale sql_session =
  fixes S :: "'s session_ops"
    and live :: "'s \<Rightarrow> db"
    and durable :: "'s \<Rightarrow> db"
  assumes live_add_order: "live (ss_add_order S r s) = (live s)\<lparr>db_orders := db_orders (live s) @ [r]\<rparr>"
    and live_add_audit: "live (ss_add_audit S a s) = (live s)\<lparr>db_audits := db_audits (live s) @ [a]\<rparr>"
    and live_add_outbox: "\<exists>now. live (ss_add_outbox S e s) =
      (live s)\<lparr>db_outbox := db_outbox (live s) @ [e\<lparr>ob_created_at := now\<rparr>]\<rparr>"
    and live_write_order: "live (ss_write_order S r s) = put_order r (live s)"
    and live_write_outbox: "live (ss_write_outbox S e s) = put_outbox e (live s)"
    and durable_pending [simp]:
      "durable (ss_add_order S r s) = durable s" "durable (ss_add_audit S a s) = durable s"
      "durable (ss_add_outbox S e s) = durable s" "durable (ss_write_order S r s) = durable s"
      "durable (ss_write_outbox S e s) = durable s"
    and durable_select_order: "ss_select_order S i s = (x, s') \<Longrightarrow> durable s' = durable s"
    and durable_select_unpublished:
      "ss_select_unpublished S n t s = (y, s') \<Longrightarrow> durable s' = durable s"
    and durable_get_outbox: "ss_get_outbox S i s = (z, s') \<Longrightarrow> durable s' = durable s"
    and durable_flush: "ss_flush S s = (u, s') \<Longrightarrow> durable s' = durable s"
    and durable_rollback: "ss_rollback S s = (u, s') \<Longrightarrow> durable s' = durable s"
    and select_order:
      "ss_select_order S i s = (Inr o1, s') \<Longrightarrow> o1 = find_order i (live s) \<and> live s' = live s"
    and select_unpublished:
      "ss_select_unpublished S n t s = (Inr es, s') \<Longrightarrow>
         es = take n (unpublished t (live s)) \<and> live s' = live s"
    and get_outbox:
      "ss_get_outbox S i s = (Inr o2, s') \<Longrightarrow> o2 = find_outbox i (live s) \<and> live s' = live s"
    and flush: "ss_flush S s = (Inr (), s') \<Longrightarrow> constraints_ok (live s) \<and> live s' = live s"
    and commit: "ss_commit S s = (Inr (), s') \<Longrightarrow> durable s' = live s \<and> live s' = live s"
    and commit_atomic: "ss_commit S s = (Inl ex, s') \<Longrightarrow> durable s' = durable s \<or> durable s' = live s"
    and select_order_error: "ss_select_order S i s = (Inl ex, s') \<Longrightarrow> database_error ex"
    and select_unpublished_error: "ss_select_unpublished S n t s = (Inl ex, s') \<Longrightarrow> database_error ex"
    and get_outbox_error: "ss_get_outbox S i s = (Inl ex, s') \<Longrightarrow> database_error ex"
    and flush_error: "ss_flush S s = (Inl ex, s') \<Longrightarrow> database_error ex"
    and commit_error: "ss_commit S s = (Inl ex, s') \<Longrightarrow> database_error ex"
    and rollback_error: "ss_rollback S s = (Inl ex, s') \<Longrightarrow> database_error ex"
    and rollback: "ss_rollback S s = (Inr (), s') \<Longrightarrow> live s' = durable s"
begin

lemmas durables = durable_select_order durable_select_unpublished durable_get_outbox durable_flush
  durable_rollback

lemmas lives = live_add_order live_add_audit live_write_order live_write_outbox

end

section \<open>In-memory tables\<close>

text \<open>The state is the pair of the transaction's view and the committed tables.\<close>

definition mem_flush :: "(unit, db \<times> db) io" where
  "mem_flush s =
     (if constraints_ok (fst s) then (Inr (), s)
      else if \<not> unique_by or_idempotency_key (db_orders (fst s)) then
        (Inl (IntegrityError ''23505'' ''uq_order_intent_idempotency''), (snd s, snd s))
      else (Inl (IntegrityError ''23514'' ''constraint''), (snd s, snd s)))"

definition stamped :: "db \<Rightarrow> outbox_record \<Rightarrow> outbox_record" where
  "stamped d e = e\<lparr>ob_created_at := int (length (db_outbox d))\<rparr>"

definition mem_session :: "(db \<times> db) session_ops" where
  "mem_session = \<lparr>
     ss_add_order = (\<lambda>r (l, d). (l\<lparr>db_orders := db_orders l @ [r]\<rparr>, d)),
     ss_add_audit = (\<lambda>a (l, d). (l\<lparr>db_audits := db_audits l @ [a]\<rparr>, d)),
     ss_add_outbox = (\<lambda>e (l, d). (l\<lparr>db_outbox := db_outbox l @ [stamped l e]\<rparr>, d)),
     ss_write_order = (\<lambda>r (l, d). (put_order r l, d)),
     ss_write_outbox = (\<lambda>e (l, d). (put_outbox e l, d)),
     ss_select_order = (\<lambda>i s. (Inr (find_order i (fst s)), s)),
     ss_select_unpublished = (\<lambda>n t s. (Inr (take n (unpublished t (fst s))), s)),
     ss_get_outbox = (\<lambda>i s. (Inr (find_outbox i (fst s)), s)),
     ss_flush = mem_flush,
     ss_commit = (\<lambda>s. case mem_flush s of
        (Inl e, s') \<Rightarrow> (Inl e, s')
      | (Inr _, s') \<Rightarrow> (Inr (), (fst s', fst s'))),
     ss_rollback = (\<lambda>s. (Inr (), (snd s, snd s)))\<rparr>"

interpretation mem: sql_session mem_session fst snd
  by unfold_locales
    (auto simp: mem_session_def mem_flush_def stamped_def split: prod.splits if_splits)

text \<open>The same tables behind a connection that is lost whenever a commit is answered.\<close>

definition cut_session :: "(db \<times> db) session_ops" where
  "cut_session = mem_session\<lparr>ss_commit := (\<lambda>s. case mem_flush s of
        (Inl e, s') \<Rightarrow> (Inl e, s')
      | (Inr _, s') \<Rightarrow> (Inl (RuntimeError ''connection lost''), (fst s', fst s')))\<rparr>"

interpretation cut: sql_session cut_session fst snd
  by unfold_locales
    (auto simp: cut_session_def mem_session_def mem_flush_def stamped_def split: prod.splits if_splits)

end
