(* ===== verification/Order_Repository.thy ===== *)
theory Order_Repository
  imports Db_Session
begin

text \<open>
  \<open>infrastructure/db/repositories/orders.py\<close> and \<open>outbox.py\<close>: the repositories as
  operations on a session \<open>S\<close>. Generated identifiers and the clock are arguments. The
  lemmas that need the session's laws are proved in the locale \<open>sql_session\<close>.
\<close>

section \<open>OrderRepository\<close>

text \<open>
  The row \<open>create_with_outbox\<close> builds: it names fifteen columns, every other column has
  its default (\<open>LIMIT\<close>, no reference price, no stop loss, no take profit, not reduce-only,
  no tranche).
\<close>

definition new_order_record ::
  "execution_intent \<Rightarrow> order_state \<Rightarrow> uuid \<Rightarrow> uuid \<Rightarrow> order_record" where
  "new_order_record i state risk_decision_id approval_id =
     \<lparr>or_id = ei_intent_id i, or_account_id = ei_account_id i, or_signal_id = ei_signal_id i,
      or_target_version = ei_target_version i, or_market = ei_market i, or_symbol = ei_symbol i,
      or_side = ei_side i, or_order_type = LIMIT, or_quantity = ei_quantity i,
      or_limit_price = ei_limit_price i, or_reference_price = None, or_stop_loss = None,
      or_take_profit = None, or_reduce_only = False, or_tranche_ref = None,
      or_currency = ei_currency i, or_expires_at = ei_expires_at i,
      or_idempotency_key = ei_idempotency_key i, or_state = state, or_broker_order_id = None,
      or_filled_quantity = 0, or_average_price = None, or_broker_request_id = None,
      or_error_code = None, or_risk_decision_id = Some risk_decision_id,
      or_approval_id = Some approval_id\<rparr>"

definition intent_ready_event :: "uuid \<Rightarrow> execution_intent \<Rightarrow> outbox_record" where
  "intent_ready_event event_id i =
     \<lparr>ob_id = event_id, ob_topic = ''execution.intent.ready'', ob_message_key = ei_idempotency_key i,
      ob_payload = JObject [(''intent_id'', JString (str_uuid (ei_intent_id i))),
                            (''account_id'', JString (str_uuid (ei_account_id i)))],
      ob_created_at = 0, ob_published_at = None\<rparr>"

definition create_with_outbox ::
  "'s session_ops \<Rightarrow> uuid \<Rightarrow> execution_intent \<Rightarrow> order_state \<Rightarrow> uuid \<Rightarrow> uuid \<Rightarrow>
     risk_decision \<Rightarrow> approval_decision \<Rightarrow> (uuid, 's) io" where
  "create_with_outbox S event_id i state risk_decision_id approval_id risk_snapshot approval_snapshot =
     io_bind (io_do (ss_add_order S (new_order_record i state risk_decision_id approval_id))) (\<lambda>_.
     io_bind (io_do (ss_add_audit S
       \<lparr>au_id = risk_decision_id, au_event_type = ''RISK_DECIDED'', au_actor_id = None,
        au_trace_id = ei_signal_id i, au_payload = RiskSnapshot risk_snapshot\<rparr>)) (\<lambda>_.
     io_bind (io_do (ss_add_audit S
       \<lparr>au_id = approval_id, au_event_type = ''APPROVAL_DECIDED'', au_actor_id = None,
        au_trace_id = ei_signal_id i, au_payload = ApprovalSnapshot approval_snapshot\<rparr>)) (\<lambda>_.
     io_bind (if state = QUEUED then io_do (ss_add_outbox S (intent_ready_event event_id i))
              else io_ret ()) (\<lambda>_.
     io_bind (ss_flush S) (\<lambda>_. io_ret (ei_intent_id i))))))"

definition record_risk_rejection ::
  "'s session_ops \<Rightarrow> uuid \<Rightarrow> uuid \<Rightarrow> risk_decision \<Rightarrow> (unit, 's) io" where
  "record_risk_rejection S account_id signal_id decision =
     io_bind (io_do (ss_add_audit S
       \<lparr>au_id = rd_decision_id decision, au_event_type = ''RISK_REJECTED'', au_actor_id = None,
        au_trace_id = signal_id, au_payload = RejectionSnapshot account_id decision\<rparr>))
       (\<lambda>_. ss_flush S)"

definition get_order :: "'s session_ops \<Rightarrow> uuid \<Rightarrow> (order_record option, 's) io" where
  "get_order S order_id = ss_select_order S order_id"

definition lock_for_execution :: "'s session_ops \<Rightarrow> uuid \<Rightarrow> (order_record, 's) io" where
  "lock_for_execution S intent_id =
     io_bind (ss_select_order S intent_id) (\<lambda>found.
       case found of
         None \<Rightarrow> io_raise (LookupError (str_uuid intent_id))
       | Some record \<Rightarrow> io_ret record)"

definition write_result :: "broker_result \<Rightarrow> order_record \<Rightarrow> order_record" where
  "write_result result record = record
     \<lparr>or_broker_order_id := br_broker_order_id result,
      or_filled_quantity := br_filled_quantity result,
      or_average_price := br_average_price result,
      or_broker_request_id := br_broker_request_id result,
      or_error_code := br_error_code result\<rparr>"

definition save_broker_result_body ::
  "'s session_ops \<Rightarrow> uuid \<Rightarrow> broker_result \<Rightarrow> (unit, 's) io" where
  "save_broker_result_body S intent_id result =
     io_bind (lock_for_execution S intent_id) (\<lambda>record.
     if br_client_order_id result \<noteq> or_idempotency_key record then
       io_raise (ValueError ''broker result client order ID does not match stored idempotency key'')
     else
     io_bind
       (if or_state record = QUEUED \<and> br_state result \<in> {PARTIALLY_FILLED, FILLED, CANCELED} then
          io_bind (io_lift (transition (or_state record) SUBMITTED)) (\<lambda>t.
          io_bind (io_do (ss_write_order S (record\<lparr>or_state := t\<rparr>))) (\<lambda>_.
          io_ret (record\<lparr>or_state := t\<rparr>)))
        else io_ret record) (\<lambda>record1.
     io_bind (io_lift (transition (or_state record1) (br_state result))) (\<lambda>t.
     io_bind (io_do (ss_write_order S (write_result result (record1\<lparr>or_state := t\<rparr>)))) (\<lambda>_.
     io_bind (ss_flush S) (\<lambda>_. ss_commit S)))))"

definition save_broker_result ::
  "'s session_ops \<Rightarrow> uuid \<Rightarrow> broker_result \<Rightarrow> (unit, 's) io" where
  "save_broker_result S intent_id result =
     io_catch (save_broker_result_body S intent_id result) (\<lambda>e.
       if is_exception e then io_bind (ss_rollback S) (\<lambda>_. io_raise e) else io_raise e)"

definition release_execution_lock :: "'s session_ops \<Rightarrow> (unit, 's) io" where
  "release_execution_lock S = ss_rollback S"

definition count_orders :: "db \<Rightarrow> nat" where
  "count_orders d = length (db_orders d)"

definition count_unpublished_outbox :: "db \<Rightarrow> nat" where
  "count_unpublished_outbox d = length (filter (\<lambda>r. ob_published_at r = None) (db_outbox d))"

definition count_audit_events :: "db \<Rightarrow> nat" where
  "count_audit_events d = length (db_audits d)"

section \<open>OutboxRepository\<close>

record outbox_event =
  ev_id :: string
  ev_topic :: string
  ev_message_key :: string
  ev_payload :: json

definition event_of :: "outbox_record \<Rightarrow> outbox_event" where
  "event_of r = \<lparr>ev_id = str_uuid (ob_id r), ev_topic = ob_topic r,
                 ev_message_key = ob_message_key r, ev_payload = ob_payload r\<rparr>"

definition claim :: "'s session_ops \<Rightarrow> nat \<Rightarrow> string option \<Rightarrow> (outbox_event list, 's) io" where
  "claim S limit topic =
     io_bind (ss_select_unpublished S limit topic) (\<lambda>records. io_ret (map event_of records))"

definition mark_published_body :: "'s session_ops \<Rightarrow> pydatetime \<Rightarrow> string \<Rightarrow> (unit, 's) io" where
  "mark_published_body S now event_id =
     (case parse_uuid event_id of
        None \<Rightarrow> io_raise (ValueError ''badly formed hexadecimal UUID string'')
      | Some u \<Rightarrow>
          io_bind (ss_get_outbox S u) (\<lambda>found.
            case found of
              None \<Rightarrow> io_raise (LookupError event_id)
            | Some record \<Rightarrow>
                io_bind (io_do (ss_write_outbox S (record\<lparr>ob_published_at := Some now\<rparr>))) (\<lambda>_.
                io_bind (ss_flush S) (\<lambda>_. ss_commit S))))"

definition mark_published :: "'s session_ops \<Rightarrow> pydatetime \<Rightarrow> string \<Rightarrow> (unit, 's) io" where
  "mark_published S now event_id =
     io_catch (mark_published_body S now event_id)
       (\<lambda>e. io_bind (ss_rollback S) (\<lambda>_. io_raise e))"

definition outbox_rollback :: "'s session_ops \<Rightarrow> (unit, 's) io" where
  "outbox_rollback S = ss_rollback S"

declare create_with_outbox_def [op_defs] record_risk_rejection_def [op_defs] get_order_def [op_defs]
  lock_for_execution_def [op_defs] save_broker_result_body_def [op_defs]
  save_broker_result_def [op_defs] release_execution_lock_def [op_defs]
  claim_def [op_defs] mark_published_body_def [op_defs] mark_published_def [op_defs]
  outbox_rollback_def [op_defs]

section \<open>Facts on rows\<close>

lemma put_order_twice [simp]:
  "or_id r = or_id q \<Longrightarrow> put_order r (put_order q d) = put_order r d"
  by (auto simp: put_order_def intro!: arg_cong [of _ _ "\<lambda>x. db_orders_update x d"])

lemma write_result_simps [simp]:
  "or_id (write_result res r) = or_id r" "or_state (write_result res r) = or_state r"
  "or_idempotency_key (write_result res r) = or_idempotency_key r"
  "or_risk_decision_id (write_result res r) = or_risk_decision_id r"
  "or_approval_id (write_result res r) = or_approval_id r"
  by (simp_all add: write_result_def)

text \<open>
  The state a result moves a queued or broker-side order to is always the reported one; a
  queued order passes through \<open>SUBMITTED\<close> first when the report is a later state.
\<close>

definition apply_result :: "broker_result \<Rightarrow> order_record \<Rightarrow> order_record" where
  "apply_result res r = write_result res (r\<lparr>or_state := br_state res\<rparr>)"

lemma apply_result_simps [simp]:
  "or_id (apply_result res r) = or_id r" "or_state (apply_result res r) = br_state res"
  "or_idempotency_key (apply_result res r) = or_idempotency_key r"
  "or_risk_decision_id (apply_result res r) = or_risk_decision_id r"
  "or_approval_id (apply_result res r) = or_approval_id r"
  by (simp_all add: apply_result_def)

definition reportable :: "order_state \<Rightarrow> order_state \<Rightarrow> bool" where
  "reportable s t \<longleftrightarrow> t \<in> set (ALLOWED s) \<or> (s = QUEUED \<and> t \<in> {PARTIALLY_FILLED, FILLED, CANCELED})"

lemma reportable_steps: "reportable s t \<Longrightarrow> order_step\<^sup>+\<^sup>+ s t"
proof -
  assume r: "reportable s t"
  have "order_step\<^sup>+\<^sup>+ QUEUED t" if "t \<in> set (ALLOWED SUBMITTED)"
    using that by (intro tranclp.trancl_into_trancl [OF tranclp.r_into_trancl, of _ _ SUBMITTED])
      (simp_all add: order_step_allowed)
  then show ?thesis using r by (auto simp: reportable_def order_step_allowed)
qed

section \<open>What the repositories do to a session\<close>

context sql_session
begin

abbreviation untouched :: "db \<Rightarrow> 's \<Rightarrow> bool" where
  "untouched d s \<equiv> durable s = d"

lemma keeps_durable [intro]:
  "keeps (untouched d) (ss_select_order S i)" "keeps (untouched d) (ss_select_unpublished S n t)"
  "keeps (untouched d) (ss_get_outbox S i)" "keeps (untouched d) (ss_flush S)"
  "keeps (untouched d) (ss_rollback S)"
  by (rule keepsI, erule (1) durables [THEN trans])+

lemma keeps_lock [intro]: "keeps (untouched d) (lock_for_execution S i)"
  unfolding lock_for_execution_def by (intro keeps_rules keeps_durable) (auto intro: keeps_pure split: option.split)

lemma keeps_create: "keeps (untouched d) (create_with_outbox S ev i st r a rs as)"
  unfolding create_with_outbox_def
  by (auto intro!: keeps_bind keeps_do keeps_pure keeps_durable)

lemma keeps_rejection: "keeps (untouched d) (record_risk_rejection S a g dec)"
  unfolding record_risk_rejection_def by (auto intro!: keeps_bind keeps_do keeps_durable)

lemma keeps_claim: "keeps (untouched d) (claim S n t)"
  unfolding claim_def by (auto intro!: keeps_bind keeps_pure keeps_durable)

lemma lock_ok:
  assumes "lock_for_execution S i s = (Inr r, s')"
  shows "find_order i (live s) = Some r \<and> live s' = live s \<and> durable s' = durable s"
proof -
  have sel: "ss_select_order S i s = (Inr (Some r), s')"
    using assms
    by (auto simp: lock_for_execution_def io_bind_Inr_iff io_raise_def io_ret_def split: option.splits)
  show ?thesis using select_order [OF sel] durable_select_order [OF sel] by simp
qed

lemma lock_error:
  assumes "lock_for_execution S i s = (Inl e, s')"
  shows "database_error e \<or> (e = LookupError (str_uuid i) \<and> find_order i (live s) = None)"
  using assms
  by (auto simp: lock_for_execution_def io_defs dest!: select_order select_order_error
      split: option.splits prod.splits sum.splits)

lemma create_ok:
  assumes "create_with_outbox S ev i st r a rs as s = (Inr u, s')"
  shows "u = ei_intent_id i"
    and "db_orders (live s') = db_orders (live s) @ [new_order_record i st r a]"
    and "\<exists>now. db_outbox (live s') = db_outbox (live s) @
           (if st = QUEUED then [(intent_ready_event ev i)\<lparr>ob_created_at := now\<rparr>] else [])"
    and "map au_id (db_audits (live s')) = map au_id (db_audits (live s)) @ [r, a]"
    and "constraints_ok (live s')"
proof -
  obtain now where added: "live (ss_add_outbox S (intent_ready_event ev i) s2) = (live s2)
      \<lparr>db_outbox := db_outbox (live s2) @ [(intent_ready_event ev i)\<lparr>ob_created_at := now s2\<rparr>]\<rparr>" for s2
    using live_add_outbox by metis
  note run = assms [unfolded create_with_outbox_def io_defs]
  show "u = ei_intent_id i" "db_orders (live s') = db_orders (live s) @ [new_order_record i st r a]"
    "map au_id (db_audits (live s')) = map au_id (db_audits (live s)) @ [r, a]" "constraints_ok (live s')"
    using run by (auto simp: lives added split: prod.splits sum.splits if_splits dest!: flush)
  show "\<exists>now. db_outbox (live s') = db_outbox (live s) @
      (if st = QUEUED then [(intent_ready_event ev i)\<lparr>ob_created_at := now\<rparr>] else [])"
    using run by (auto simp: lives added split: prod.splits sum.splits if_splits dest!: flush)
qed

lemma claim_ok:
  assumes "claim S n t s = (Inr es, s')"
  shows "es = map event_of (take n (unpublished t (live s)))" "live s' = live s"
  using assms by (auto simp: claim_def io_bind_Inr_iff io_ret_def dest!: select_unpublished)

lemma flush_commit_ok:
  assumes "io_bind (ss_flush S) (\<lambda>_. ss_commit S) s = (Inr (), s')"
  shows "constraints_ok (live s)" "durable s' = live s" "live s' = live s"
  using assms by (auto simp: io_bind_Inr_iff dest!: flush commit)

text \<open>When the flush and the commit raise, the transaction is durable as a whole or not at all.\<close>

lemma flush_commit_failed:
  assumes "io_bind (ss_flush S) (\<lambda>_. ss_commit S) s = (Inl e, s')"
  shows "database_error e \<and> (durable s' = durable s \<or> durable s' = live s)"
proof -
  obtain y s1 where f: "ss_flush S s = (y, s1)" by fastforce
  show ?thesis
  proof (cases y)
    case (Inl ex)
    then show ?thesis using assms f flush_error [of s ex s1] durable_flush [OF f]
      by (simp add: io_bind_def)
  next
    case (Inr u)
    then have c: "ss_commit S s1 = (Inl e, s')" using assms f by (simp add: io_bind_def)
    show ?thesis using commit_error [OF c] commit_atomic [OF c] flush [of s s1] durable_flush [OF f] f Inr
      by simp
  qed
qed

lemma rollback_raise_Inl:
  assumes "io_bind (ss_rollback S) (\<lambda>_. io_raise e) s = (Inl e', s')"
  shows "durable s' = durable s \<and> (e' = e \<or> database_error e')"
proof -
  obtain y s1 where "ss_rollback S s = (y, s1)" by fastforce
  then show ?thesis using assms durable_rollback [of s y s1] rollback_error [of s _ s1]
    by (auto simp: io_bind_def io_raise_def split: sum.splits)
qed

lemma rollback_raise_Inr: "io_bind (ss_rollback S) (\<lambda>_. io_raise e) s \<noteq> (Inr x, s')"
  by (simp add: io_bind_Inr_iff io_raise_def)

text \<open>
  The body of \<open>save_broker_result\<close> either raises before anything can become durable, or reaches
  the flush and the commit with the outcome written to the row.
\<close>

definition recordable :: "uuid \<Rightarrow> broker_result \<Rightarrow> 's \<Rightarrow> order_record \<Rightarrow> bool" where
  "recordable i res s r \<longleftrightarrow> find_order i (live s) = Some r \<and>
     br_client_order_id res = or_idempotency_key r \<and> reportable (or_state r) (br_state res)"

lemma save_body_cases:
  assumes run: "save_broker_result_body S i res s = (y, s')"
  obtains (refused) e where "y = Inl e" "durable s' = durable s"
      "\<And>r. recordable i res s r \<Longrightarrow> database_error e"
  | (written) r s2 where "recordable i res s r" "live s2 = put_order (apply_result res r) (live s)"
      "durable s2 = durable s" "io_bind (ss_flush S) (\<lambda>_. ss_commit S) s2 = (y, s')"
proof -
  obtain l s0 where L: "lock_for_execution S i s = (l, s0)" by fastforce
  note d0 = keepsD [OF keeps_lock refl L]
  show thesis
  proof (cases l)
    case (Inl e)
    then show thesis using run L d0 lock_error [of i s e s0]
      by (intro refused) (auto simp: save_broker_result_body_def io_bind_def recordable_def)
  next
    case (Inr r)
    note lk = lock_ok [OF L [unfolded Inr]] and step = io_bind_run [of "lock_for_execution S i", OF L [unfolded Inr]]
    consider (stranger) "br_client_order_id res \<noteq> or_idempotency_key r"
      | (twice) "br_client_order_id res = or_idempotency_key r" "or_state r = QUEUED"
          "br_state res \<in> {PARTIALLY_FILLED, FILLED, CANCELED}"
      | (once) "br_client_order_id res = or_idempotency_key r"
          "\<not> (or_state r = QUEUED \<and> br_state res \<in> {PARTIALLY_FILLED, FILLED, CANCELED})"
          "br_state res \<in> set (ALLOWED (or_state r))"
      | (forbidden) "br_client_order_id res = or_idempotency_key r"
          "\<not> (or_state r = QUEUED \<and> br_state res \<in> {PARTIALLY_FILLED, FILLED, CANCELED})"
          "br_state res \<notin> set (ALLOWED (or_state r))"
      by blast
    then show thesis
    proof cases
      case stranger
      then show thesis using run d0 lk
        by (intro refused) (auto simp: save_broker_result_body_def step io_raise_def recordable_def)
    next
      case twice
      then have t: "transition QUEUED SUBMITTED = Inr SUBMITTED"
        "transition SUBMITTED (br_state res) = Inr (br_state res)" by auto
      have "io_bind (ss_flush S) (\<lambda>_. ss_commit S) (ss_write_order S (apply_result res r)
          (ss_write_order S (r\<lparr>or_state := SUBMITTED\<rparr>) s0)) = (y, s')"
        using run twice
        by (simp add: save_broker_result_body_def step io_bind_assoc del: transition_Inr)
          (simp add: io_steps apply_result_def t del: transition_Inr)
      then show thesis using twice lk d0
        by (intro written [of r]) (auto simp: reportable_def lives recordable_def)
    next
      case once
      then have ok: "transition (or_state r) (br_state res) = Inr (br_state res)" by auto
      have "io_bind (ss_flush S) (\<lambda>_. ss_commit S) (ss_write_order S (apply_result res r) s0) = (y, s')"
        using run once(1,2)
        by (auto simp: save_broker_result_body_def step io_steps io_bind_assoc apply_result_def ok
            simp del: transition_Inr)
      then show thesis using once lk d0
        by (intro written [of r]) (auto simp: reportable_def lives recordable_def)
    next
      case forbidden
      then obtain ex where "transition (or_state r) (br_state res) = Inl ex"
        by (cases "transition (or_state r) (br_state res)") auto
      then have "y = Inl ex" "s' = s0" using run forbidden(1,2)
        by (auto simp: save_broker_result_body_def step io_steps io_raise_def simp del: transition_Inr)
      then show thesis using forbidden lk d0
        by (intro refused) (auto simp: recordable_def reportable_def)
    qed
  qed
qed

text \<open>Of a save that raises: nothing is durable, or the whole outcome is.\<close>

lemma save_failed:
  assumes "save_broker_result S i res s = (Inl e, s')"
  shows "durable s' = durable s \<or> (\<exists>r. recordable i res s r \<and> database_error e \<and>
      durable s' = put_order (apply_result res r) (live s))"
    and "\<And>r. recordable i res s r \<Longrightarrow> database_error e"
proof -
  obtain y s1 where b: "save_broker_result_body S i res s = (y, s1)" by fastforce
  then obtain e0 where e0: "y = Inl e0"
    using assms by (cases y) (auto simp: save_broker_result_def io_catch_def)
  then have out: "durable s' = durable s1 \<and> (e = e0 \<or> database_error e)"
    using assms b rollback_raise_Inl [of e0 s1 e s']
    by (auto simp: save_broker_result_def io_catch_def io_raise_def split: if_splits)
  from b have "(durable s1 = durable s \<or> (\<exists>r. recordable i res s r \<and> database_error e0 \<and>
      durable s1 = put_order (apply_result res r) (live s))) \<and>
      (\<forall>r. recordable i res s r \<longrightarrow> database_error e0)"
  proof (cases rule: save_body_cases)
    case refused
    then show ?thesis using e0 by auto
  next
    case (written r s2)
    note fc = flush_commit_failed [OF written(4) [unfolded e0]]
    then show ?thesis using written(1-3) by auto
  qed
  then show "durable s' = durable s \<or> (\<exists>r. recordable i res s r \<and> database_error e \<and>
      durable s' = put_order (apply_result res r) (live s))"
    and "\<And>r. recordable i res s r \<Longrightarrow> database_error e" using out by auto
qed

lemma save_ok:
  assumes "save_broker_result S i res s = (Inr (), s')"
  shows "\<exists>r. recordable i res s r \<and> durable s' = put_order (apply_result res r) (live s) \<and>
    live s' = durable s' \<and> constraints_ok (durable s')"
proof -
  have "save_broker_result_body S i res s = (Inr (), s')"
    using assms
    by (auto simp: save_broker_result_def io_catch_def rollback_raise_Inr io_raise_def
        split: prod.splits sum.splits if_splits)
  then show ?thesis
  proof (cases rule: save_body_cases)
    case (written r s2)
    then show ?thesis using flush_commit_ok [OF written(4)] by auto
  qed simp
qed

lemma mark_body_Inl:
  assumes "mark_published_body S now (str_uuid u) s = (Inl e, s')"
  shows "durable s' = durable s \<or> (\<exists>r. find_outbox u (live s) = Some r \<and>
    durable s' = put_outbox (r\<lparr>ob_published_at := Some now\<rparr>) (live s))"
proof -
  obtain z s1 where g: "ss_get_outbox S u s = (z, s1)" by fastforce
  note d1 = durable_get_outbox [OF g]
  show ?thesis
  proof (cases "\<exists>r. z = Inr (Some r)")
    case True
    then obtain r where z: "z = Inr (Some r)" by blast
    have g1: "find_outbox u (live s) = Some r" "live s1 = live s" using get_outbox [OF g [unfolded z]] by auto
    have "io_bind (ss_flush S) (\<lambda>_. ss_commit S) (ss_write_outbox S (r\<lparr>ob_published_at := Some now\<rparr>) s1)
        = (Inl e, s')"
      using assms z g by (simp add: mark_published_body_def io_bind_def [of "ss_get_outbox S u"] io_steps)
    from flush_commit_failed [OF this] show ?thesis using g1 d1 by (auto simp: lives)
  next
    case False
    then have "s' = s1" using assms g
      by (auto simp: mark_published_body_def io_bind_def [of "ss_get_outbox S u"] io_raise_def
          split: sum.splits option.splits)
    then show ?thesis using d1 by simp
  qed
qed

text \<open>Of a marking that raises: nothing is durable, or the event is published.\<close>

lemma mark_failed:
  assumes "mark_published S now (str_uuid u) s = (Inl e, s')"
  shows "durable s' = durable s \<or> (\<exists>r. find_outbox u (live s) = Some r \<and>
    durable s' = put_outbox (r\<lparr>ob_published_at := Some now\<rparr>) (live s))"
proof -
  obtain e0 s1 where b: "mark_published_body S now (str_uuid u) s = (Inl e0, s1)"
    and rb: "io_bind (ss_rollback S) (\<lambda>_. io_raise e0) s1 = (Inl e :: unit result, s')"
    using assms
    by (cases "mark_published_body S now (str_uuid u) s")
      (auto simp: mark_published_def io_catch_def split: sum.splits)
  show ?thesis using mark_body_Inl [OF b] rollback_raise_Inl [OF rb] by simp
qed

lemma mark_ok:
  assumes "mark_published S now (str_uuid u) s = (Inr (), s')"
  shows "\<exists>r. find_outbox u (live s) = Some r \<and> live s' = durable s' \<and>
           durable s' = put_outbox (r\<lparr>ob_published_at := Some now\<rparr>) (live s)"
proof -
  have "mark_published_body S now (str_uuid u) s = (Inr (), s')"
    using assms by (auto simp: mark_published_def io_catch_def rollback_raise_Inr
        split: prod.splits sum.splits)
  then obtain r s1 where "ss_get_outbox S u s = (Inr (Some r), s1)"
    "io_bind (ss_flush S) (\<lambda>_. ss_commit S) (ss_write_outbox S (r\<lparr>ob_published_at := Some now\<rparr>) s1)
       = (Inr (), s')"
    by (auto simp: mark_published_body_def io_bind_def [of "ss_get_outbox S u"] io_steps
        io_raise_def split: prod.splits sum.splits option.splits)
  then show ?thesis by (metis get_outbox flush_commit_ok(2,3) live_write_outbox)
qed

end

lemma market_row_unreadable:
  assumes "ExecutionIntent i = Inr i" and "ei_order_type i = MARKET"
  shows "\<exists>msgs. as_domain (new_order_record i st r a) = Inl (ValidationError msgs)"
proof -
  have "ei_limit_price i = None"
    using assms by (auto simp: ExecutionIntent_iff intent_contract_def)
  then show ?thesis
    by (auto simp: as_domain_def new_order_record_def ExecutionIntent_def Let_def run_model_def
        require_consistent_pricing_def)
qed

section \<open>Properties\<close>

text \<open>C16: Storing a validated intent and reading the row back gives the intent again exactly
  when it is a plain limit order: the stored row has no reference price, no stop loss, no
  take profit, no reduce-only flag and no tranche, and its type is always \<open>LIMIT\<close>.\<close>

theorem order_row_roundtrip:
  assumes "ExecutionIntent i = Inr i"
  shows "as_domain (new_order_record i st r a) = Inr i \<longleftrightarrow>
    ei_order_type i = LIMIT \<and> ei_reference_price i = None \<and> ei_stop_loss i = None \<and>
    ei_take_profit i = None \<and> \<not> ei_reduce_only i \<and> ei_tranche_ref i = None"
proof -
  have c: "intent_contract i" "in_utc i = i" using assms by (auto simp: ExecutionIntent_iff)
  let ?stripped = "i\<lparr>ei_order_type := LIMIT, ei_reference_price := None, ei_stop_loss := None,
      ei_take_profit := None, ei_reduce_only := False, ei_tranche_ref := None\<rparr>"
  have row: "as_domain (new_order_record i st r a) = ExecutionIntent ?stripped"
    by (cases i) (simp add: as_domain_def new_order_record_def)
  have eq: "?stripped = i \<longleftrightarrow> ei_order_type i = LIMIT \<and> ei_reference_price i = None \<and>
      ei_stop_loss i = None \<and> ei_take_profit i = None \<and> \<not> ei_reduce_only i \<and> ei_tranche_ref i = None"
    by (cases i) auto
  have "in_utc ?stripped = i \<longleftrightarrow> ?stripped = i"
    using c(2) by (cases i) (auto simp: in_utc_def)
  then show ?thesis using row eq assms c
    by (metis ExecutionIntent_iff)
qed

theorem order_row_roundtrip_witness:
  "as_domain (new_order_record plain_intent QUEUED 7 8) = Inr plain_intent"
  unfolding order_row_roundtrip [OF plain_intent_valid] by (simp add: plain_intent_def)

text \<open>A stored market order cannot be read back: for every valid market intent the row that
  \<open>create_with_outbox\<close> writes fails the validation of \<open>as_domain\<close>, in every state.\<close>

lemma stored_market_order_unreadable:
  assumes "ExecutionIntent i = Inr i" and "ei_order_type i = MARKET"
  shows "\<exists>msgs. as_domain (new_order_record i st r a) = Inl (ValidationError msgs)"
  by (rule market_row_unreadable [OF assms])

definition market_intent :: execution_intent where
  "market_intent = plain_intent\<lparr>ei_order_type := MARKET, ei_limit_price := None,
     ei_reference_price := Some (dint 2000), ei_stop_loss := Some (dint 1990)\<rparr>"

lemma market_intent_valid: "ExecutionIntent market_intent = Inr market_intent"
  by (simp add: ExecutionIntent_iff market_intent_def plain_intent_def intent_contract_def
      column_price_def optional_price_def fits_numeric_iff dec_less_dval brackets_straddle_def
      in_utc_def astimezone_utc_def sha256_key_def list_all_iff is_hex_def pricing_reference_def)

end
