(* ===== verification/Execution_Service.thy ===== *)
theory Execution_Service
  imports Fake_Broker Order_Repository
begin

text \<open>
  \<open>application/execution_service.py\<close>: sending a queued intent to the broker and storing the
  outcome. The state is the pair of the repository and the broker. The locale
  \<open>execution_repository\<close> is the service's view of the repository (which the repository of
  the sources gives on every session), \<open>execution\<close> joins it to a broker.
\<close>

section \<open>The service\<close>

record 'r execution_repository_ops =
  er_lock_for_execution :: "uuid \<Rightarrow> (order_record, 'r) io"
  er_save_broker_result :: "uuid \<Rightarrow> broker_result \<Rightarrow> (unit, 'r) io"
  er_release_execution_lock :: "(unit, 'r) io"

definition validate_result_identity :: "execution_intent \<Rightarrow> broker_result \<Rightarrow> broker_result result" where
  "validate_result_identity i r =
     (if br_client_order_id r \<noteq> ei_idempotency_key i then
        Inl (ValueError ''broker result client order ID does not match intent idempotency key'')
      else Inr r)"

definition ambiguous_timeout :: "execution_intent \<Rightarrow> broker_result" where
  "ambiguous_timeout i =
     \<lparr>br_client_order_id = ei_idempotency_key i, br_broker_order_id = None, br_state = UNKNOWN,
      br_filled_quantity = 0, br_average_price = None, br_broker_request_id = None,
      br_error_code = Some ''AMBIGUOUS_TIMEOUT''\<rparr>"

text \<open>The \<open>except TimeoutError\<close> branch, and the part that talks to the broker.\<close>

definition after_timeout :: "'b broker_ops \<Rightarrow> execution_intent \<Rightarrow> (broker_result, 'b) io" where
  "after_timeout B i =
     io_bind (ba_lookup_by_client_order_id B (ei_account_id i) (ei_idempotency_key i)) (\<lambda>known.
       case known of
         Some r \<Rightarrow> io_lift (validate_result_identity i r)
       | None \<Rightarrow> io_lift (BrokerOrderResult (ambiguous_timeout i)))"

definition place_order :: "'b broker_ops \<Rightarrow> execution_intent \<Rightarrow> (broker_result, 'b) io" where
  "place_order B i =
     io_bind (ba_lookup_by_client_order_id B (ei_account_id i) (ei_idempotency_key i)) (\<lambda>known.
       case known of
         Some r \<Rightarrow> io_lift (validate_result_identity i r)
       | None \<Rightarrow>
           io_catch
             (io_bind (ba_submit B i) (\<lambda>submitted. io_lift (validate_result_identity i submitted)))
             (\<lambda>e. if is_timeout e then after_timeout B i else io_raise e))"

definition persist_result ::
  "'r execution_repository_ops \<Rightarrow> uuid \<Rightarrow> broker_result \<Rightarrow> (broker_result, 'r) io" where
  "persist_result Rp intent_id r = io_bind (er_save_broker_result Rp intent_id r) (\<lambda>_. io_ret r)"

text \<open>The \<open>try\<close> block; the flag is \<open>result_persisted\<close> when it returns.\<close>

definition execute_body ::
  "'r execution_repository_ops \<Rightarrow> 'b broker_ops \<Rightarrow> uuid \<Rightarrow> (bool \<times> broker_result, 'r \<times> 'b) io" where
  "execute_body Rp B intent_id =
     io_bind (on_fst (er_lock_for_execution Rp intent_id)) (\<lambda>record.
     if or_risk_decision_id record = None \<or> or_approval_id record = None then
       io_raise (PermissionError ''risk and approval evidence are required'')
     else if or_state record \<noteq> QUEUED then
       io_bind (io_lift (as_broker_result record)) (\<lambda>r. io_ret (False, r))
     else
       io_bind (io_lift (as_domain record)) (\<lambda>i.
       io_bind (on_snd (place_order B i)) (\<lambda>r.
       io_bind (on_fst (persist_result Rp intent_id r)) (\<lambda>persisted.
       io_ret (True, persisted)))))"

definition execute ::
  "'r execution_repository_ops \<Rightarrow> 'b broker_ops \<Rightarrow> uuid \<Rightarrow> (broker_result, 'r \<times> 'b) io" where
  "execute Rp B intent_id =
     (let release = on_fst (er_release_execution_lock Rp) in
      io_bind
        (io_catch (execute_body Rp B intent_id)
           (\<lambda>e. io_bind release (\<lambda>_. io_raise e)))
        (\<lambda>(result_persisted, r).
           if result_persisted then io_ret r else io_bind release (\<lambda>_. io_ret r)))"

lemma validate_result_identity_Inr [simp]:
  "validate_result_identity i r = Inr r' \<longleftrightarrow> br_client_order_id r = ei_idempotency_key i \<and> r' = r"
  by (auto simp: validate_result_identity_def)

lemma ambiguous_timeout_valid [simp]:
  "BrokerOrderResult (ambiguous_timeout i) = Inr (ambiguous_timeout i)"
  by (simp add: BrokerOrderResult_iff result_contract_def ambiguous_timeout_def optional_price_def
      fits_numeric_iff zero_dec_def)

section \<open>The broker side\<close>

context broker_adapter
begin

lemma after_timeout_keeps: "keeps at_most_once (after_timeout B i)"
  unfolding after_timeout_def
  by (intro keeps_bind lookup_keeps) (auto intro: keeps_pure split: option.split)

lemma place_order_keeps: "keeps at_most_once (place_order B i)"
proof (rule keepsI)
  fix b x b' assume ok: "at_most_once b" and run: "place_order B i b = (x, b')"
  let ?look = "ba_lookup_by_client_order_id B (ei_account_id i) (ei_idempotency_key i)"
  obtain k b1 where l: "?look b = (k, b1)" by fastforce
  have b1: "at_most_once b1" using keepsD [OF lookup_keeps ok l] .
  show "at_most_once b'"
  proof (cases "k = Inr None")
    case False
    then have "b' = b1" using run l
      by (cases k) (auto simp: place_order_def io_bind_def io_lift_def split: option.splits)
    then show ?thesis using b1 by simp
  next
    case True
    obtain y b2 where s: "ba_submit B i b1 = (y, b2)" by fastforce
    have b2: "at_most_once b2" using submit_after_lookup l True s ok by blast
    have "b' = b2 \<or> (\<exists>z. after_timeout B i b2 = (z, b'))"
      using run l True s
      by (auto simp: place_order_def io_bind_def [of "ba_lookup_by_client_order_id B _ _"] io_catch_def
          io_bind_def [of "ba_submit B i"] io_lift_def io_raise_def split: sum.splits if_splits)
    then show ?thesis using b2 keepsD [OF after_timeout_keeps b2] by blast
  qed
qed

end

section \<open>The repository side\<close>

text \<open>
  \<open>stored r i\<close> is the committed row of order \<open>i\<close>; \<open>settled r\<close> says that the transaction
  has no pending change. A save that raises stored the whole outcome or nothing of it.
\<close>

locale execution_repository =
  fixes Rp :: "'r execution_repository_ops"
    and stored :: "'r \<Rightarrow> uuid \<Rightarrow> order_record option"
    and settled :: "'r \<Rightarrow> bool"
  assumes lock_reads: "settled r \<Longrightarrow> er_lock_for_execution Rp i r = (Inr q, r') \<Longrightarrow>
      stored r i = Some q \<and> settled r'"
    and lock_frame: "er_lock_for_execution Rp i r = (x, r') \<Longrightarrow> stored r' = stored r"
    and lock_fails: "settled r \<Longrightarrow> er_lock_for_execution Rp i r = (Inl e, r') \<Longrightarrow>
      database_error e \<or> stored r i = None"
    and save_writes: "settled r \<Longrightarrow> er_save_broker_result Rp i res r = (Inr u, r') \<Longrightarrow>
      \<exists>q. stored r i = Some q \<and> br_client_order_id res = or_idempotency_key q \<and>
          reportable (or_state q) (br_state res) \<and> stored r' = (stored r)(i \<mapsto> apply_result res q) \<and>
          settled r'"
    and save_failed: "settled r \<Longrightarrow> er_save_broker_result Rp i res r = (Inl e, r') \<Longrightarrow>
      stored r' = stored r \<or>
      (\<exists>q. stored r i = Some q \<and> br_client_order_id res = or_idempotency_key q \<and>
          reportable (or_state q) (br_state res) \<and> database_error e \<and>
          stored r' = (stored r)(i \<mapsto> apply_result res q))"
    and save_fails: "settled r \<Longrightarrow> er_save_broker_result Rp i res r = (Inl e, r') \<Longrightarrow>
      stored r i = Some q \<Longrightarrow> br_client_order_id res = or_idempotency_key q \<Longrightarrow>
      reportable (or_state q) (br_state res) \<Longrightarrow> database_error e"
    and release_frame: "er_release_execution_lock Rp r = (v, r') \<Longrightarrow> stored r' = stored r"
    and release_settles: "er_release_execution_lock Rp r = (Inr v', r') \<Longrightarrow> settled r'"
    and release_fails: "er_release_execution_lock Rp r = (Inl e, r') \<Longrightarrow> database_error e"

text \<open>The repository of the sources.\<close>

definition order_execution_repository :: "'s session_ops \<Rightarrow> 's execution_repository_ops" where
  "order_execution_repository S =
     \<lparr>er_lock_for_execution = lock_for_execution S, er_save_broker_result = save_broker_result S,
      er_release_execution_lock = release_execution_lock S\<rparr>"

context sql_session
begin

lemma found_put:
  assumes "find_order i (live s) = Some r" "live s = durable s"
    and "durable s' = put_order (apply_result res r) (live s)"
  shows "(\<lambda>j. find_order j (durable s')) = (\<lambda>j. find_order j (durable s))(i \<mapsto> apply_result res r)"
  using assms find_order_Some [OF assms(1)] by (auto simp: fun_eq_iff)

end

sublocale sql_session \<subseteq> exec: execution_repository "order_execution_repository S"
    "\<lambda>s i. find_order i (durable s)" "\<lambda>s. live s = durable s"
proof (unfold_locales, unfold order_execution_repository_def execution_repository_ops.simps, goal_cases)
  case (1 r i q r')
  then show ?case using lock_ok [of i r q r'] by simp
next
  case (2 i r x r')
  then show ?case using keepsD [OF keeps_lock refl, of i r x r'] by simp
next
  case (3 r i e r')
  then show ?case using lock_error [of i r e r'] by auto
next
  case (4 r i res u r')
  then obtain q where q: "recordable i res r q" "durable r' = put_order (apply_result res q) (live r)"
    "live r' = durable r'"
    using save_ok [of i res r r'] by auto
  then show ?case using found_put [OF _ 4(1) q(2)] by (auto simp: recordable_def 4(1))
next
  case (5 r i res e r')
  then consider "durable r' = durable r"
    | q where "recordable i res r q" "database_error e" "durable r' = put_order (apply_result res q) (live r)"
    using save_failed(1) [OF 5(2)] by blast
  then show ?case
  proof cases
    case 2
    then show ?thesis using found_put [OF _ 5(1) 2(3)] by (auto simp: recordable_def 5(1))
  qed simp
next
  case (6 r i res e r' q)
  then show ?case using save_failed(2) [OF 6(2), of q] by (simp add: recordable_def)
next
  case (7 r v r')
  then show ?case using durable_rollback [of r v r'] by (simp add: release_execution_lock_def)
next
  case (8 r v' r')
  then show ?case using rollback [of r r'] durable_rollback [of r "Inr v'" r']
    by (simp add: release_execution_lock_def)
next
  case (9 r e r')
  then show ?case using rollback_error [of r e r'] by (simp add: release_execution_lock_def)
qed

context sql_session
begin

lemma execution_repository_of_session:
  "execution_repository (order_execution_repository S) (\<lambda>s i. find_order i (durable s))
     (\<lambda>s. live s = durable s)"
  by (rule exec.execution_repository_axioms)

end

section \<open>The service on a repository and a broker\<close>

definition has_evidence :: "order_record \<Rightarrow> bool" where
  "has_evidence q \<longleftrightarrow> or_risk_decision_id q \<noteq> None \<and> or_approval_id q \<noteq> None"

locale execution = execution_repository Rp stored settled + broker_adapter B sent
  for Rp :: "'r execution_repository_ops" and stored :: "'r \<Rightarrow> uuid \<Rightarrow> order_record option"
    and settled :: "'r \<Rightarrow> bool" and B :: "'b broker_ops" and sent :: "'b \<Rightarrow> uuid \<times> string \<Rightarrow> nat"
begin

lemma body_cases:
  assumes run: "execute_body Rp B i (r, b) = (y, (r1, b1))" and fresh: "settled r"
  obtains (unlocked) e where "y = Inl e" "database_error e \<or> stored r i = None" "b1 = b"
      "stored r1 = stored r"
  | (unproven) q where "stored r i = Some q" "\<not> has_evidence q" "b1 = b" "stored r1 = stored r"
      "y = Inl (PermissionError ''risk and approval evidence are required'')"
  | (idle) q where "stored r i = Some q" "has_evidence q" "or_state q \<noteq> QUEUED" "b1 = b"
      "stored r1 = stored r"
      "y = (case as_broker_result q of Inl e \<Rightarrow> Inl e | Inr res \<Rightarrow> Inr (False, res))"
  | (unreadable) q e where "stored r i = Some q" "has_evidence q" "or_state q = QUEUED"
      "as_domain q = Inl e" "y = Inl e" "b1 = b" "stored r1 = stored r"
  | (unplaced) q d e where "stored r i = Some q" "has_evidence q" "or_state q = QUEUED"
      "as_domain q = Inr d" "place_order B d b = (Inl e, b1)" "y = Inl e" "stored r1 = stored r"
  | (unsaved) q d res e where "stored r i = Some q" "has_evidence q" "or_state q = QUEUED"
      "as_domain q = Inr d" "place_order B d b = (Inr res, b1)" "y = Inl e"
      "br_client_order_id res = or_idempotency_key q \<and> reportable QUEUED (br_state res) \<Longrightarrow> database_error e"
      "stored r1 = stored r \<or> br_client_order_id res = or_idempotency_key q \<and>
         reportable QUEUED (br_state res) \<and> stored r1 = (stored r)(i \<mapsto> apply_result res q)"
  | (saved) q d res where "stored r i = Some q" "has_evidence q" "or_state q = QUEUED"
      "as_domain q = Inr d" "place_order B d b = (Inr res, b1)" "y = Inr (True, res)"
      "br_client_order_id res = or_idempotency_key q" "reportable QUEUED (br_state res)"
      "stored r1 = (stored r)(i \<mapsto> apply_result res q)" "settled r1"
proof -
  obtain l r0 where l: "er_lock_for_execution Rp i r = (l, r0)" by fastforce
  note f0 = lock_frame [OF l]
  show thesis
  proof (cases l)
    case (Inl e)
    then show thesis using run l f0 lock_fails [OF fresh, of i e r0]
      by (intro unlocked [of e]) (auto simp: execute_body_def io_bind_def on_fst_def)
  next
    case (Inr q)
    note rd = lock_reads [OF fresh l [unfolded Inr]]
    have run1: "(if \<not> has_evidence q then
         io_raise (PermissionError ''risk and approval evidence are required'')
       else if or_state q \<noteq> QUEUED then
         io_bind (io_lift (as_broker_result q)) (\<lambda>r. io_ret (False, r))
       else io_bind (io_lift (as_domain q)) (\<lambda>d.
         io_bind (on_snd (place_order B d)) (\<lambda>r.
         io_bind (on_fst (persist_result Rp i r)) (\<lambda>persisted. io_ret (True, persisted)))))
       (r0, b) = (y, (r1, b1))"
      using run l Inr
      by (simp add: execute_body_def io_bind_def [of "on_fst (er_lock_for_execution Rp i)"] on_fst_def
          has_evidence_def split: if_splits)
    consider "\<not> has_evidence q" | "has_evidence q" "or_state q \<noteq> QUEUED"
      | e where "has_evidence q" "or_state q = QUEUED" "as_domain q = Inl e"
      | d where "has_evidence q" "or_state q = QUEUED" "as_domain q = Inr d"
      by (cases "as_domain q") auto
    then show thesis
    proof cases
      case 1 then show thesis using run1 rd f0 by (intro unproven) (auto simp: io_raise_def)
    next
      case 2 then show thesis using run1 rd f0
        by (intro idle) (auto simp: io_bind_def io_lift_def io_ret_def split: sum.splits)
    next
      case 3 then show thesis using run1 rd f0
        by (intro unreadable) (auto simp: io_steps io_raise_def)
    next
      case 4
      obtain z b0 where p: "place_order B d b = (z, b0)" by fastforce
      show thesis
      proof (cases z)
        case (Inl e)
        then show thesis using 4 run1 rd f0 p
          by (intro unplaced) (auto simp: io_steps io_bind_def on_snd_def)
      next
        case (Inr res)
        obtain u r2 where s: "er_save_broker_result Rp i res r0 = (u, r2)" by fastforce
        have out: "b1 = b0" "r1 = r2" "y = (case u of Inl e \<Rightarrow> Inl e | Inr _ \<Rightarrow> Inr (True, res))"
          using 4 run1 p Inr s
          by (auto simp: io_steps io_bind_def on_snd_def on_fst_def persist_result_def io_ret_def
              split: sum.splits)
        show thesis
        proof (cases u)
          case (Inl e)
          note sf = save_failed [OF conjunct2 [OF rd] s [unfolded Inl]]
            save_fails [OF conjunct2 [OF rd] s [unfolded Inl]]
          then show thesis using 4 rd f0 p \<open>z = Inr res\<close> out Inl
            by (intro unsaved [of q d res e]) auto
        next
          case (Inr v)
          then show thesis
            using 4 rd f0 p \<open>z = Inr res\<close> out save_writes [of r0 i res v r2] s
            by (intro saved) auto
        qed
      qed
    qed
  qed
qed

lemma release_frame_pair:
  "on_fst (er_release_execution_lock Rp) (r, b) = (v, (r', b')) \<Longrightarrow> stored r' = stored r \<and> b' = b"
  "on_fst (er_release_execution_lock Rp) (r, b) = (Inl e, (r', b')) \<Longrightarrow> database_error e"
  by (auto simp: on_fst_def split: prod.splits dest: release_frame release_fails)

text \<open>The \<open>finally\<close> clause adds a rollback to every outcome but a stored one.\<close>

lemma execute_cases:
  assumes run: "execute Rp B i (r, b) = (x, (r', b'))"
  obtains (persisted) res where "execute_body Rp B i (r, b) = (Inr (True, res), (r', b'))" "x = Inr res"
  | (released) y r1 where "execute_body Rp B i (r, b) = (y, (r1, b'))" "stored r' = stored r1"
      "\<nexists>res. y = Inr (True, res)"
      "case y of Inl e \<Rightarrow> \<exists>e'. x = Inl e' \<and> (e' = e \<or> database_error e')
       | Inr (_, res) \<Rightarrow> x = Inr res \<or> (\<exists>e. x = Inl e \<and> database_error e)"
proof -
  obtain y r1 b1 where body: "execute_body Rp B i (r, b) = (y, (r1, b1))"
    by (metis prod.exhaust)
  obtain v r2 b2 where rel: "on_fst (er_release_execution_lock Rp) (r1, b1) = (v, (r2, b2))"
    by (metis prod.exhaust)
  note fr = release_frame_pair(1) [OF rel]
  show thesis
  proof (cases "\<exists>res. y = Inr (True, res)")
    case True
    then obtain res where "y = Inr (True, res)" by blast
    then show thesis using run body
      by (intro persisted [of res]) (auto simp: execute_def Let_def io_bind_def io_catch_def io_ret_def)
  next
    case False
    then have "r' = r2" "b' = b2" "x = (case v of Inl e \<Rightarrow> Inl e
        | Inr _ \<Rightarrow> (case y of Inl e \<Rightarrow> Inl e | Inr (_, res) \<Rightarrow> Inr res))"
      using run body rel
      by (auto simp: execute_def Let_def io_bind_def io_catch_def io_ret_def io_raise_def
          split: sum.splits prod.splits if_splits)
    moreover have "database_error e" if "v = Inl e" for e
      by (rule release_frame_pair(2) [OF rel [unfolded that]])
    ultimately show thesis using body fr False
      by (intro released [of y r1]) (auto split: sum.splits prod.splits)
  qed
qed

lemma execute_keeps_once:
  assumes "execute Rp B i (r, b) = (x, (r', b'))" "settled r" "at_most_once b"
  shows "at_most_once b'"
proof -
  have body: "at_most_once b1" if "execute_body Rp B i (r, b) = (y, (r1, b1))" for y r1 b1
    using that assms(2)
    by (cases rule: body_cases) (use assms(3) keepsD [OF place_order_keeps assms(3)] in blast)+
  show ?thesis by (rule execute_cases [OF assms(1)]) (use body in blast)+
qed

text \<open>Only a queued order with evidence is sent; in every other case nothing changes.\<close>

lemma execute_idle:
  assumes "execute Rp B i (r, b) = (x, (r', b'))" "settled r"
    and "\<And>q. stored r i = Some q \<Longrightarrow> \<not> has_evidence q \<or> or_state q \<noteq> QUEUED"
  shows "b' = b \<and> stored r' = stored r"
proof -
  have body: "b1 = b \<and> stored r1 = stored r \<and> (\<nexists>res. y = Inr (True, res))"
    if "execute_body Rp B i (r, b) = (y, (r1, b1))" for y r1 b1
    using that assms(2)
    by (cases rule: body_cases) (use assms(3) in \<open>auto split: sum.splits\<close>)
  show ?thesis by (rule execute_cases [OF assms(1)]) (use body in force)+
qed

lemma execute_unproven:
  assumes "execute Rp B i (r, b) = (x, (r', b'))" "settled r"
    and "stored r i = Some q" "\<not> has_evidence q"
  shows "\<exists>e. x = Inl e"
proof -
  have body: "\<exists>e. y = Inl e" if "execute_body Rp B i (r, b) = (y, (r1, b1))" for y r1 b1
    using that assms(2) by (cases rule: body_cases) (use assms(3,4) in auto)
  show ?thesis by (cases x; rule execute_cases [OF assms(1)]) (use body in force)+
qed

text \<open>
  An exception leaves every stored order as it was, unless it came from the database after the
  broker's outcome had been written: then the whole outcome may be stored.
\<close>

lemma execute_failed:
  assumes run: "execute Rp B i (r, b) = (Inl e, (r', b'))" and fresh: "settled r"
  shows "stored r' = stored r \<or>
    (\<exists>q d res. stored r i = Some q \<and> has_evidence q \<and> or_state q = QUEUED \<and> as_domain q = Inr d \<and>
       place_order B d b = (Inr res, b') \<and> br_client_order_id res = or_idempotency_key q \<and>
       reportable QUEUED (br_state res) \<and> database_error e \<and>
       stored r' = (stored r)(i \<mapsto> apply_result res q))"
  using run
proof (cases rule: execute_cases)
  case (released y r1)
  from released(1) fresh show ?thesis
  proof (cases rule: body_cases)
    case (unsaved q d res e0)
    then show ?thesis using released(2,4) by auto
  qed (use released in auto)
qed simp

text \<open>
  The outcome of an order that can be placed, and of one that is no longer queued or cannot be
  read: only the database can change it.
\<close>

lemma execute_placed:
  assumes run: "execute Rp B i (r, b) = (x, (r', b'))" and fresh: "settled r"
    and q: "stored r i = Some q" "has_evidence q" "or_state q = QUEUED" "as_domain q = Inr d"
    and place: "place_order B d b = (Inr res, b2)" "br_client_order_id res = or_idempotency_key q"
      "reportable QUEUED (br_state res)"
  shows "x = Inr res \<or> (\<exists>e. x = Inl e \<and> database_error e)"
  using run
proof (cases rule: execute_cases)
  case (persisted res')
  from persisted(1) fresh show ?thesis by (cases rule: body_cases) (use q place persisted(2) in auto)
next
  case (released y r1)
  from released(1) fresh show ?thesis
    by (cases rule: body_cases) (use q place released(3,4) in auto)
qed

lemma execute_settled:
  assumes run: "execute Rp B i (r, b) = (x, (r', b'))" and fresh: "settled r"
    and q: "stored r i = Some q" "has_evidence q" "or_state q \<noteq> QUEUED" "as_broker_result q = Inr res"
  shows "b' = b \<and> stored r' = stored r \<and> (x = Inr res \<or> (\<exists>e. x = Inl e \<and> database_error e))"
proof -
  have "x = Inr res \<or> (\<exists>e. x = Inl e \<and> database_error e)"
    using run
  proof (cases rule: execute_cases)
    case (persisted res')
    from persisted(1) fresh show ?thesis by (cases rule: body_cases) (use q in auto)
  next
    case (released y r1)
    from released(1) fresh show ?thesis
      by (cases rule: body_cases) (use q released(2-4) in auto)
  qed
  then show ?thesis using execute_idle [OF run fresh] q by auto
qed

lemma execute_unreadable:
  assumes run: "execute Rp B i (r, b) = (x, (r', b'))" and fresh: "settled r"
    and q: "stored r i = Some q" "has_evidence q" "or_state q = QUEUED" "as_domain q = Inl e0"
  shows "b' = b \<and> stored r' = stored r \<and> (\<exists>e. x = Inl e \<and> (e = e0 \<or> database_error e))"
  using run
proof (cases rule: execute_cases)
  case (persisted res')
  from persisted(1) fresh show ?thesis by (cases rule: body_cases) (use q in auto)
next
  case (released y r1)
  from released(1) fresh show ?thesis
    by (cases rule: body_cases) (use q released(2-4) in auto)
qed

text \<open>A normal return on a queued order stored the outcome.\<close>

lemma execute_stored:
  assumes "execute Rp B i (r, b) = (Inr res, (r', b'))" "settled r"
    and "stored r i = Some q" "or_state q = QUEUED"
  shows "\<exists>d. as_domain q = Inr d \<and> place_order B d b = (Inr res, b') \<and> has_evidence q \<and>
    br_client_order_id res = or_idempotency_key q \<and> reportable QUEUED (br_state res) \<and>
    stored r' = (stored r)(i \<mapsto> apply_result res q) \<and> settled r'"
proof -
  from assms(1) obtain y r1 where body: "execute_body Rp B i (r, b) = (y, (r1, b'))"
    and cs: "y = Inr (True, res) \<and> r1 = r' \<or> y = Inr (False, res)"
    by (rule execute_cases) (auto split: sum.splits)
  from body assms(2) show ?thesis
    by (cases rule: body_cases) (use cs assms(3,4) in \<open>auto split: sum.splits\<close>)
qed

text \<open>Whatever happens, other orders are not touched, and an order's own state moves along
  the life cycle.\<close>

lemma execute_moves:
  assumes "execute Rp B i (r, b) = (x, (r', b'))" "settled r"
  shows "stored r' = stored r \<or>
    (\<exists>q res. stored r i = Some q \<and> or_state q = QUEUED \<and> reportable QUEUED (br_state res) \<and>
       stored r' = (stored r)(i \<mapsto> apply_result res q))"
proof (cases x)
  case (Inl e)
  then show ?thesis using execute_failed [of i r b e r' b'] assms by auto
next
  case (Inr res)
  show ?thesis
  proof (cases "\<exists>q. stored r i = Some q \<and> has_evidence q \<and> or_state q = QUEUED")
    case True
    then show ?thesis using execute_stored assms Inr by metis
  next
    case False
    then show ?thesis using execute_idle [OF assms] by blast
  qed
qed

end

end
