(* ===== verification/Execution_Safety.thy ===== *)
theory Execution_Safety
  imports Execution_Service
begin

text \<open>
  The execution path as a whole: any number of executions, of any intents, each in a
  transaction of its own, against any database that obeys \<open>sql_session\<close> and any broker that
  obeys \<open>broker_adapter\<close>; and runs on the in-memory session and the in-memory broker.
\<close>

section \<open>Histories of executions\<close>

abbreviation execute_on :: "'s session_ops \<Rightarrow> 'b broker_ops \<Rightarrow> uuid \<Rightarrow> (broker_result, 's \<times> 'b) io" where
  "execute_on S B \<equiv> execute (order_execution_repository S) B"

text \<open>
  An execution starts in a new session \<open>s0\<close> on the committed database, and may end in any
  way, an exception included.
\<close>

inductive attempts ::
  "'s session_ops \<Rightarrow> ('s \<Rightarrow> db) \<Rightarrow> ('s \<Rightarrow> db) \<Rightarrow> 'b broker_ops \<Rightarrow> 's \<times> 'b \<Rightarrow> 's \<times> 'b \<Rightarrow> bool"
  for S live durable B where
  none: "attempts S live durable B w w"
| again: "attempts S live durable B w (s, b) \<Longrightarrow> live s0 = durable s0 \<Longrightarrow> durable s0 = durable s \<Longrightarrow>
    execute_on S B i (s0, b) = (x, w') \<Longrightarrow> attempts S live durable B w w'"

inductive_cases attempts_cases: "attempts S live durable B w w'"

lemma execution_of:
  assumes "sql_session S live durable" "broker_adapter B sent"
  shows "execution (order_execution_repository S) (\<lambda>s i. find_order i (durable s))
    (\<lambda>s. live s = durable s) B sent"
  using assms by (intro execution.intro sql_session.execution_repository_of_session)

text \<open>
  The row an outcome must leave behind: the order as it was sent, in the state the broker
  reported, with everything the report says. \<open>apply_result\<close>, which the code computes through
  \<open>write_result\<close>, is this row.
\<close>

definition outcome_row :: "broker_result \<Rightarrow> order_record \<Rightarrow> order_record" where
  "outcome_row res q = q
     \<lparr>or_state := br_state res, or_broker_order_id := br_broker_order_id res,
      or_filled_quantity := br_filled_quantity res, or_average_price := br_average_price res,
      or_broker_request_id := br_broker_request_id res, or_error_code := br_error_code res\<rparr>"

lemma apply_result_outcome: "apply_result res q = outcome_row res q"
  by (simp add: apply_result_def write_result_def outcome_row_def)

lemma outcome_row_simps [simp]:
  "or_id (outcome_row res q) = or_id q" "or_state (outcome_row res q) = br_state res"
  "has_evidence (outcome_row res q) = has_evidence q"
  by (simp_all add: outcome_row_def has_evidence_def)

lemma outcome_row_reread:
  assumes "br_client_order_id res = or_idempotency_key q" "BrokerOrderResult res = Inr res"
  shows "as_broker_result (outcome_row res q) = Inr res"
  using assms by (cases res) (simp add: as_broker_result_def outcome_row_def)

section \<open>What survives every history\<close>

lemma attempts_once:
  assumes "sql_session S live durable" "broker_adapter B sent" "attempts S live durable B (s, b) w'"
    and "broker_adapter.at_most_once sent b"
  shows "broker_adapter.at_most_once sent (snd w')"
  using assms(3)
proof (induction "(s, b)" w' rule: attempts.induct)
  case (again s1 b1 s0 i x w')
  then show ?case
    using execution.execute_keeps_once [OF execution_of [OF assms(1,2)], of i s0 b1 x "fst w'" "snd w'"]
    by simp
qed (use assms(4) in simp)

lemma attempts_settled_row:
  assumes "sql_session S live durable" "broker_adapter B sent" "attempts S live durable B (s, b) w'"
    and "find_order i (durable s) = Some q" "or_state q \<noteq> QUEUED"
  shows "find_order i (durable (fst w')) = Some q"
  using assms(3)
proof (induction "(s, b)" w' rule: attempts.induct)
  case (again s1 b1 s0 j x w')
  have "(\<lambda>i. find_order i (durable (fst w'))) = (\<lambda>i. find_order i (durable s0)) \<or>
    (\<exists>p res. find_order j (durable s0) = Some p \<and> or_state p = QUEUED \<and>
       reportable QUEUED (br_state res) \<and>
       (\<lambda>i. find_order i (durable (fst w'))) = (\<lambda>i. find_order i (durable s0))(j \<mapsto> apply_result res p))"
    using execution.execute_moves [OF execution_of [OF assms(1,2)], of j s0 b1 x "fst w'" "snd w'"]
      again.hyps by simp
  then show ?case using again.hyps assms(5) by (cases "i = j") (auto simp: fun_eq_iff)
qed (use assms(4) in simp)

section \<open>A run on the in-memory session\<close>

interpretation mem_execution: execution "order_execution_repository mem_session"
    "\<lambda>s i. find_order i (snd s)" "\<lambda>s. fst s = snd s" "fake_ops now" fake_sent for now
  by (rule execution_of [OF mem.sql_session_axioms fake.broker_adapter_axioms])

lemma constraints_ok_put:
  assumes "constraints_ok d" "find_order (or_id q) d = Some p" "order_row_ok q"
    and "or_idempotency_key q = or_idempotency_key p"
  shows "constraints_ok (put_order q d)"
proof -
  have p: "p \<in> set (db_orders d)" "or_id p = or_id q" using find_order_Some [OF assms(2)] by auto
  have ids: "map or_id (db_orders (put_order q d)) = map or_id (db_orders d)"
    by (auto simp: put_order_def)
  have "x = p" if "x \<in> set (db_orders d)" "or_id x = or_id q" for x
    using that p assms(1) inj_onD [of or_id "set (db_orders d)" x p]
    by (simp add: constraints_ok_def unique_by_def distinct_map)
  then have keys: "map or_idempotency_key (db_orders (put_order q d)) = map or_idempotency_key (db_orders d)"
    using assms(4) by (auto simp: put_order_def)
  have rows: "\<forall>x \<in> set (db_orders (put_order q d)). order_row_ok x"
    using assms(1,3) by (auto simp: put_order_def constraints_ok_def list_all_iff)
  show ?thesis using assms(1) rows ids keys
    by (simp add: constraints_ok_def unique_by_def list_all_iff)
qed

text \<open>On a pair of tables the body of \<open>save_broker_result\<close> comes to the flush and the commit.\<close>

lemma tables_save:
  assumes sel: "ss_select_order S i (d, d) = (Inr (Some q), (d, d))"
    and wr: "\<And>p e. ss_write_order S p (e, d) = (put_order p e, d)"
    and key: "br_client_order_id res = or_idempotency_key q" and st: "reportable (or_state q) (br_state res)"
  shows "save_broker_result_body S i res (d, d) =
    io_bind (ss_flush S) (\<lambda>_. ss_commit S) (put_order (apply_result res q) d, d)"
proof -
  have l: "lock_for_execution S i (d, d) = (Inr q, (d, d))"
    using sel by (simp add: lock_for_execution_def io_defs)
  note step = io_bind_run [of "lock_for_execution S i", OF l]
  show ?thesis
  proof (cases "or_state q = QUEUED \<and> br_state res \<in> {PARTIALLY_FILLED, FILLED, CANCELED}")
    case True
    then have t: "transition QUEUED SUBMITTED = Inr SUBMITTED"
      "transition SUBMITTED (br_state res) = Inr (br_state res)" by auto
    show ?thesis using True key
      by (simp add: save_broker_result_body_def step io_bind_assoc del: transition_Inr)
        (simp add: io_steps apply_result_def t wr del: transition_Inr)
  next
    case False
    then have t: "transition (or_state q) (br_state res) = Inr (br_state res)"
      using st by (auto simp: reportable_def)
    show ?thesis using False key
      by (simp add: save_broker_result_body_def step io_bind_assoc del: transition_Inr)
        (auto simp add: io_steps apply_result_def t wr simp del: transition_Inr)
  qed
qed

lemma mem_save:
  assumes "constraints_ok d" "find_order i d = Some q" "br_client_order_id res = or_idempotency_key q"
    and "reportable (or_state q) (br_state res)" "order_row_ok (apply_result res q)"
  shows "save_broker_result mem_session i res (d, d) =
    (Inr (), (put_order (apply_result res q) d, put_order (apply_result res q) d))"
proof -
  have ok: "constraints_ok (put_order (apply_result res q) d)"
    using assms find_order_Some [OF assms(2)] by (intro constraints_ok_put) auto
  have "save_broker_result_body mem_session i res (d, d) =
      io_bind (ss_flush mem_session) (\<lambda>_. ss_commit mem_session) (put_order (apply_result res q) d, d)"
    by (rule tables_save) (simp_all add: assms(2-4) mem_session_def)
  then show ?thesis using ok
    by (simp add: save_broker_result_def io_catch_def io_bind_def mem_session_def mem_flush_def)
qed

text \<open>When the connection is lost the caller gets the error, but the row has been committed.\<close>

lemma cut_save:
  assumes "constraints_ok d" "find_order i d = Some q" "br_client_order_id res = or_idempotency_key q"
    and "reportable (or_state q) (br_state res)" "order_row_ok (apply_result res q)"
  shows "save_broker_result cut_session i res (d, d) = (Inl (RuntimeError ''connection lost''),
    (put_order (apply_result res q) d, put_order (apply_result res q) d))"
proof -
  have ok: "constraints_ok (put_order (apply_result res q) d)"
    using assms find_order_Some [OF assms(2)] by (intro constraints_ok_put) auto
  have "save_broker_result_body cut_session i res (d, d) =
      io_bind (ss_flush cut_session) (\<lambda>_. ss_commit cut_session) (put_order (apply_result res q) d, d)"
    by (rule tables_save) (simp_all add: assms(2-4) mem_session_def cut_session_def)
  then show ?thesis using ok
    by (simp add: save_broker_result_def io_catch_def io_bind_def mem_session_def cut_session_def
        mem_flush_def io_raise_def)
qed

text \<open>On the in-memory session an execution whose order can be placed always completes.\<close>

lemma mem_execute:
  assumes "constraints_ok d" "find_order i d = Some q" "has_evidence q" "or_state q = QUEUED"
    and "as_domain q = Inr i'" "place_order B i' b = (Inr res, b')"
    and "br_client_order_id res = or_idempotency_key q" "reportable QUEUED (br_state res)"
    and "order_row_ok (apply_result res q)"
  shows "execute_on mem_session B i ((d, d), b) =
    (Inr res, ((put_order (apply_result res q) d, put_order (apply_result res q) d), b'))"
proof -
  have l: "lock_for_execution mem_session i (d, d) = (Inr q, (d, d))"
    using assms(2) by (simp add: lock_for_execution_def mem_session_def io_defs)
  have s: "save_broker_result mem_session i res (d, d) =
      (Inr (), (put_order (apply_result res q) d, put_order (apply_result res q) d))"
    using mem_save [OF assms(1,2,7)] assms(4,8,9) by simp
  have "execute_body (order_execution_repository mem_session) B i ((d, d), b) =
      (Inr (True, res), ((put_order (apply_result res q) d, put_order (apply_result res q) d), b'))"
    using assms(3-6)
    by (auto simp add: execute_body_def order_execution_repository_def persist_result_def on_fst_def
        on_snd_def io_bind_def io_lift_def io_ret_def l s has_evidence_def)
  then show ?thesis by (simp add: execute_def Let_def io_bind_def io_catch_def io_ret_def)
qed

text \<open>A small database with one queued order, and a broker that times out.\<close>

definition sample_key :: string where
  "sample_key = replicate 64 (CHR ''a'')"

definition sample_order :: "order_state \<Rightarrow> order_record" where
  "sample_order st =
     \<lparr>or_id = 5, or_account_id = 1, or_signal_id = 2, or_target_version = 1, or_market = ''FX'',
      or_symbol = ''XAUUSD'', or_side = BUY, or_order_type = LIMIT, or_quantity = dint 1,
      or_limit_price = Some (dint 2000), or_reference_price = None, or_stop_loss = None,
      or_take_profit = None, or_reduce_only = False, or_tranche_ref = None, or_currency = ''USD'',
      or_expires_at = Aware 1000 0, or_idempotency_key = sample_key, or_state = st,
      or_broker_order_id = None, or_filled_quantity = 0, or_average_price = None,
      or_broker_request_id = None, or_error_code = None, or_risk_decision_id = Some 7,
      or_approval_id = Some 8\<rparr>"

definition sample_db :: "order_state \<Rightarrow> db" where
  "sample_db st = \<lparr>db_orders = [sample_order st], db_audits = [], db_outbox = []\<rparr>"

lemma sample_key_ok: "sha256_key sample_key" "length sample_key = 64"
  by (simp_all add: sample_key_def sha256_key_def list_all_iff is_hex_def)

lemma sample_find [simp]: "find_order 5 (sample_db st) = Some (sample_order st)"
  by (simp add: sample_db_def find_order_def sample_order_def)

lemma sample_row_ok: "order_row_ok (sample_order st)"
  by (simp add: order_row_ok_def sample_order_def positive_or_null_def text_or_null_def
      sample_key_ok dec_less_dval dec_le_dval)

lemma sample_constraints: "constraints_ok (sample_db st)"
  by (simp add: constraints_ok_def sample_db_def sample_row_ok unique_by_def)

lemma sample_domain: "\<exists>i. as_domain (sample_order st) = Inr i \<and> ei_idempotency_key i = sample_key"
  by (auto simp: as_domain_def ExecutionIntent_iff intent_contract_def sample_order_def sample_key_ok
      column_price_def optional_price_def fits_numeric_iff dec_less_dval brackets_straddle_def in_utc_def)

lemma sample_evidence [simp]: "has_evidence (sample_order st)" "or_state (sample_order st) = st"
    "or_id (sample_order st) = 5" "or_idempotency_key (sample_order st) = sample_key"
  by (simp_all add: has_evidence_def sample_order_def)

lemma sample_apply_ok:
  assumes "BrokerOrderResult r = Inr r" "text_or_null 128 (br_broker_order_id r)"
    "text_or_null 128 (br_broker_request_id r)" "text_or_null 128 (br_error_code r)"
  shows "order_row_ok (apply_result r (sample_order st))"
  using assms sample_row_ok [of st]
  by (auto simp: order_row_ok_def apply_result_def write_result_def BrokerOrderResult_iff
      result_contract_def optional_price_def column_price_def positive_or_null_def split: option.splits)

definition sample_intent :: execution_intent where
  "sample_intent = (case as_domain (sample_order QUEUED) of Inr i \<Rightarrow> i | Inl _ \<Rightarrow> undefined)"

lemma sample_intent: "as_domain (sample_order QUEUED) = Inr sample_intent"
    "ei_idempotency_key sample_intent = sample_key"
  using sample_domain [of QUEUED] by (auto simp: sample_intent_def)

section \<open>Properties\<close>

text \<open>C1: No order is sent twice: whatever sequence of executions is attempted, of whatever
  intents, with exceptions, timeouts and retries, no idempotency key of an account ever has
  more than one order at the broker. The database is any that obeys the laws of a session,
  the broker any that keeps the contract of the port.\<close>

theorem at_most_one_order_per_key:
  assumes "sql_session S live durable" and "broker_adapter B sent"
    and "attempts S live durable B (s, b) (s', b')" and "\<And>k. sent b k \<le> 1"
  shows "sent b' k \<le> 1"
proof -
  have "broker_adapter.at_most_once sent b"
    using assms(4) by (simp add: broker_adapter.at_most_once_def [OF assms(2)])
  from attempts_once [OF assms(1-3) this] show ?thesis
    by (cases k) (simp add: broker_adapter.at_most_once_def [OF assms(2)])
qed

definition sample_run :: "broker_result result \<times> (db \<times> db) \<times> fake_broker" where
  "sample_run = execute_on mem_session (fake_ops (Aware 0 0)) 5
     ((sample_db QUEUED, sample_db QUEUED), new_fake_broker)"

lemma sample_attempt:
  "attempts mem_session fst snd (fake_ops (Aware 0 0))
     ((sample_db QUEUED, sample_db QUEUED), new_fake_broker) (snd sample_run)"
  by (rule attempts.again [OF attempts.none, where i = 5 and x = "fst sample_run"
        and ?s0.0 = "(sample_db QUEUED, sample_db QUEUED)"])
    (simp_all add: sample_run_def)

theorem at_most_one_order_per_key_witness:
  "\<forall>k. fake_sent (snd (snd sample_run)) k \<le> 1"
proof -
  obtain s' b' where r: "snd sample_run = (s', b')" by fastforce
  from at_most_one_order_per_key [OF mem.sql_session_axioms fake.broker_adapter_axioms
      sample_attempt [unfolded r]]
  show ?thesis using r by (simp add: fake_sent_def new_fake_broker_def)
qed

text \<open>C4: No order reaches the broker without evidence: executing an order that lacks its risk
  decision or its approval raises, leaves the broker untouched and every stored order as it
  was.\<close>

theorem execution_requires_evidence:
  assumes "sql_session S live durable" and "broker_adapter B sent" and "live s = durable s"
    and "find_order i (durable s) = Some q" and "or_risk_decision_id q = None \<or> or_approval_id q = None"
    and "execute_on S B i (s, b) = (x, (s', b'))"
  shows "(\<exists>e. x = Inl e) \<and> b' = b \<and> find_order j (durable s') = find_order j (durable s)"
proof -
  note ex = execution_of [OF assms(1,2)]
  have ev: "\<not> has_evidence q" using assms(5) by (auto simp: has_evidence_def)
  have "b' = b \<and> (\<lambda>i. find_order i (durable s')) = (\<lambda>i. find_order i (durable s))"
    using execution.execute_idle [OF ex assms(6,3)] assms(4) ev by simp
  then show ?thesis using execution.execute_unproven [OF ex assms(6,3,4) ev] by (auto simp: fun_eq_iff)
qed

text \<open>C5: An execution that raises, for whatever reason (a broken session, a broker error, a
  result for another order, a transition the life cycle forbids, a cancellation), never leaves an
  order half written. Every committed order is exactly as it was; or the exception came from
  the database after a queued order with evidence had been sent, the connection being lost when
  the commit was under way, and then that order's row carries the broker's whole outcome and
  no other row changed.\<close>

theorem failed_execution_is_atomic:
  assumes "sql_session S live durable" and "broker_adapter B sent" and "live s = durable s"
    and "execute_on S B i (s, b) = (Inl e, (s', b'))"
  shows "(\<forall>j. find_order j (durable s') = find_order j (durable s)) \<or>
    (database_error e \<and>
     (\<exists>q n res. find_order i (durable s) = Some q \<and> or_state q = QUEUED \<and>
        or_risk_decision_id q \<noteq> None \<and> or_approval_id q \<noteq> None \<and>
        as_domain q = Inr n \<and> place_order B n b = (Inr res, b') \<and>
        (\<forall>j. find_order j (durable s') =
           (if j = i then Some (outcome_row res q) else find_order j (durable s)))))"
  using execution.execute_failed [OF execution_of [OF assms(1,2)] assms(4,3)]
  by (auto simp: fun_eq_iff has_evidence_def apply_result_outcome)

text \<open>C2: A normal return on a queued order is a commitment: the outcome it returns is in the
  database under that order, field by field (state, broker identifier, filled quantity, average
  price, request identifier, error code), and only that row changed; it carries the order's own
  key, the new state is one the life cycle reaches from the queue, and no later history of
  executions changes the row again.\<close>

theorem execution_commits_the_outcome:
  assumes "sql_session S live durable" and "broker_adapter B sent" and "live s = durable s"
    and "find_order i (durable s) = Some q" and "or_state q = QUEUED"
    and "execute_on S B i (s, b) = (Inr res, (s', b'))"
    and "attempts S live durable B (s', b') w"
  shows "find_order j (durable s') = (if j = i then Some (outcome_row res q) else find_order j (durable s)) \<and>
    br_client_order_id res = or_idempotency_key q \<and> order_step\<^sup>+\<^sup>+ QUEUED (br_state res) \<and>
    find_order i (durable (fst w)) = Some (outcome_row res q)"
proof -
  from execution.execute_stored [OF execution_of [OF assms(1,2)] assms(6,3,4,5)]
  have key: "br_client_order_id res = or_idempotency_key q" and st: "reportable QUEUED (br_state res)"
    and row: "(\<lambda>i. find_order i (durable s')) = (\<lambda>i. find_order i (durable s))(i \<mapsto> outcome_row res q)"
    by (auto simp: apply_result_outcome)
  have "or_state (outcome_row res q) \<noteq> QUEUED" using st by (auto simp: reportable_def)
  then have "find_order i (durable (fst w)) = Some (outcome_row res q)"
    using attempts_settled_row [OF assms(1,2,7), of i "outcome_row res q"] row by (simp add: fun_eq_iff)
  then show ?thesis using key reportable_steps [OF st] row by (auto simp: fun_eq_iff)
qed

definition unproven_db :: db where
  "unproven_db = \<lparr>db_orders = [(sample_order QUEUED)\<lparr>or_approval_id := None\<rparr>],
     db_audits = [], db_outbox = []\<rparr>"

theorem execution_requires_evidence_witness:
  "snd (snd (execute_on mem_session (fake_ops (Aware 0 0)) 5 ((unproven_db, unproven_db), new_fake_broker)))
     = new_fake_broker"
proof -
  obtain x s' b' where r: "execute_on mem_session (fake_ops (Aware 0 0)) 5
      ((unproven_db, unproven_db), new_fake_broker) = (x, (s', b'))"
    by (metis prod.exhaust)
  have "find_order 5 (snd (unproven_db, unproven_db)) =
      Some ((sample_order QUEUED)\<lparr>or_approval_id := None\<rparr>)"
    by (simp add: unproven_db_def find_order_def sample_order_def)
  from execution_requires_evidence [OF mem.sql_session_axioms fake.broker_adapter_axioms _ this _ r]
  show ?thesis using r by simp
qed

text \<open>The in-memory broker accepts the sample order.\<close>

lemma sample_contract: "intent_contract sample_intent"
  using sample_intent(1) by (rule as_domain_contract)

lemma sample_place:
  "is_aware now \<Longrightarrow> \<exists>b'. place_order (fake_ops now) sample_intent new_fake_broker = (Inr (fake_result 1 sample_intent), b')"
proof -
  assume now: "is_aware now"
  have f: "fake_lookup a k new_fake_broker = (Inr None, new_fake_broker)" for a k
    by (simp add: fake_lookup_def new_fake_broker_def)
  obtain x b' where s: "fake_submit now sample_intent new_fake_broker = (x, b')" by fastforce
  have "x = Inr (fake_result 1 sample_intent)"
    using s fake_submit_accepts [OF sample_contract now, of new_fake_broker]
    by (simp add: new_fake_broker_def)
  then show ?thesis using s
    by (simp add: place_order_def fake_ops_def io_bind_def f io_catch_def io_lift_def
        validate_result_identity_def fake_result_def)
qed

lemma sample_outcome_ok:
  "br_client_order_id (fake_result 1 sample_intent) = or_idempotency_key (sample_order QUEUED)"
  "reportable QUEUED (br_state (fake_result 1 sample_intent))"
  "order_row_ok (apply_result (fake_result 1 sample_intent) (sample_order QUEUED))"
proof -
  show "br_client_order_id (fake_result 1 sample_intent) = or_idempotency_key (sample_order QUEUED)"
    "reportable QUEUED (br_state (fake_result 1 sample_intent))"
    by (simp_all add: fake_result_def sample_intent reportable_def)
  show "order_row_ok (apply_result (fake_result 1 sample_intent) (sample_order QUEUED))"
    by (rule sample_apply_ok [OF fake_result_valid])
      (simp_all add: fake_result_def text_or_null_def str_nat.simps)
qed

lemma sample_executes:
  assumes "is_aware now"
  shows "\<exists>b'. execute_on mem_session (fake_ops now) 5 ((sample_db QUEUED, sample_db QUEUED), new_fake_broker) =
    (Inr (fake_result 1 sample_intent),
     ((put_order (apply_result (fake_result 1 sample_intent) (sample_order QUEUED)) (sample_db QUEUED),
       put_order (apply_result (fake_result 1 sample_intent) (sample_order QUEUED)) (sample_db QUEUED)), b'))"
proof -
  from sample_place [OF assms] obtain b' where
    p: "place_order (fake_ops now) sample_intent new_fake_broker = (Inr (fake_result 1 sample_intent), b')"
    by blast
  from mem_execute [OF sample_constraints sample_find _ _ sample_intent(1) p sample_outcome_ok]
  show ?thesis by simp
qed

theorem execution_commits_the_outcome_witness:
  "order_step\<^sup>+\<^sup>+ QUEUED (br_state (fake_result 1 sample_intent))"
proof -
  have now: "is_aware (Aware 0 0)" by simp
  from sample_executes [OF now] obtain d' b' where
    r: "execute_on mem_session (fake_ops (Aware 0 0)) 5 ((sample_db QUEUED, sample_db QUEUED), new_fake_broker)
      = (Inr (fake_result 1 sample_intent), ((d', d'), b'))" by blast
  have row: "find_order 5 (snd (sample_db QUEUED, sample_db QUEUED)) = Some (sample_order QUEUED)" by simp
  show ?thesis
    using execution_commits_the_outcome [OF mem.sql_session_axioms fake.broker_adapter_axioms
        _ row sample_evidence(2) r attempts.none] by simp
qed

text \<open>The same order on a connection that is lost at the commit: an exception, but a stored row.\<close>

lemma sample_cut:
  assumes "is_aware now"
  shows "\<exists>b'. execute_on cut_session (fake_ops now) 5 ((sample_db QUEUED, sample_db QUEUED), new_fake_broker) =
    (Inl (RuntimeError ''connection lost''),
     ((put_order (apply_result (fake_result 1 sample_intent) (sample_order QUEUED)) (sample_db QUEUED),
       put_order (apply_result (fake_result 1 sample_intent) (sample_order QUEUED)) (sample_db QUEUED)), b'))"
proof -
  from sample_place [OF assms] obtain b' where
    p: "place_order (fake_ops now) sample_intent new_fake_broker = (Inr (fake_result 1 sample_intent), b')"
    by blast
  let ?d = "sample_db QUEUED" and ?res = "fake_result 1 sample_intent"
  have l: "lock_for_execution cut_session 5 (?d, ?d) = (Inr (sample_order QUEUED), (?d, ?d))"
    by (simp add: lock_for_execution_def cut_session_def mem_session_def io_defs)
  have s: "save_broker_result cut_session 5 ?res (?d, ?d) = (Inl (RuntimeError ''connection lost''),
      (put_order (apply_result ?res (sample_order QUEUED)) ?d, put_order (apply_result ?res (sample_order QUEUED)) ?d))"
    by (rule cut_save) (use sample_outcome_ok sample_constraints in auto)
  have "execute_body (order_execution_repository cut_session) (fake_ops now) 5 ((?d, ?d), new_fake_broker) =
      (Inl (RuntimeError ''connection lost''),
       ((put_order (apply_result ?res (sample_order QUEUED)) ?d,
         put_order (apply_result ?res (sample_order QUEUED)) ?d), b'))"
    using sample_evidence(1) [of QUEUED] sample_intent(1) p
    by (auto simp add: execute_body_def order_execution_repository_def persist_result_def on_fst_def
        on_snd_def io_bind_def io_lift_def io_ret_def l s has_evidence_def simp del: One_nat_def)
  then show ?thesis
    by (simp add: execute_def Let_def io_bind_def io_catch_def io_raise_def on_fst_def
        order_execution_repository_def release_execution_lock_def cut_session_def mem_session_def)
qed

theorem failed_execution_is_atomic_witness:
  "\<exists>s' b' res. execute_on cut_session (fake_ops (Aware 0 0)) 5
      ((sample_db QUEUED, sample_db QUEUED), new_fake_broker) =
      (Inl (RuntimeError ''connection lost''), (s', b')) \<and>
    find_order 5 (snd s') = Some (outcome_row res (sample_order QUEUED))"
proof -
  have "is_aware (Aware 0 0)" by simp
  from sample_cut [OF this] obtain d' b' where
    r: "execute_on cut_session (fake_ops (Aware 0 0)) 5 ((sample_db QUEUED, sample_db QUEUED), new_fake_broker)
      = (Inl (RuntimeError ''connection lost''), ((d', d'), b'))"
    and d': "find_order 5 d' = Some (apply_result (fake_result 1 sample_intent) (sample_order QUEUED))"
    by fastforce
  have "or_state (apply_result (fake_result 1 sample_intent) (sample_order QUEUED)) \<noteq>
      or_state (sample_order QUEUED)"
    unfolding apply_result_simps sample_evidence by (simp add: fake_result_def)
  then have "find_order 5 d' \<noteq> find_order 5 (snd (sample_db QUEUED, sample_db QUEUED))"
    using d' by (auto simp del: apply_result_simps One_nat_def)
  then show ?thesis
    using failed_execution_is_atomic [OF cut.sql_session_axioms fake.broker_adapter_axioms _ r] r
    by auto
qed

text \<open>C3: An ambiguous timeout is recorded and never retried, on any session and any broker: when
  nothing was known under the key of a queued order, the submission times out and the broker
  still knows nothing, the execution returns an \<open>UNKNOWN\<close> result with the code
  \<open>AMBIGUOUS_TIMEOUT\<close> and the order's row is committed in that state; and executing the order
  again, in a new session after whatever other executions, leaves the broker and every order
  as they are and gives the same result. Only the database can raise instead, and then the
  row is as it was or has been recorded.\<close>

theorem ambiguous_timeout_is_recorded:
  assumes "sql_session S live durable" and "broker_adapter B sent" and "live s = durable s"
    and "find_order i (durable s) = Some q" and "or_state q = QUEUED"
    and "or_risk_decision_id q = Some rid" and "or_approval_id q = Some aid"
    and "as_domain q = Inr n"
    and "ba_lookup_by_client_order_id B (ei_account_id n) (ei_idempotency_key n) b = (Inr None, b\<^sub>1)"
    and "ba_submit B n b\<^sub>1 = (Inl (TimeoutError m), b\<^sub>2)"
    and "ba_lookup_by_client_order_id B (ei_account_id n) (ei_idempotency_key n) b\<^sub>2 = (Inr None, b\<^sub>3)"
    and "execute_on S B i (s, b) = (x, (s', b'))"
    and "unknown = q\<lparr>or_state := UNKNOWN, or_broker_order_id := None, or_filled_quantity := 0,
       or_average_price := None, or_broker_request_id := None, or_error_code := Some ''AMBIGUOUS_TIMEOUT''\<rparr>"
  shows "case x of
      Inl e \<Rightarrow> database_error e \<and> (find_order i (durable s') = Some q \<or> find_order i (durable s') = Some unknown)
    | Inr res \<Rightarrow>
        res = \<lparr>br_client_order_id = or_idempotency_key q, br_broker_order_id = None, br_state = UNKNOWN,
          br_filled_quantity = 0, br_average_price = None, br_broker_request_id = None,
          br_error_code = Some ''AMBIGUOUS_TIMEOUT''\<rparr> \<and>
        b' = b\<^sub>3 \<and> find_order i (durable s') = Some unknown \<and>
        (\<forall>w s2 y s3 b4. attempts S live durable B (s', b') w \<and> live s2 = durable s2 \<and>
           durable s2 = durable (fst w) \<and> execute_on S B i (s2, snd w) = (y, (s3, b4)) \<longrightarrow>
           b4 = snd w \<and> (\<forall>j. find_order j (durable s3) = find_order j (durable (fst w))) \<and>
           (y = Inr res \<or> (\<exists>e. y = Inl e \<and> database_error e)))"
proof -
  let ?a = "ambiguous_timeout n"
  note ex = execution_of [OF assms(1,2)]
  have ev: "has_evidence q" using assms(6,7) by (simp add: has_evidence_def)
  have key: "ei_idempotency_key n = or_idempotency_key q" using as_domain_key [OF assms(8)] by simp
  have p: "place_order B n b = (Inr ?a, b\<^sub>3)"
    using assms(9-11) by (simp add: place_order_def after_timeout_def io_bind_def io_catch_def io_lift_def)
  have st: "br_client_order_id ?a = or_idempotency_key q" "reportable QUEUED (br_state ?a)"
    using key by (simp_all add: ambiguous_timeout_def reportable_def)
  have unknown: "apply_result ?a q = unknown" "outcome_row ?a q = unknown"
    by (simp_all add: apply_result_outcome outcome_row_def ambiguous_timeout_def assms(13))
  consider e where "x = Inl e" "database_error e" | "x = Inr ?a"
    using execution.execute_placed [OF ex assms(12,3,4) ev assms(5,8) p st] by blast
  then show ?thesis
  proof cases
    case 1
    then show ?thesis
      using execution.execute_failed [OF ex assms(12) [unfolded 1(1)] assms(3)] assms(4,8) p unknown
      by (auto simp: fun_eq_iff)
  next
    case 2
    have stored: "b' = b\<^sub>3" "find_order i (durable s') = Some unknown"
      using execution.execute_stored [OF ex assms(12) [unfolded 2] assms(3,4,5)] assms(8) p unknown
      by (auto simp: fun_eq_iff)
    have u: "has_evidence unknown" "or_state unknown = UNKNOWN" "as_broker_result unknown = Inr ?a"
      using ev outcome_row_reread [OF st(1)] unknown(2) by (auto simp: assms(13) has_evidence_def)
    have later: "b4 = snd w \<and> (\<forall>j. find_order j (durable s3) = find_order j (durable (fst w))) \<and>
        (y = Inr ?a \<or> (\<exists>e. y = Inl e \<and> database_error e))"
      if "attempts S live durable B (s', b') w" "live s2 = durable s2" "durable s2 = durable (fst w)"
        "execute_on S B i (s2, snd w) = (y, (s3, b4))" for w s2 y s3 b4
    proof -
      have "find_order i (durable s2) = Some unknown"
        using attempts_settled_row [OF assms(1,2) that(1) stored(2)] u that(3) by simp
      from execution.execute_settled [OF ex that(4,2) this u(1) _ u(3)] show ?thesis
        using u(2) that(3) by (simp add: fun_eq_iff)
    qed
    have "?a = \<lparr>br_client_order_id = or_idempotency_key q, br_broker_order_id = None, br_state = UNKNOWN,
        br_filled_quantity = 0, br_average_price = None, br_broker_request_id = None,
        br_error_code = Some ''AMBIGUOUS_TIMEOUT''\<rparr>"
      by (simp add: ambiguous_timeout_def key)
    then show ?thesis unfolding 2 sum.case using stored later by metis
  qed
qed

definition silent_broker :: "nat broker_ops" where
  "silent_broker =
     \<lparr>ba_submit = (\<lambda>i n. (Inl (TimeoutError ''mt5''), Suc n)),
      ba_lookup_by_client_order_id = (\<lambda>a k n. (Inr None, n)),
      ba_modify_position_sltp = (\<lambda>a p x y n. (Inl (TimeoutError ''mt5''), n)),
      ba_close_position = (\<lambda>a p q n. (Inl (TimeoutError ''mt5''), n)),
      ba_list_positions = (\<lambda>a n. (Inr [], n))\<rparr>"

lemma silent_contract: "broker_adapter silent_broker (\<lambda>n k. 0)"
  by unfold_locales (auto simp: silent_broker_def)

theorem ambiguous_timeout_is_recorded_witness:
  "\<exists>d' n. execute_on mem_session silent_broker 5 ((sample_db QUEUED, sample_db QUEUED), 0) =
     (Inr (ambiguous_timeout sample_intent), ((d', d'), n)) \<and> n = 1 \<and>
     or_state (the (find_order 5 d')) = UNKNOWN \<and>
     snd (snd (execute_on mem_session silent_broker 5 ((d', d'), n))) = 1"
proof -
  have p: "place_order silent_broker sample_intent 0 = (Inr (ambiguous_timeout sample_intent), 1)"
    by (simp add: place_order_def after_timeout_def silent_broker_def io_bind_def io_catch_def io_lift_def)
  have "order_row_ok (apply_result (ambiguous_timeout sample_intent) (sample_order QUEUED))"
    by (rule sample_apply_ok [OF ambiguous_timeout_valid])
      (simp_all add: ambiguous_timeout_def text_or_null_def)
  from mem_execute [OF sample_constraints sample_find _ _ sample_intent(1) p _ _ this]
  obtain d' where r: "execute_on mem_session silent_broker 5 ((sample_db QUEUED, sample_db QUEUED), 0) =
      (Inr (ambiguous_timeout sample_intent), ((d', d'), 1))"
    by (auto simp: ambiguous_timeout_def sample_intent reportable_def)
  obtain y s3 b4 where r2: "execute_on mem_session silent_broker 5 ((d', d'), 1) = (y, (s3, b4))"
    by (metis prod.exhaust)
  have h: "find_order 5 (snd (sample_db QUEUED, sample_db QUEUED)) = Some (sample_order QUEUED)"
    "or_risk_decision_id (sample_order QUEUED) = Some 7" "or_approval_id (sample_order QUEUED) = Some 8"
    "ba_lookup_by_client_order_id silent_broker a k c = (Inr None, c)"
    "ba_submit silent_broker j c = (Inl (TimeoutError ''mt5''), Suc c)" for a k c j
    by (simp_all add: silent_broker_def sample_order_def)
  have again: "attempts mem_session fst snd silent_broker ((d', d'), 1) ((d', d'), 1)"
    by (rule attempts.none)
  note t = ambiguous_timeout_is_recorded [OF mem.sql_session_axioms silent_contract _ h(1)
      sample_evidence(2) h(2,3) sample_intent(1) h(4) h(5) h(4) r refl, unfolded sum.case snd_conv fst_conv,
      OF refl, THEN conjunct2, THEN conjunct2]
  have "or_state (the (find_order 5 d')) = UNKNOWN" using t [THEN conjunct1] by simp
  moreover have "b4 = 1"
    using t [THEN conjunct2, rule_format, of "((d', d'), 1)" "(d', d')" y s3 b4] again r2 by simp
  ultimately show ?thesis using r r2 by simp
qed

end
