(* ===== verification/Execution_Worker.thy ===== *)
theory Execution_Worker
  imports Execution_Safety
begin

text \<open>
  \<open>workers/executor.py\<close> and \<open>application/outbox_dispatcher.py\<close>: the loops that take events
  off the outbox. What the worker is given (a way to open the outbox, the outbox operations,
  the execution of an intent) is a record of operations; the locale \<open>outbox_queue\<close> states
  what it relies on, and the repositories of the sources provide it.
\<close>

section \<open>The worker\<close>

definition EXECUTION_TOPIC :: string where
  "EXECUTION_TOPIC = ''execution.intent.ready''"

text \<open>\<open>TERMINAL_ERRORS = (LookupError, PermissionError)\<close>, subclasses included.\<close>

definition terminal_error :: "exn \<Rightarrow> bool" where
  "terminal_error e \<longleftrightarrow> is_lookup_error e \<or> is_permission_error e"

definition read_intent_id :: "outbox_event \<Rightarrow> uuid option" where
  "read_intent_id event =
     (case ev_payload event of
        JObject payload \<Rightarrow>
          (case json_get payload ''intent_id'' of
             Some (JString raw) \<Rightarrow> parse_uuid raw
           | _ \<Rightarrow> None)
      | _ \<Rightarrow> None)"

record 'w worker_ops =
  wo_open :: "(unit, 'w) io"
  wo_close :: "(unit, 'w) io"
  wo_claim :: "nat \<Rightarrow> string option \<Rightarrow> (outbox_event list, 'w) io"
  wo_mark_published :: "string \<Rightarrow> (unit, 'w) io"
  wo_rollback :: "(unit, 'w) io"
  wo_execute_intent :: "uuid \<Rightarrow> (unit, 'w) io"

text \<open>\<open>async with\<close>: open, run, close in every case.\<close>

definition with_outbox :: "'w worker_ops \<Rightarrow> ('a, 'w) io \<Rightarrow> ('a, 'w) io" where
  "with_outbox W body = io_bind (wo_open W) (\<lambda>_. io_finally body (wo_close W))"

text \<open>
  The handling of one event. The flag of the inner block says that the handler has already
  consumed the event.
\<close>

definition handle_event :: "'w worker_ops \<Rightarrow> outbox_event \<Rightarrow> (bool, 'w) io" where
  "handle_event W event =
     (case read_intent_id event of
        None \<Rightarrow> io_bind (wo_mark_published W (ev_id event)) (\<lambda>_. io_ret True)
      | Some intent_id \<Rightarrow>
          io_bind
            (io_catch
               (io_bind (wo_execute_intent W intent_id) (\<lambda>_. io_ret False))
               (\<lambda>e. if terminal_error e then
                       io_bind (wo_mark_published W (ev_id event)) (\<lambda>_. io_ret True)
                     else if is_exception e then
                       io_bind (wo_rollback W) (\<lambda>_. io_raise e)
                     else io_raise e))
            (\<lambda>consumed.
               if consumed then io_ret True
               else io_bind (wo_mark_published W (ev_id event)) (\<lambda>_. io_ret True)))"

definition process_one :: "'w worker_ops \<Rightarrow> (bool, 'w) io" where
  "process_one W =
     with_outbox W
       (io_bind (wo_claim W 1 (Some EXECUTION_TOPIC)) (\<lambda>events.
          case events of [] \<Rightarrow> io_ret False | event # _ \<Rightarrow> handle_event W event))"

text \<open>\<open>run_once\<close>: \<open>remaining\<close> is \<open>limit - processed\<close>.\<close>

fun run_loop :: "'w worker_ops \<Rightarrow> nat \<Rightarrow> nat \<Rightarrow> (nat, 'w) io" where
  "run_loop W 0 processed = io_ret processed"
| "run_loop W (Suc remaining) processed =
     io_bind (process_one W) (\<lambda>handled.
       if \<not> handled then io_ret processed else run_loop W remaining (processed + 1))"

definition run_once :: "'w worker_ops \<Rightarrow> nat \<Rightarrow> (nat, 'w) io" where
  "run_once W limit = run_loop W limit 0"

text \<open>
  \<open>run_forever\<close>: the list is what \<open>stop.is_set()\<close> answers at each turn; waiting (the poll
  interval, the back-off) has no effect on the state.
\<close>

fun run_forever :: "'w worker_ops \<Rightarrow> bool list \<Rightarrow> (unit, 'w) io" where
  "run_forever W [] = io_ret ()"
| "run_forever W (stopped # answers) =
     (if stopped then io_ret ()
      else io_bind
        (io_catch (io_bind (run_once W 10) (\<lambda>_. io_ret ()))
           (\<lambda>e. if is_exception e then io_ret () else io_raise e))
        (\<lambda>_. run_forever W answers))"

section \<open>The dispatcher\<close>

record 'w dispatcher_ops =
  dp_claim :: "nat \<Rightarrow> (outbox_event list, 'w) io"
  dp_mark_published :: "string \<Rightarrow> (unit, 'w) io"
  dp_rollback :: "(unit, 'w) io"
  dp_publish :: "string \<Rightarrow> string \<Rightarrow> json \<Rightarrow> (string, 'w) io"

fun dispatch_loop :: "'w dispatcher_ops \<Rightarrow> nat \<Rightarrow> nat \<Rightarrow> (nat, 'w) io" where
  "dispatch_loop D 0 count = io_ret count"
| "dispatch_loop D (Suc remaining) count =
     io_bind (dp_claim D 1) (\<lambda>events.
       case events of
         [] \<Rightarrow> io_ret count
       | event # _ \<Rightarrow>
           io_bind
             (io_catch
                (io_bind (dp_publish D (ev_topic event) (ev_message_key event) (ev_payload event))
                   (\<lambda>_. io_ret ()))
                (\<lambda>e. io_bind (dp_rollback D) (\<lambda>_. io_raise e))) (\<lambda>_.
           io_bind (dp_mark_published D (ev_id event)) (\<lambda>_.
           dispatch_loop D remaining (count + 1))))"

definition dispatch_batch :: "'w dispatcher_ops \<Rightarrow> nat \<Rightarrow> (nat, 'w) io" where
  "dispatch_batch D limit = dispatch_loop D limit 0"

definition dispatch_once :: "'w dispatcher_ops \<Rightarrow> nat \<Rightarrow> (nat, 'w) io" where
  "dispatch_once D limit = dispatch_batch D limit"

section \<open>The queue the worker relies on\<close>

text \<open>
  \<open>pending w\<close> are the committed, unpublished events of the worker's topic, oldest first;
  \<open>opened w\<close> says that the outbox transaction sees the committed table; \<open>attempted w\<close> lists
  the intents handed to the execution so far, with what became of them. An outcome settles an
  intent when the execution succeeded or failed in a way that no retry can change. A marking that
  raises may have been committed.
\<close>

definition settled :: "unit result \<Rightarrow> bool" where
  "settled y \<longleftrightarrow> (case y of Inr _ \<Rightarrow> True | Inl e \<Rightarrow> terminal_error e)"

locale outbox_queue =
  fixes W :: "'w worker_ops" and pending :: "'w \<Rightarrow> outbox_event list"
    and opened :: "'w \<Rightarrow> bool" and attempted :: "'w \<Rightarrow> (uuid \<times> unit result) list"
  assumes open_frame: "wo_open W w = (x, w') \<Longrightarrow> pending w' = pending w \<and> attempted w' = attempted w"
    and open_opens: "wo_open W w = (Inr x', w') \<Longrightarrow> opened w'"
    and close_frame: "wo_close W w = (x, w') \<Longrightarrow> pending w' = pending w \<and> attempted w' = attempted w"
    and claim_frame: "wo_claim W n t w = (y, w') \<Longrightarrow> pending w' = pending w \<and> attempted w' = attempted w"
    and claim_first: "opened w \<Longrightarrow> wo_claim W 1 (Some EXECUTION_TOPIC) w = (Inr es, w') \<Longrightarrow>
      es = take 1 (pending w) \<and> opened w'"
    and execute_logs: "wo_execute_intent W i w = (x, w') \<Longrightarrow>
      pending w' = pending w \<and> attempted w' = attempted w @ [(i, x)] \<and> opened w' = opened w"
    and mark_removes: "opened w \<Longrightarrow> e \<in> set (pending w) \<Longrightarrow> wo_mark_published W (ev_id e) w = (Inr x', w') \<Longrightarrow>
      pending w' = filter (\<lambda>f. ev_id f \<noteq> ev_id e) (pending w)"
    and mark_failed: "opened w \<Longrightarrow> e \<in> set (pending w) \<Longrightarrow> wo_mark_published W (ev_id e) w = (Inl ex, w') \<Longrightarrow>
      pending w' = pending w \<or> pending w' = filter (\<lambda>f. ev_id f \<noteq> ev_id e) (pending w)"
    and mark_frame: "wo_mark_published W k w = (x, w') \<Longrightarrow> attempted w' = attempted w"
    and rollback_frame: "wo_rollback W w = (x, w') \<Longrightarrow> pending w' = pending w \<and> attempted w' = attempted w"
begin

text \<open>
  How one event ends: consumed, which needs a payload that names no intent or a settled
  execution, or kept because of an exception (which may also come after the event was consumed).
\<close>

definition done_with :: "outbox_event \<Rightarrow> (uuid \<times> unit result) list \<Rightarrow> bool" where
  "done_with e xs \<longleftrightarrow> read_intent_id e = None \<or>
     (\<exists>i y. read_intent_id e = Some i \<and> (i, y) \<in> set xs \<and> settled y)"

lemma done_with_append: "done_with e xs \<Longrightarrow> done_with e (xs @ ys)"
  "done_with e ys \<Longrightarrow> done_with e (xs @ ys)"
  by (auto simp: done_with_def)

definition ended :: "outbox_event \<Rightarrow> (uuid \<times> unit result) list \<Rightarrow> 'w \<Rightarrow> bool result \<Rightarrow> 'w \<Rightarrow> bool" where
  "ended e tried w x w' \<longleftrightarrow>
     attempted w' = attempted w @ tried \<and>
     (case x of
        Inl _ \<Rightarrow> pending w' = pending w \<or>
          done_with e tried \<and> pending w' = filter (\<lambda>f. ev_id f \<noteq> ev_id e) (pending w)
      | Inr handled \<Rightarrow> handled \<and> done_with e tried \<and>
          pending w' = filter (\<lambda>f. ev_id f \<noteq> ev_id e) (pending w))"

lemma mark_ends:
  assumes "io_bind (wo_mark_published W (ev_id e)) (\<lambda>_. io_ret True) w1 = (x, w')"
    and "opened w1" "e \<in> set (pending w)" "pending w1 = pending w" "attempted w1 = attempted w @ tried"
    and "done_with e tried"
  shows "ended e tried w x w'"
proof -
  obtain y w2 where m: "wo_mark_published W (ev_id e) w1 = (y, w2)" by fastforce
  show ?thesis
  proof (cases y)
    case (Inl ex)
    then show ?thesis using assms m mark_failed [of w1 e ex w2] mark_frame [OF m]
      by (auto simp add: ended_def io_bind_def)
  next
    case (Inr u)
    then show ?thesis using assms m mark_removes [of w1 e u w2] mark_frame [OF m]
      by (auto simp add: ended_def io_bind_def io_ret_def)
  qed
qed

lemma handle_event_cases:
  assumes run: "handle_event W e w = (x, w')" and o: "opened w" "e \<in> set (pending w)"
  shows "\<exists>tried. ended e tried w x w'"
proof (cases "read_intent_id e")
  case None
  then have "ended e [] w x w'"
    using run o mark_ends [of e w x w' w "[]"] by (simp add: handle_event_def done_with_def)
  then show ?thesis ..
next
  case (Some i)
  obtain y w1 where e: "wo_execute_intent W i w = (y, w1)" by fastforce
  note fr = execute_logs [OF e]
  have mark: "io_bind (wo_mark_published W (ev_id e)) (\<lambda>_. io_ret True) w1 = (x, w') \<Longrightarrow> settled y \<Longrightarrow>
      ended e [(i, y)] w x w'"
    using mark_ends [of e w1 x w' w "[(i, y)]"] fr o Some by (simp add: done_with_def)
  show ?thesis
  proof (cases y)
    case (Inr r)
    then have "io_bind (wo_mark_published W (ev_id e)) (\<lambda>_. io_ret True) w1 = (x, w')"
      using run Some e by (simp add: handle_event_def io_bind_def [of "io_catch _ _"] io_catch_def
          io_bind_def [of "wo_execute_intent W i"] io_ret_def [of False])
    from mark [OF this] show ?thesis using Inr by (auto simp: settled_def)
  next
    case (Inl ex)
    consider (terminal) "terminal_error ex" | (transient) "\<not> terminal_error ex" "is_exception ex"
      | (cancelled) "\<not> terminal_error ex" "\<not> is_exception ex" by blast
    then show ?thesis
    proof cases
      case terminal
      then have "io_bind (wo_mark_published W (ev_id e)) (\<lambda>_. io_ret True) w1 = (x, w')"
        using run Some e Inl
        by (auto simp: handle_event_def io_bind_def io_catch_def io_ret_def split: prod.splits sum.splits)
      from mark [OF this] show ?thesis using Inl terminal by (auto simp: settled_def)
    next
      case transient
      obtain z w2 where rb: "wo_rollback W w1 = (z, w2)" by fastforce
      then have "w' = w2" "\<exists>e'. x = Inl e'"
        using transient run Some e Inl
        by (auto simp: handle_event_def io_bind_def io_catch_def io_raise_def split: sum.splits)
      then have "ended e [(i, y)] w x w'" using rollback_frame [OF rb] fr by (auto simp: ended_def)
      then show ?thesis ..
    next
      case cancelled
      then have "w' = w1" "x = Inl ex"
        using run Some e Inl by (simp_all add: handle_event_def io_bind_def io_catch_def io_raise_def)
      then have "ended e [(i, y)] w x w'" using fr by (auto simp: ended_def)
      then show ?thesis ..
    qed
  qed
qed

text \<open>One turn: nothing pending, or the first event ended; closing may still raise.\<close>

lemma process_one_cases:
  assumes "process_one W w = (x, w')"
  obtains (unopened) e where "x = Inl e" "pending w' = pending w" "attempted w' = attempted w"
  | (idle) "pending w = []" "pending w' = []" "attempted w' = attempted w" "\<forall>b. x = Inr b \<longrightarrow> \<not> b"
  | (ended) e es y tried where "pending w = e # es" "attempted w' = attempted w @ tried"
      "(case y of Inl _ \<Rightarrow> pending w' = pending w \<or>
            done_with e tried \<and> pending w' = filter (\<lambda>f. ev_id f \<noteq> ev_id e) (pending w)
        | Inr handled \<Rightarrow> handled \<and> done_with e tried \<and>
            pending w' = filter (\<lambda>f. ev_id f \<noteq> ev_id e) (pending w))"
      "x = y \<or> (\<exists>ex. x = Inl ex)"
proof -
  obtain a w1 where op: "wo_open W w = (a, w1)" by fastforce
  note f1 = open_frame [OF op]
  show thesis
  proof (cases a)
    case (Inl ex)
    then show thesis using assms op f1
      by (intro unopened) (auto simp: process_one_def with_outbox_def io_bind_def)
  next
    case (Inr u)
    note o1 = open_opens [OF op [unfolded Inr]]
    let ?body = "io_bind (wo_claim W 1 (Some EXECUTION_TOPIC)) (\<lambda>events.
          case events of [] \<Rightarrow> io_ret False | event # _ \<Rightarrow> handle_event W event)"
    obtain y w2 where b: "?body w1 = (y, w2)" by fastforce
    obtain z w3 where cl: "wo_close W w2 = (z, w3)" by fastforce
    note f3 = close_frame [OF cl]
    have out: "w' = w3" "x = y \<or> (\<exists>ex. x = Inl ex)"
      using assms op Inr b cl
      by (auto simp: process_one_def with_outbox_def io_bind_def [of "wo_open W"] io_finally_def
          split: sum.splits)
    obtain c w4 where cm: "wo_claim W 1 (Some EXECUTION_TOPIC) w1 = (c, w4)" by fastforce
    note f4 = claim_frame [OF cm]
    show thesis
    proof (cases c)
      case (Inl ex)
      then have y: "y = Inl ex" "w2 = w4" using b cm by (simp_all add: io_bind_def)
      then obtain ex' where "x = Inl ex'" using out by blast
      then show thesis using y out f1 f3 f4 by (intro unopened [of ex']) auto
    next
      case (Inr es)
      note cl1 = claim_first [OF o1 cm [unfolded Inr]]
      show thesis
      proof (cases "pending w1")
        case Nil
        then have "y = Inr False" "w2 = w4" using b cm Inr cl1 by (simp_all add: io_bind_def io_ret_def)
        then show thesis using out f1 f3 f4 Nil by (intro idle) auto
      next
        case (Cons e es')
        then have "handle_event W e w4 = (y, w2)" using b cm Inr cl1 by (simp add: io_bind_def)
        from handle_event_cases [OF this] obtain tried where "ended e tried w4 y w2"
          using cl1 f4 Cons by auto
        then show thesis using out f1 f3 f4 Cons
          by (intro ended [of e es' tried y]) (auto simp: ended_def split: sum.splits)
      qed
    qed
  qed
qed

text \<open>
  No event is lost: it stays pending, or its intent has a settled execution, or its payload
  names no intent.
\<close>

definition accounted :: "outbox_event \<Rightarrow> 'w \<Rightarrow> bool" where
  "accounted e w \<longleftrightarrow> e \<in> set (pending w) \<or> done_with e (attempted w)"

definition unique_events :: "'w \<Rightarrow> bool" where
  "unique_events w \<longleftrightarrow> distinct (map ev_id (pending w))"

lemma unique_filter:
  "distinct (map ev_id (e # es)) \<Longrightarrow> filter (\<lambda>f. ev_id f \<noteq> ev_id e) (e # es) = es"
  by (auto simp: filter_id_conv rev_image_eqI)

lemma process_one_pending:
  assumes "process_one W w = (x, w')" "unique_events w"
  shows "pending w' = pending w \<or> pending w' = tl (pending w)"
    and "x = Inr True \<Longrightarrow> pending w \<noteq> [] \<and> pending w' = tl (pending w)"
    and "x = Inr False \<Longrightarrow> pending w = [] \<and> pending w' = []"
  using assms(1)
  by (cases rule: process_one_cases;
      use assms(2) unique_filter in \<open>force simp: unique_events_def split: sum.splits\<close>)+

lemma process_one_unique:
  assumes "process_one W w = (x, w')" "unique_events w"
  shows "unique_events w'"
  using process_one_pending(1) [OF assms] assms(2)
  by (auto simp: unique_events_def map_tl distinct_tl)

lemma process_one_accounts:
  assumes "process_one W w = (x, w')" "unique_events w" "accounted e w"
  shows "accounted e w'"
  using assms(1)
proof (cases rule: process_one_cases)
  case (ended f fs y tried)
  then have "pending w' = pending w \<or> pending w' = fs \<and> done_with f tried"
    using unique_filter [of f fs] assms(2) by (auto simp: unique_events_def split: sum.splits)
  then show ?thesis using ended assms(3) by (auto simp: accounted_def intro: done_with_append)
qed (use assms(3) in \<open>auto simp: accounted_def\<close>)

lemma run_loop_step:
  assumes "run_loop W (Suc n) k w = (x, w')"
  obtains (raised) e where "process_one W w = (Inl e, w')" "x = Inl e"
  | (empty) "process_one W w = (Inr False, w')" "x = Inr k"
  | (more) w1 where "process_one W w = (Inr True, w1)" "run_loop W n (k + 1) w1 = (x, w')"
proof -
  obtain y w1 where p: "process_one W w = (y, w1)" by fastforce
  show thesis
  proof (cases y)
    case (Inl e)
    then show thesis using assms p by (intro raised) (auto simp: io_bind_def)
  next
    case (Inr handled)
    then show thesis using assms p empty more
      by (cases handled) (auto simp: io_bind_def io_ret_def)
  qed
qed

lemma run_loop_accounts:
  assumes "run_loop W n k w = (x, w')" "unique_events w" "accounted e w"
  shows "accounted e w' \<and> unique_events w'"
  using assms
proof (induction n arbitrary: k w)
  case 0
  then show ?case by (simp add: io_ret_def)
next
  case (Suc n)
  from Suc.prems(1) show ?case
  proof (cases rule: run_loop_step)
    case (more w1)
    then show ?thesis
      using Suc process_one_accounts process_one_unique by blast
  qed (use Suc.prems process_one_accounts process_one_unique in blast)+
qed

text \<open>A normal return processed the first events, as many as the limit allows.\<close>

lemma run_loop_Inr:
  assumes "run_loop W n k w = (Inr m, w')" "unique_events w"
  shows "m = k + min n (length (pending w)) \<and> pending w' = drop n (pending w)"
  using assms
proof (induction n arbitrary: k w)
  case 0
  then show ?case by (auto simp: io_ret_def)
next
  case (Suc n)
  from Suc.prems(1) show ?case
  proof (cases rule: run_loop_step)
    case empty
    then show ?thesis using process_one_pending(3) [OF empty(1) Suc.prems(2)] by simp
  next
    case (more w1)
    note p = process_one_pending(2) [OF more(1) Suc.prems(2) refl]
    have "m = k + 1 + min n (length (pending w1)) \<and> pending w' = drop n (pending w1)"
      using Suc.IH [OF more(2) process_one_unique [OF more(1) Suc.prems(2)]] .
    then show ?thesis using p by (cases "pending w") auto
  qed simp
qed

end


section \<open>The repositories as the worker's queue\<close>

text \<open>
  The outbox is a session of its own; the log of the executions and their outcomes is part of
  the state so that it can be spoken about.
\<close>

type_synonym ('s, 'r, 'b) worker_world = "('s \<times> ('r \<times> 'b)) \<times> (uuid \<times> unit result) list"

definition log_and_execute ::
  "'r execution_repository_ops \<Rightarrow> 'b broker_ops \<Rightarrow> uuid \<Rightarrow> (unit, ('s, 'r, 'b) worker_world) io" where
  "log_and_execute Rp B i w =
     (case execute Rp B i (snd (fst w)) of
        (y, u) \<Rightarrow>
          let x = map_sum id (\<lambda>_. ()) y in (x, ((fst (fst w), u), snd w @ [(i, x)])))"

definition session_worker ::
  "'s session_ops \<Rightarrow> pydatetime \<Rightarrow> 'r execution_repository_ops \<Rightarrow> 'b broker_ops \<Rightarrow>
     ('s, 'r, 'b) worker_world worker_ops" where
  "session_worker S now Rp B =
     \<lparr>wo_open = on_fst (on_fst (ss_rollback S)), wo_close = on_fst (on_fst (ss_rollback S)),
      wo_claim = (\<lambda>n t. on_fst (on_fst (claim S n t))),
      wo_mark_published = (\<lambda>k. on_fst (on_fst (mark_published S now k))),
      wo_rollback = on_fst (on_fst (outbox_rollback S)),
      wo_execute_intent = log_and_execute Rp B\<rparr>"

definition committed_events :: "db \<Rightarrow> outbox_event list" where
  "committed_events d = map event_of (unpublished (Some EXECUTION_TOPIC) d)"

lemma unpublished_put:
  assumes "find_outbox u d = Some r"
  shows "unpublished t (put_outbox (r\<lparr>ob_published_at := Some now\<rparr>) d) =
    filter (\<lambda>x. ob_id x \<noteq> u) (unpublished t d)"
proof -
  have u: "ob_id r = u" using assms by (auto simp: find_outbox_def find_Some_iff)
  have "filter P (map (\<lambda>x. if ob_id x = u then q else x) xs) = filter (\<lambda>x. ob_id x \<noteq> u) (filter P xs)"
    if "\<not> P q" for P :: "outbox_record \<Rightarrow> bool" and q xs
    using that by (induction xs) auto
  then show ?thesis by (simp add: unpublished_def put_outbox_def u filter_sort)
qed

lemma str_uuid_eq [simp]: "str_uuid u = str_uuid v \<longleftrightarrow> u = v"
  using str_uuid_inj by blast

lemma committed_events_put:
  assumes "find_outbox u d = Some r"
  shows "committed_events (put_outbox (r\<lparr>ob_published_at := Some now\<rparr>) d) =
    filter (\<lambda>e. ev_id e \<noteq> str_uuid u) (committed_events d)"
  by (simp add: committed_events_def unpublished_put [OF assms] filter_map o_def event_of_def)

lemma committed_event_id: "e \<in> set (committed_events d) \<Longrightarrow> \<exists>u. ev_id e = str_uuid u"
  by (auto simp: committed_events_def event_of_def)

lemma lift_twice:
  "on_fst (on_fst m) w = (x, w') \<longleftrightarrow>
     (\<exists>s'. m (fst (fst w)) = (x, s') \<and> w' = ((s', snd (fst w)), snd w))"
  by (auto simp: on_fst_def split: prod.splits)

lemma log_and_execute_frame:
  "log_and_execute Rp B i w = (x, w') \<Longrightarrow> fst (fst w') = fst (fst w) \<and> snd w' = snd w @ [(i, x)]"
  by (auto simp: log_and_execute_def Let_def split: prod.splits)

sublocale sql_session \<subseteq> worker: outbox_queue "session_worker S now Rp B"
    "\<lambda>w. committed_events (durable (fst (fst w)))" "\<lambda>w. live (fst (fst w)) = durable (fst (fst w))" snd
  for now :: pydatetime and Rp :: "'r execution_repository_ops" and B :: "'b broker_ops"
proof (unfold_locales, goal_cases)
  case (1 w x w') then show ?case by (auto simp: session_worker_def lift_twice dest: durable_rollback)
next
  case (2 w x' w')
  then obtain s' where "ss_rollback S (fst (fst w)) = (Inr x', s')" "w' = ((s', snd (fst w)), snd w)"
    by (auto simp: session_worker_def lift_twice)
  then show ?case using rollback [of "fst (fst w)" s'] durable_rollback [of "fst (fst w)" "Inr x'" s']
    by simp
next
  case (3 w x w') then show ?case by (auto simp: session_worker_def lift_twice dest: durable_rollback)
next
  case (4 n t w y w') then show ?case
    by (auto simp: session_worker_def lift_twice dest: keepsD [OF keeps_claim refl])
next
  case (5 w es w')
  then obtain s' where c: "claim S 1 (Some EXECUTION_TOPIC) (fst (fst w)) = (Inr es, s')"
    and w': "w' = ((s', snd (fst w)), snd w)" by (auto simp: session_worker_def lift_twice)
  show ?case using claim_ok [OF c] keepsD [OF keeps_claim refl c] 5(1) w'
    by (simp add: committed_events_def take_map)
next
  case (6 i w x w') then show ?case
    using log_and_execute_frame [of Rp B i w x w'] by (simp add: session_worker_def)
next
  case (7 w e x' w')
  then obtain s' u where m: "mark_published S now (str_uuid u) (fst (fst w)) = (Inr x', s')"
    and w': "w' = ((s', snd (fst w)), snd w)" "ev_id e = str_uuid u"
    by (auto simp: session_worker_def lift_twice dest!: committed_event_id)
  obtain r where "find_outbox u (live (fst (fst w))) = Some r"
    "durable s' = put_outbox (r\<lparr>ob_published_at := Some now\<rparr>) (live (fst (fst w)))"
    using mark_ok [of now u "fst (fst w)" s'] m by auto
  then show ?case using 7(1) w' by (simp add: committed_events_put)
next
  case (8 w e ex w')
  then obtain s' u where m: "mark_published S now (str_uuid u) (fst (fst w)) = (Inl ex, s')"
    and w': "w' = ((s', snd (fst w)), snd w)" "ev_id e = str_uuid u"
    by (auto simp: session_worker_def lift_twice dest!: committed_event_id)
  then show ?case using 8(1) mark_failed [OF m] by (auto simp: committed_events_put)
next
  case (9 k w x w') then show ?case by (auto simp: session_worker_def lift_twice)
next
  case (10 w x w') then show ?case
    by (auto simp: session_worker_def lift_twice outbox_rollback_def dest: durable_rollback)
qed


context sql_session
begin

lemma worker_queue:
  "outbox_queue (session_worker S now Rp B) (\<lambda>w. committed_events (durable (fst (fst w))))
     (\<lambda>w. live (fst (fst w)) = durable (fst (fst w))) snd"
  by (rule worker.outbox_queue_axioms)

end

end
