(* ===== verification/Risk_Engine.thy ===== *)
theory Risk_Engine
  imports Domain_Decisions
begin

text \<open>
  \<open>application/risk_engine.py\<close>: rules are grouped by metric; a metric without a limit
  rejects the order (the engine fails closed); otherwise every metric whose actual value
  exceeds the tightest of its limits is a violation.
\<close>

definition group_limits :: "risk_rule list \<Rightarrow> (risk_metric \<times> dec list) list" where
  "group_limits rules =
     foldl (\<lambda>g r. dict_set (rr_metric r)
                   ((case dict_get g (rr_metric r) of None \<Rightarrow> [] | Some ls \<Rightarrow> ls) @ [rr_limit r]) g)
       [] rules"

definition risk_actual :: "risk_context \<Rightarrow> risk_metric \<Rightarrow> dec" where
  "risk_actual c m =
     (case m of
        ORDER_NOTIONAL \<Rightarrow> rc_order_notional c
      | ACCOUNT_CAPITAL \<Rightarrow> rc_account_capital c
      | SYMBOL_WEIGHT \<Rightarrow> rc_resulting_symbol_weight c
      | DAILY_LOSS \<Rightarrow> rc_daily_loss c
      | MAX_DRAWDOWN \<Rightarrow> rc_drawdown c)"

fun min_limit :: "dec list \<Rightarrow> dec" where
  "min_limit [] = 0"
| "min_limit (l # ls) = foldl pymin l ls"

definition missing_limit :: risk_violation where
  "missing_limit = \<lparr>rv_code = ''MISSING_REQUIRED_LIMIT'', rv_metric = None, rv_actual = None,
     rv_limit = None\<rparr>"

definition exceeded :: "risk_context \<Rightarrow> risk_metric \<times> dec list \<Rightarrow> risk_violation" where
  "exceeded c g = \<lparr>rv_code = ''LIMIT_EXCEEDED'', rv_metric = Some (fst g),
     rv_actual = Some (risk_actual c (fst g)), rv_limit = Some (min_limit (snd g))\<rparr>"

definition evaluate :: "uuid \<Rightarrow> risk_context \<Rightarrow> risk_rule list \<Rightarrow> risk_decision" where
  "evaluate decision_id c rules =
     (let grouped = group_limits rules
      in if \<not> set risk_metrics \<subseteq> set (dict_keys grouped) then
           \<lparr>rd_decision_id = decision_id, rd_allowed = False, rd_violations = [missing_limit]\<rparr>
         else
           let violations = map (exceeded c)
                 (filter (\<lambda>g. min_limit (snd g) < risk_actual c (fst g)) grouped)
           in \<lparr>rd_decision_id = decision_id, rd_allowed = (violations = []),
               rd_violations = violations\<rparr>)"

section \<open>The grouping\<close>

definition limits_of :: "risk_metric \<Rightarrow> risk_rule list \<Rightarrow> dec list" where
  "limits_of m rules = map rr_limit (filter (\<lambda>r. rr_metric r = m) rules)"

lemma group_limits_snoc:
  "group_limits (rules @ [r]) =
     dict_set (rr_metric r)
       ((case dict_get (group_limits rules) (rr_metric r) of None \<Rightarrow> [] | Some ls \<Rightarrow> ls)
        @ [rr_limit r]) (group_limits rules)"
  by (simp add: group_limits_def)

lemma group_limits_Nil [simp]: "group_limits [] = []"
  by (simp add: group_limits_def)

lemma group_limits_get:
  "dict_get (group_limits rules) m =
     (if limits_of m rules = [] then None else Some (limits_of m rules))"
  by (induction rules rule: rev_induct)
    (auto simp: group_limits_snoc dict_get_set limits_of_def split: if_splits)

lemma group_limits_distinct: "distinct (dict_keys (group_limits rules))"
  by (induction rules rule: rev_induct) (simp_all add: group_limits_snoc distinct_update)

lemma group_limits_mem:
  "(m, ls) \<in> set (group_limits rules) \<longleftrightarrow> ls = limits_of m rules \<and> ls \<noteq> []"
  using map_of_eq_Some_iff [OF group_limits_distinct, of rules m ls] group_limits_get [of rules m]
  by (auto split: if_splits)

lemma group_limits_keys: "m \<in> set (dict_keys (group_limits rules)) \<longleftrightarrow> limits_of m rules \<noteq> []"
  using group_limits_mem [of m _ rules] by force

lemma limits_of_nonempty: "limits_of m rules \<noteq> [] \<longleftrightarrow> (\<exists>r \<in> set rules. rr_metric r = m)"
  by (auto simp: limits_of_def filter_empty_conv)

lemma foldl_pymin_less:
  "foldl pymin a ls < v \<longleftrightarrow> (\<exists>l \<in> set (a # ls). l < v)" for v :: dec
proof (induction ls arbitrary: a)
  case (Cons l ls)
  have "(\<exists>x \<in> set (pymin a l # ls). x < v) \<longleftrightarrow> (\<exists>x \<in> set (a # l # ls). x < v)"
    by (auto simp: pymin_def dec_order)
  with Cons show ?case by simp
qed simp

lemma min_limit_less: "ls \<noteq> [] \<Longrightarrow> min_limit ls < v \<longleftrightarrow> (\<exists>l \<in> set ls. l < v)"
  by (cases ls) (simp_all only: min_limit.simps foldl_pymin_less, simp)

lemma min_limit_in: "ls \<noteq> [] \<Longrightarrow> min_limit ls \<in> set ls"
proof -
  have "foldl pymin a xs \<in> set (a # xs)" for a :: dec and xs
  proof (induction xs arbitrary: a)
    case (Cons x xs)
    then show ?case using pymin_in [of a x] by (metis foldl_Cons insertCI list.simps(15) set_ConsD)
  qed simp
  then show "ls \<noteq> [] \<Longrightarrow> min_limit ls \<in> set ls" by (cases ls) simp_all
qed

section \<open>What the engine decides\<close>

text \<open>The specification: every metric has a limit and no limit of any rule is exceeded.\<close>

definition within_limits :: "risk_context \<Rightarrow> risk_rule list \<Rightarrow> bool" where
  "within_limits c rules \<longleftrightarrow>
     (\<forall>m. \<exists>r \<in> set rules. rr_metric r = m) \<and>
     (\<forall>r \<in> set rules. risk_actual c (rr_metric r) \<le> rr_limit r)"

lemma complete_iff:
  "set risk_metrics \<subseteq> set (dict_keys (group_limits rules)) \<longleftrightarrow>
     (\<forall>m. \<exists>r \<in> set rules. rr_metric r = m)"
proof -
  have "set risk_metrics = UNIV" by auto
  then show ?thesis by (auto simp: group_limits_keys limits_of_nonempty simp del: set_map)
qed

lemma exceeding_group_iff:
  "(\<exists>g \<in> set (group_limits rules). min_limit (snd g) < risk_actual c (fst g)) \<longleftrightarrow>
     (\<exists>r \<in> set rules. rr_limit r < risk_actual c (rr_metric r))"
proof
  assume "\<exists>g \<in> set (group_limits rules). min_limit (snd g) < risk_actual c (fst g)"
  then obtain m ls where "(m, ls) \<in> set (group_limits rules)" "min_limit ls < risk_actual c m"
    by auto
  then obtain l where "l \<in> set (limits_of m rules)" "l < risk_actual c m"
    unfolding group_limits_mem by (metis min_limit_less)
  then show "\<exists>r \<in> set rules. rr_limit r < risk_actual c (rr_metric r)"
    by (auto simp: limits_of_def)
next
  assume "\<exists>r \<in> set rules. rr_limit r < risk_actual c (rr_metric r)"
  then obtain r where r: "r \<in> set rules" "rr_limit r < risk_actual c (rr_metric r)" by blast
  let ?ls = "limits_of (rr_metric r) rules"
  have "rr_limit r \<in> set ?ls" using r by (auto simp: limits_of_def)
  then have "min_limit ?ls < risk_actual c (rr_metric r)"
    using r by (subst min_limit_less) auto
  moreover have "(rr_metric r, ?ls) \<in> set (group_limits rules)"
    using r by (auto simp: group_limits_mem limits_of_nonempty)
  ultimately show "\<exists>g \<in> set (group_limits rules). min_limit (snd g) < risk_actual c (fst g)"
    by force
qed

lemma evaluate_allowed_iff: "rd_allowed (evaluate d c rules) \<longleftrightarrow> within_limits c rules"
proof (cases "\<forall>m. \<exists>r \<in> set rules. rr_metric r = m")
  case True
  then have "rd_allowed (evaluate d c rules) \<longleftrightarrow>
      \<not> (\<exists>g \<in> set (group_limits rules). min_limit (snd g) < risk_actual c (fst g))"
    using complete_iff [of rules] by (simp add: evaluate_def Let_def filter_empty_conv)
  then show ?thesis using True
    by (auto simp: exceeding_group_iff within_limits_def not_less_dec)
next
  case False
  then have "\<not> set risk_metrics \<subseteq> set (dict_keys (group_limits rules))"
    using complete_iff [of rules] by blast
  then have "\<not> rd_allowed (evaluate d c rules)" by (simp add: evaluate_def Let_def)
  then show ?thesis using False by (auto simp: within_limits_def)
qed

lemma evaluate_decision_id [simp]: "rd_decision_id (evaluate d c rules) = d"
  by (simp add: evaluate_def Let_def)

lemma evaluate_allowed_no_violation:
  "rd_allowed (evaluate d c rules) \<longleftrightarrow> rd_violations (evaluate d c rules) = []"
  by (simp add: evaluate_def Let_def)

lemma evaluate_violation:
  assumes "v \<in> set (rd_violations (evaluate d c rules))"
  shows "v = missing_limit \<or>
    (\<exists>m l. v = exceeded c (m, limits_of m rules) \<and> rv_limit v = Some l \<and>
       l \<in> set (limits_of m rules) \<and> l < risk_actual c m \<and>
       (\<forall>l' \<in> set (limits_of m rules). l \<le> l'))"
proof (cases "set risk_metrics \<subseteq> set (dict_keys (group_limits rules))")
  case False
  then show ?thesis using assms by (simp add: evaluate_def Let_def)
next
  case True
  then obtain m ls where v: "v = exceeded c (m, ls)" and ls: "(m, ls) \<in> set (group_limits rules)"
    and lt: "min_limit ls < risk_actual c m"
    using assms by (auto simp: evaluate_def Let_def)
  from ls have eq: "ls = limits_of m rules" and ne: "ls \<noteq> []"
    unfolding group_limits_mem by blast+
  have "\<forall>l \<in> set ls. min_limit ls \<le> l"
    using min_limit_less [OF ne] by (meson dec_linear less_le_not_le)
  then show ?thesis using v eq lt min_limit_in [OF ne] by (auto simp: exceeded_def)
qed

section \<open>Properties\<close>

text \<open>C14: The risk engine allows an order exactly when every required metric has a limit and no
  rule, of any scope, is exceeded; the decision carries violations exactly when it refuses.\<close>

theorem risk_engine_decides:
  "rd_allowed (evaluate d c rules) = within_limits c rules \<and>
   (rd_violations (evaluate d c rules) = []) = within_limits c rules \<and>
   rd_decision_id (evaluate d c rules) = d"
  using evaluate_allowed_iff evaluate_allowed_no_violation by simp

text \<open>Every violation the engine reports is justified: it is the missing-limit notice, or
  it names a metric whose actual value exceeds the limit it shows, and that limit is the
  tightest of all the rules of the metric.\<close>

lemma risk_violation_justified:
  assumes "v \<in> set (rd_violations (evaluate d c rules))"
  shows "v = missing_limit \<or>
    (\<exists>m l. rv_metric v = Some m \<and> rv_actual v = Some (risk_actual c m) \<and> rv_limit v = Some l \<and>
       l < risk_actual c m \<and> (\<exists>r \<in> set rules. rr_metric r = m \<and> rr_limit r = l) \<and>
       (\<forall>r \<in> set rules. rr_metric r = m \<longrightarrow> l \<le> rr_limit r))"
  using evaluate_violation [OF assms] by (auto simp: exceeded_def limits_of_def)

definition sample_context :: risk_context where
  "sample_context = \<lparr>rc_account_id = 1, rc_order_notional = dint 10, rc_account_capital = dint 100,
     rc_resulting_symbol_weight = 0, rc_daily_loss = 0, rc_drawdown = 0\<rparr>"

end
