(* ===== verification/Approval_Policy.thy ===== *)
theory Approval_Policy
  imports Domain_Decisions
begin

text \<open>
  \<open>application/approval_policy.py\<close>: a decision from the mode, the notional, the clock and
  the expiration of the signal.
\<close>

definition as_utc :: "pydatetime \<Rightarrow> string \<Rightarrow> pydatetime result" where
  "as_utc value field_name =
     (if \<not> is_aware value then Inl (ValueError (field_name @ '' must be timezone-aware''))
      else Inr (astimezone_utc value))"

definition validate_notional :: "pyval \<Rightarrow> dec result" where
  "validate_notional value =
     (if is_vfloat value then Inl (ValueError ''order_notional must not be a float'')
      else
        bindr (case value of
                 VDec d \<Rightarrow> Inr d
               | VInt n \<Rightarrow> Inr (Finite (dint n))
               | VStr s \<Rightarrow> (case parse_decimal s of Some d \<Rightarrow> Inr d | None \<Rightarrow> Inl DecimalException)
               | _ \<Rightarrow> Inl (ValueError ''order_notional must be a Decimal, exact string, or integer''))
          (\<lambda>notional. case notional of
             Finite d \<Rightarrow> Inr d
           | _ \<Rightarrow> Inl (ValueError ''order_notional must be finite'')))"

definition decide ::
  "uuid \<Rightarrow> approval_config \<Rightarrow> pyval \<Rightarrow> pydatetime \<Rightarrow> pydatetime \<Rightarrow> approval_decision result" where
  "decide approval_id config order_notional now expires_at =
     bindr (as_utc now ''now'') (\<lambda>current.
     bindr (as_utc expires_at ''expires_at'') (\<lambda>expiry.
     bindr (validate_notional order_notional) (\<lambda>notional.
       if instant current \<ge> instant expiry then
         Inr \<lparr>ad_approval_id = approval_id, ad_status = Expired, ad_reason = ''signal expired''\<rparr>
       else if ap_mode config = AUTO then
         Inr \<lparr>ad_approval_id = approval_id, ad_status = Approved, ad_reason = ''auto policy''\<rparr>
       else if ap_mode config = CONDITIONAL
            \<and> (case ap_auto_notional_limit config of None \<Rightarrow> False | Some l \<Rightarrow> notional \<le> l) then
         Inr \<lparr>ad_approval_id = approval_id, ad_status = Approved, ad_reason = ''within auto limit''\<rparr>
       else
         Inr \<lparr>ad_approval_id = approval_id, ad_status = Pending,
              ad_reason = ''manual approval required''\<rparr>)))"

text \<open>The specification: which status a policy gives a finite notional before the deadline.\<close>

definition auto_approves :: "approval_config \<Rightarrow> dec \<Rightarrow> bool" where
  "auto_approves c notional \<longleftrightarrow>
     ap_mode c = AUTO \<or>
     (ap_mode c = CONDITIONAL \<and> (\<exists>l. ap_auto_notional_limit c = Some l \<and> notional \<le> l))"

lemma validate_notional_finite [simp]: "validate_notional (VDec (Finite d)) = Inr d"
  by (simp add: validate_notional_def)

lemma decide_aware:
  assumes "is_aware now" "is_aware expires_at"
  shows "\<exists>a. decide i c (VDec (Finite n)) now expires_at = Inr a \<and> ad_approval_id a = i \<and>
    ad_status a = (if instant expires_at \<le> instant now then Expired
                   else if auto_approves c n then Approved else Pending)"
  using assms by (auto simp: decide_def as_utc_def auto_approves_def split: option.splits)

lemma decide_status:
  assumes "decide i c (VDec (Finite n)) now expires_at = Inr a"
  shows "is_aware now" "is_aware expires_at" "ad_approval_id a = i"
    "ad_status a = (if instant expires_at \<le> instant now then Expired
                    else if auto_approves c n then Approved else Pending)"
proof -
  show aw: "is_aware now" "is_aware expires_at"
    using assms by (auto simp: decide_def as_utc_def result_iffs split: if_splits)
  show "ad_approval_id a = i"
    "ad_status a = (if instant expires_at \<le> instant now then Expired
                    else if auto_approves c n then Approved else Pending)"
    using decide_aware [OF aw, of i c n] assms by auto
qed

lemma decide_error:
  "decide i c (VDec (Finite n)) now expires_at = Inl e \<Longrightarrow> is_value_error e"
  by (auto simp: decide_def as_utc_def result_iffs split: if_splits)

section \<open>Properties\<close>

text \<open>The approval policy is total on finite notionals and aware times, and follows its
  specification: expired at or after the deadline, approved when the mode is automatic or
  the notional is within the conditional limit, otherwise pending; a naive time is refused
  with a \<open>ValueError\<close>.\<close>

lemma approval_policy_decides:
  "(case decide i c (VDec (Finite n)) now expires_at of
      Inl e \<Rightarrow> is_value_error e \<and> \<not> (is_aware now \<and> is_aware expires_at)
    | Inr a \<Rightarrow> is_aware now \<and> is_aware expires_at \<and> ad_approval_id a = i \<and>
        ad_status a = (if instant expires_at \<le> instant now then Expired
                       else if auto_approves c n then Approved else Pending))"
proof (cases "decide i c (VDec (Finite n)) now expires_at")
  case (Inl e)
  then show ?thesis using decide_error [OF Inl] decide_aware [of now expires_at i c n] by auto
next
  case (Inr a)
  then show ?thesis using decide_status [OF Inr] by simp
qed

end
