(* ===== verification/Intent_Service.thy ===== *)
theory Intent_Service
  imports Order_Repository Risk_Engine Approval_Policy Idempotency
begin

text \<open>
  \<open>application/intent_service.py\<close>: from a command to a stored intent. The repository protocol
  is a record of operations; the identifiers \<open>uuid4\<close> generates and the clock are the record
  \<open>fresh\<close>. The locale \<open>intent_store\<close> is what the service relies on, and the repository of
  the sources provides it on every session.
\<close>

section \<open>The command\<close>

record create_intent_command =
  cc_account_id :: uuid
  cc_signal_id :: uuid
  cc_target_version :: int
  cc_market :: string
  cc_symbol :: string
  cc_side :: order_side
  cc_order_type :: order_type
  cc_quantity :: dec
  cc_limit_price :: "dec option"
  cc_reference_price :: "dec option"
  cc_stop_loss :: "dec option"
  cc_take_profit :: "dec option"
  cc_reduce_only :: bool
  cc_tranche_ref :: "string option"
  cc_currency :: string
  cc_expires_at :: pydatetime
  cc_account_capital :: dec
  cc_resulting_symbol_weight :: dec
  cc_daily_loss :: dec
  cc_drawdown :: dec
  cc_risk_rules :: "risk_rule list"
  cc_approval_config :: approval_config

definition command_pricing_reference :: "create_intent_command \<Rightarrow> dec option" where
  "command_pricing_reference c =
     (case cc_limit_price c of Some p \<Rightarrow> Some p | None \<Rightarrow> cc_reference_price c)"

definition reject_float_or_non_finite_decimal :: "pyval \<Rightarrow> pyval result" where
  "reject_float_or_non_finite_decimal v =
     finite_guard ''intent decimals must not be floats'' ''intent decimals must be finite'' v"

definition CreateIntentCommand :: "create_intent_command \<Rightarrow> create_intent_command result" where
  "CreateIntentCommand c =
     run_model (complain (\<not> is_aware (cc_expires_at c)) ''expires_at must be timezone-aware'')
       [if command_pricing_reference c = None then
          Some ''intent requires limit_price or reference_price'' else None]
       (c\<lparr>cc_expires_at := astimezone_utc (cc_expires_at c)\<rparr>)"

lemma CreateIntentCommand_iff:
  "CreateIntentCommand c = Inr c' \<longleftrightarrow>
     is_aware (cc_expires_at c) \<and> command_pricing_reference c \<noteq> None \<and>
     c' = c\<lparr>cc_expires_at := astimezone_utc (cc_expires_at c)\<rparr>"
  by (auto simp: CreateIntentCommand_def run_model_Inr_iff first_failure_None_iff split: if_splits)

lemma CreateIntentCommand_anchor:
  "CreateIntentCommand c = Inr c' \<Longrightarrow> command_pricing_reference c' \<noteq> None"
  by (auto simp: CreateIntentCommand_iff command_pricing_reference_def split: option.splits)

section \<open>The service\<close>

record intent_creation_result =
  ic_intent_id :: uuid
  ic_state :: order_state
  ic_risk_decision_id :: uuid
  ic_approval_id :: uuid

record 'r intent_repository =
  ir_record_risk_rejection :: "uuid \<Rightarrow> uuid \<Rightarrow> risk_decision \<Rightarrow> (unit, 'r) io"
  ir_create_with_outbox ::
    "execution_intent \<Rightarrow> order_state \<Rightarrow> uuid \<Rightarrow> uuid \<Rightarrow> risk_decision \<Rightarrow> approval_decision \<Rightarrow>
       (uuid, 'r) io"

record fresh =
  fr_decision_id :: uuid
  fr_approval_id :: uuid
  fr_intent_id :: uuid
  fr_now :: pydatetime

fun APPROVAL_STATES :: "approval_status \<Rightarrow> order_state" where
  "APPROVAL_STATES Approved = QUEUED"
| "APPROVAL_STATES Pending = PENDING_APPROVAL"
| "APPROVAL_STATES Rejected = REJECTED"
| "APPROVAL_STATES Expired = EXPIRED"

definition command_intent :: "uuid \<Rightarrow> create_intent_command \<Rightarrow> execution_intent" where
  "command_intent intent_id c =
     \<lparr>ei_intent_id = intent_id, ei_account_id = cc_account_id c, ei_signal_id = cc_signal_id c,
      ei_target_version = cc_target_version c, ei_market = cc_market c, ei_symbol = cc_symbol c,
      ei_side = cc_side c, ei_order_type = cc_order_type c, ei_quantity = cc_quantity c,
      ei_limit_price = cc_limit_price c, ei_reference_price = cc_reference_price c,
      ei_stop_loss = cc_stop_loss c, ei_take_profit = cc_take_profit c,
      ei_reduce_only = cc_reduce_only c, ei_tranche_ref = cc_tranche_ref c,
      ei_currency = cc_currency c, ei_expires_at = cc_expires_at c,
      ei_idempotency_key = build_intent_key (cc_account_id c) (cc_signal_id c)
        (cc_target_version c) (cc_symbol c) (cc_side c)\<rparr>"

definition command_context :: "create_intent_command \<Rightarrow> dec \<Rightarrow> risk_context" where
  "command_context c notional =
     \<lparr>rc_account_id = cc_account_id c, rc_order_notional = notional,
      rc_account_capital = cc_account_capital c,
      rc_resulting_symbol_weight = cc_resulting_symbol_weight c,
      rc_daily_loss = cc_daily_loss c, rc_drawdown = cc_drawdown c\<rparr>"

definition create ::
  "'r intent_repository \<Rightarrow> fresh \<Rightarrow> create_intent_command \<Rightarrow> (intent_creation_result, 'r) io" where
  "create R fr c =
     (case command_pricing_reference c of
        None \<Rightarrow> io_raise AssertionError
      | Some anchor \<Rightarrow>
          let notional = cc_quantity c * anchor in
          io_bind (io_lift (RiskContext (command_context c notional))) (\<lambda>context.
          let risk0 = evaluate (fr_decision_id fr) context (cc_risk_rules c);
              risk = (if cc_reduce_only c \<and> \<not> rd_allowed risk0 then risk0\<lparr>rd_allowed := True\<rparr>
                      else risk0)
          in if \<not> rd_allowed risk then
               io_bind (ir_record_risk_rejection R (cc_account_id c) (cc_signal_id c) risk)
                 (\<lambda>_. io_raise (RiskRejected (str_uuid (rd_decision_id risk))))
             else
               io_bind (io_lift (decide (fr_approval_id fr) (cc_approval_config c)
                          (VDec (Finite notional)) (fr_now fr) (cc_expires_at c))) (\<lambda>approval.
               let state = APPROVAL_STATES (ad_status approval) in
               io_bind (io_lift (ExecutionIntent (command_intent (fr_intent_id fr) c))) (\<lambda>intent.
               io_bind (ir_create_with_outbox R intent state (rd_decision_id risk)
                          (ad_approval_id approval) risk approval) (\<lambda>_.
               io_ret \<lparr>ic_intent_id = fr_intent_id fr, ic_state = state,
                       ic_risk_decision_id = rd_decision_id risk,
                       ic_approval_id = ad_approval_id approval\<rparr>)))))"

section \<open>What the service does\<close>

text \<open>
  The gate a command has to pass to reach the queue: the risk engine or a closing order, an
  automatic approval, and the deadline.
\<close>

definition risk_passes :: "create_intent_command \<Rightarrow> dec \<Rightarrow> bool" where
  "risk_passes c notional \<longleftrightarrow>
     cc_reduce_only c \<or> within_limits (command_context c notional) (cc_risk_rules c)"

definition expected_state :: "fresh \<Rightarrow> create_intent_command \<Rightarrow> dec \<Rightarrow> order_state" where
  "expected_state fr c notional =
     (if instant (cc_expires_at c) \<le> instant (fr_now fr) then EXPIRED
      else if auto_approves (cc_approval_config c) notional then QUEUED else PENDING_APPROVAL)"

lemma decide_state:
  assumes "decide i (cc_approval_config c) (VDec (Finite n)) (fr_now fr) (cc_expires_at c) = Inr a"
  shows "APPROVAL_STATES (ad_status a) = expected_state fr c n" "ad_approval_id a = i"
  using decide_status(3,4) [OF assms] by (simp_all add: expected_state_def)

text \<open>A command the risk engine refuses only leaves the rejection behind, and the caller is told.\<close>

definition rejected_risk :: "fresh \<Rightarrow> create_intent_command \<Rightarrow> dec \<Rightarrow> risk_decision" where
  "rejected_risk fr c notional =
     evaluate (fr_decision_id fr) (command_context c notional) (cc_risk_rules c)"

lemma create_refused:
  assumes "command_pricing_reference c = Some anchor"
    and "risk_context_contract (command_context c (cc_quantity c * anchor))"
    and "\<not> risk_passes c (cc_quantity c * anchor)"
  shows "create R fr c w =
    io_bind (ir_record_risk_rejection R (cc_account_id c) (cc_signal_id c)
       (rejected_risk fr c (cc_quantity c * anchor)))
      (\<lambda>_. io_raise (RiskRejected (str_uuid (fr_decision_id fr)))) w"
proof -
  have "RiskContext (command_context c (cc_quantity c * anchor)) =
      Inr (command_context c (cc_quantity c * anchor))"
    using assms by (simp add: RiskContext_iff)
  then show ?thesis using assms
    by (simp add: create_def Let_def io_steps risk_passes_def evaluate_allowed_iff rejected_risk_def)
qed

lemma decide_not_rejected:
  "decide i cfg (VDec (Finite n)) now expires_at = Inl e \<Longrightarrow> \<not> is_risk_rejected e"
  by (auto simp: decide_def as_utc_def result_iffs split: if_splits)

text \<open>The decision of an accepted command keeps the violations a closing order overrides.\<close>

definition accepted_risk :: "fresh \<Rightarrow> create_intent_command \<Rightarrow> dec \<Rightarrow> risk_decision" where
  "accepted_risk fr c notional = (rejected_risk fr c notional)\<lparr>rd_allowed := True\<rparr>"

lemma create_accepted:
  assumes "command_pricing_reference c = Some anchor"
    and "risk_context_contract (command_context c (cc_quantity c * anchor))"
    and "risk_passes c (cc_quantity c * anchor)"
  shows "create R fr c =
    io_bind (io_lift (decide (fr_approval_id fr) (cc_approval_config c)
      (VDec (Finite (cc_quantity c * anchor))) (fr_now fr) (cc_expires_at c))) (\<lambda>a.
    io_bind (io_lift (ExecutionIntent (command_intent (fr_intent_id fr) c))) (\<lambda>i.
    io_bind (ir_create_with_outbox R i (APPROVAL_STATES (ad_status a)) (fr_decision_id fr)
      (ad_approval_id a) (accepted_risk fr c (cc_quantity c * anchor)) a) (\<lambda>_.
    io_ret \<lparr>ic_intent_id = fr_intent_id fr, ic_state = APPROVAL_STATES (ad_status a),
       ic_risk_decision_id = fr_decision_id fr, ic_approval_id = ad_approval_id a\<rparr>)))"
proof -
  let ?e = "rejected_risk fr c (cc_quantity c * anchor)"
  have rc: "RiskContext (command_context c (cc_quantity c * anchor)) =
      Inr (command_context c (cc_quantity c * anchor))"
    using assms by (simp add: RiskContext_iff)
  note run = create_def assms(1) Let_def rc io_steps rejected_risk_def [symmetric]
  have id: "rd_decision_id ?e = fr_decision_id fr" by (simp add: rejected_risk_def)
  show ?thesis
  proof (cases "rd_allowed ?e")
    case True
    then have "accepted_risk fr c (cc_quantity c * anchor) = ?e" by (simp add: accepted_risk_def)
    then show ?thesis using True id by (simp add: run)
  next
    case False
    then have "cc_reduce_only c" using assms(3)
      by (simp add: risk_passes_def rejected_risk_def evaluate_allowed_iff)
    then show ?thesis using False id by (simp add: run accepted_risk_def)
  qed
qed

text \<open>A stored intent went through every stage of the gate.\<close>

lemma create_Inr:
  assumes "create R fr c w = (Inr res, w')"
  obtains anchor risk approval intent u where
    "command_pricing_reference c = Some anchor"
    "risk_context_contract (command_context c (cc_quantity c * anchor))"
    "risk_passes c (cc_quantity c * anchor)"
    "ExecutionIntent (command_intent (fr_intent_id fr) c) = Inr intent"
    "rd_allowed risk" "rd_decision_id risk = fr_decision_id fr"
    "ic_state res = expected_state fr c (cc_quantity c * anchor)"
    "ic_intent_id res = fr_intent_id fr" "ic_risk_decision_id res = fr_decision_id fr"
    "ic_approval_id res = fr_approval_id fr"
    "ir_create_with_outbox R intent (ic_state res) (fr_decision_id fr) (fr_approval_id fr) risk approval w
      = (Inr u, w')"
proof (cases "command_pricing_reference c")
  case None
  then show thesis using assms by (simp add: create_def io_raise_def)
next
  case (Some anchor)
  let ?n = "cc_quantity c * anchor"
  have ctx: "risk_context_contract (command_context c ?n)"
    using assms Some by (auto simp: create_def Let_def io_bind_Inr_iff io_lift_def RiskContext_iff)
  have ok: "risk_passes c ?n"
  proof (rule ccontr)
    assume "\<not> risk_passes c ?n"
    from assms [unfolded create_refused [OF Some ctx this]] show False
      by (simp add: io_bind_Inr_iff io_raise_def)
  qed
  from assms [unfolded create_accepted [OF Some ctx ok]] obtain a i u where
    a: "decide (fr_approval_id fr) (cc_approval_config c) (VDec (Finite ?n)) (fr_now fr) (cc_expires_at c) = Inr a"
    and i: "ExecutionIntent (command_intent (fr_intent_id fr) c) = Inr i"
    and u: "ir_create_with_outbox R i (APPROVAL_STATES (ad_status a)) (fr_decision_id fr) (ad_approval_id a)
      (accepted_risk fr c ?n) a w = (Inr u, w')"
    and res: "res = \<lparr>ic_intent_id = fr_intent_id fr, ic_state = APPROVAL_STATES (ad_status a),
        ic_risk_decision_id = fr_decision_id fr, ic_approval_id = ad_approval_id a\<rparr>"
    by (auto simp: io_bind_Inr_iff io_lift_def io_ret_def)
  show thesis
    by (rule that [of anchor i "accepted_risk fr c ?n" a u])
      (use Some ctx ok i u res decide_state [OF a] in \<open>simp_all add: accepted_risk_def rejected_risk_def\<close>)
qed

text \<open>How the service fails: before it touches the repository, or in one of its two calls.\<close>

lemma create_Inl:
  assumes "create R fr c w = (Inl e, w')"
  obtains (invalid) "w' = w" "\<not> is_risk_rejected e" "is_value_error e \<or> (e = AssertionError \<and> command_pricing_reference c = None)"
  | (unrecorded) n where "ir_record_risk_rejection R (cc_account_id c) (cc_signal_id c) (rejected_risk fr c n) w
      = (Inl e, w')"
  | (recorded) n u where "ir_record_risk_rejection R (cc_account_id c) (cc_signal_id c) (rejected_risk fr c n) w
      = (Inr u, w')" "e = RiskRejected (str_uuid (fr_decision_id fr))" "\<not> risk_passes c n"
      "command_pricing_reference c \<noteq> None"
  | (unstored) i st r a rs as where "ir_create_with_outbox R i st r a rs as w = (Inl e, w')"
proof (cases "command_pricing_reference c")
  case None
  then show thesis using assms invalid by (simp add: create_def io_raise_def)
next
  case (Some anchor)
  let ?n = "cc_quantity c * anchor"
  show thesis
  proof (cases "RiskContext (command_context c ?n)")
    case (Inl e0)
    then have "e0 = e" "w' = w" using assms Some by (simp_all add: create_def io_steps io_raise_def)
    then show thesis using Inl invalid RiskContext_error [OF Inl]
        run_model_not_rejected [OF Inl [unfolded RiskContext_def]] by blast
  next
    case (Inr ctx)
    then have ctx: "risk_context_contract (command_context c ?n)" by (simp add: RiskContext_iff)
    show thesis
    proof (cases "risk_passes c ?n")
      case False
      then have "io_bind (ir_record_risk_rejection R (cc_account_id c) (cc_signal_id c)
          (rejected_risk fr c ?n)) (\<lambda>_. io_raise (RiskRejected (str_uuid (fr_decision_id fr)))) w = (Inl e :: intent_creation_result result, w')"
        using assms create_refused [OF Some ctx False, of R fr w] by simp
      then show thesis using False Some
        by (auto simp: io_bind_def io_raise_def split: prod.splits sum.splits intro: unrecorded recorded)
    next
      case True
      note acc = assms [unfolded create_accepted [OF Some ctx True]]
      from acc consider
          (d) "decide (fr_approval_id fr) (cc_approval_config c) (VDec (Finite ?n)) (fr_now fr)
            (cc_expires_at c) = Inl e" "w' = w"
        | (m) "ExecutionIntent (command_intent (fr_intent_id fr) c) = Inl e" "w' = w"
        | (s) i st a rs ap where "ir_create_with_outbox R i st (fr_decision_id fr) a rs ap w = (Inl e, w')"
        by (auto simp: io_bind_def io_lift_def io_ret_def split: sum.splits prod.splits)
      then show thesis
      proof cases
        case d
        then show thesis using invalid decide_error [OF d(1)] decide_not_rejected [OF d(1)] by blast
      next
        case m
        then show thesis using invalid ExecutionIntent_error [OF m(1)]
            run_model_not_rejected [OF m(1) [unfolded ExecutionIntent_def Let_def]] by blast
      next
        case s
        then show thesis by (rule unstored)
      qed
    qed
  qed
qed

section \<open>The repository as an interface\<close>

locale intent_store =
  fixes R :: "'r intent_repository"
    and orders :: "'r \<Rightarrow> order_record list"
    and announced :: "'r \<Rightarrow> string list"
    and committed :: "'r \<Rightarrow> db"
  assumes store_order: "ir_create_with_outbox R i st r a rs as w = (Inr u, w') \<Longrightarrow>
      orders w' = orders w @ [new_order_record i st r a] \<and>
      announced w' = announced w @ (if st = QUEUED then [ei_idempotency_key i] else [])"
    and store_rejection: "ir_record_risk_rejection R acc sig dc w = (Inr v, w') \<Longrightarrow>
      orders w' = orders w \<and> announced w' = announced w"
    and store_pending: "keeps (\<lambda>w. committed w = d) (ir_create_with_outbox R i st r a rs as)"
    and rejection_pending: "keeps (\<lambda>w. committed w = d) (ir_record_risk_rejection R acc sig dc)"
begin

lemma created:
  assumes "create R fr c w = (Inr res, w')"
  obtains anchor i where "command_pricing_reference c = Some anchor"
    "risk_passes c (cc_quantity c * anchor)"
    "ic_state res = expected_state fr c (cc_quantity c * anchor)"
    "ExecutionIntent (command_intent (fr_intent_id fr) c) = Inr i"
    "orders w' = orders w @ [new_order_record i (ic_state res) (fr_decision_id fr) (fr_approval_id fr)]"
    "announced w' = announced w @ (if ic_state res = QUEUED then [ei_idempotency_key i] else [])"
  by (rule create_Inr [OF assms]) (drule store_order, blast intro: that)

lemma create_commits_nothing: "keeps (\<lambda>w. committed w = d) (create R fr c)"
  unfolding create_def Let_def
  by (auto intro!: keeps_bind keeps_pure store_pending rejection_pending split: option.split)

end

text \<open>The repository of the sources on a session \<open>S\<close>; \<open>ev\<close> is the identifier of the event.\<close>

definition order_repository :: "'s session_ops \<Rightarrow> uuid \<Rightarrow> 's intent_repository" where
  "order_repository S ev =
     \<lparr>ir_record_risk_rejection = record_risk_rejection S,
      ir_create_with_outbox = create_with_outbox S ev\<rparr>"

context sql_session
begin

lemma rejection_ok:
  assumes "record_risk_rejection S a g dc s = (Inr u, s')"
  shows "db_orders (live s') = db_orders (live s)" "db_outbox (live s') = db_outbox (live s)"
    "map au_id (db_audits (live s')) = map au_id (db_audits (live s)) @ [rd_decision_id dc]"
    "durable s' = durable s"
  using assms keepsD [OF keeps_rejection refl assms]
  by (auto simp: record_risk_rejection_def io_steps lives dest!: flush)

end

sublocale sql_session \<subseteq> stored: intent_store "order_repository S ev" "\<lambda>s. db_orders (live s)"
    "\<lambda>s. map ob_message_key (db_outbox (live s))" durable for ev :: uuid
proof unfold_locales
  fix i st r a rs as w u w'
  assume "ir_create_with_outbox (order_repository S ev) i st r a rs as w = (Inr u, w')"
  then have "create_with_outbox S ev i st r a rs as w = (Inr u, w')"
    by (simp add: order_repository_def)
  from create_ok [OF this] show "db_orders (live w') = db_orders (live w) @ [new_order_record i st r a] \<and>
      map ob_message_key (db_outbox (live w')) =
        map ob_message_key (db_outbox (live w)) @ (if st = QUEUED then [ei_idempotency_key i] else [])"
    by (auto simp: intent_ready_event_def)
next
  fix acc sig dc w v w'
  assume "ir_record_risk_rejection (order_repository S ev) acc sig dc w = (Inr v, w')"
  then show "db_orders (live w') = db_orders (live w) \<and>
      map ob_message_key (db_outbox (live w')) = map ob_message_key (db_outbox (live w))"
    by (simp add: order_repository_def rejection_ok)
qed (simp_all add: order_repository_def keeps_create keeps_rejection)

end
