(* ===== verification/Execution_Api.thy ===== *)
theory Execution_Api
  imports Intent_Service
begin

text \<open>
  \<open>api/schemas.py\<close>, \<open>api/routes/execution.py\<close> and the key check of \<open>api/dependencies.py\<close>:
  the request model, its translation to a command, the transaction around the service, and
  the mapping of exceptions to responses. A response that is an error is the \<open>HTTPException\<close>
  the handler raises.
\<close>

section \<open>Schemas\<close>

definition reject_inexact_or_non_finite :: "pyval \<Rightarrow> string \<Rightarrow> pyval result" where
  "reject_inexact_or_non_finite v field_name =
     (if is_vfloat v then Inl (ValueError (field_name @ '' must not be a float''))
      else case v of
        VDec d \<Rightarrow> if is_finite d then Inr v else Inl (ValueError (field_name @ '' must be finite''))
      | VStr s \<Rightarrow>
          (case parse_decimal s of
             None \<Rightarrow> Inr v
           | Some d \<Rightarrow> if is_finite d then Inr v
                        else Inl (ValueError (field_name @ '' must be finite'')))
      | _ \<Rightarrow> Inr v)"

record create_intent_request =
  cq_account_id :: uuid
  cq_signal_id :: uuid
  cq_target_version :: int
  cq_market :: string
  cq_symbol :: string
  cq_side :: order_side
  cq_order_type :: order_type
  cq_quantity :: dec
  cq_limit_price :: "dec option"
  cq_reference_price :: "dec option"
  cq_stop_loss :: "dec option"
  cq_take_profit :: "dec option"
  cq_reduce_only :: bool
  cq_tranche_ref :: "string option"
  cq_currency :: string
  cq_expires_at :: pydatetime
  cq_account_capital :: dec
  cq_resulting_symbol_weight :: dec
  cq_daily_loss :: dec
  cq_drawdown :: dec
  cq_risk_rules :: "risk_rule list"
  cq_approval_mode :: approval_mode
  cq_auto_notional_limit :: "dec option"

definition CreateIntentRequest :: "create_intent_request \<Rightarrow> create_intent_request result" where
  "CreateIntentRequest q =
     run_model
       (complain (cq_target_version q < - 2147483648) ''greater_than_equal''
        @ complain (cq_target_version q > 2147483647) ''less_than_equal''
        @ complain (length (cq_market q) > 16) ''string_too_long''
        @ complain (length (cq_symbol q) > 32) ''string_too_long''
        @ decimal_field ''quantity'' False [] (cq_quantity q)
        @ optional_field (decimal_field ''limit_price'' False []) (cq_limit_price q)
        @ optional_field (decimal_field ''reference_price'' False []) (cq_reference_price q)
        @ optional_field (decimal_field ''stop_loss'' False []) (cq_stop_loss q)
        @ optional_field (decimal_field ''take_profit'' False []) (cq_take_profit q)
        @ optional_field (\<lambda>t. complain (length t > 16) ''string_too_long'') (cq_tranche_ref q)
        @ complain (length (cq_currency q) > 8) ''string_too_long''
        @ complain (\<not> is_aware (cq_expires_at q)) ''expires_at must be timezone-aware'')
       [] (q\<lparr>cq_expires_at := astimezone_utc (cq_expires_at q)\<rparr>)"

definition to_command :: "create_intent_request \<Rightarrow> create_intent_command result" where
  "to_command q =
     (if cq_order_type q = LIMIT \<and> cq_limit_price q = None then
        Inl (ValueError ''limit orders require limit_price'')
      else if cq_order_type q = MARKET \<and> cq_limit_price q \<noteq> None then
        Inl (ValueError ''market orders must not carry a limit_price'')
      else if cq_order_type q = MARKET \<and> cq_reference_price q = None then
        Inl (ValueError ''market orders require reference_price for risk sizing'')
      else
        bindr (ApprovalPolicyConfig
                 \<lparr>ap_mode = cq_approval_mode q, ap_auto_notional_limit = cq_auto_notional_limit q\<rparr>)
          (\<lambda>config. CreateIntentCommand
            \<lparr>cc_account_id = cq_account_id q, cc_signal_id = cq_signal_id q,
             cc_target_version = cq_target_version q, cc_market = cq_market q,
             cc_symbol = cq_symbol q, cc_side = cq_side q, cc_order_type = cq_order_type q,
             cc_quantity = cq_quantity q, cc_limit_price = cq_limit_price q,
             cc_reference_price = cq_reference_price q, cc_stop_loss = cq_stop_loss q,
             cc_take_profit = cq_take_profit q, cc_reduce_only = cq_reduce_only q,
             cc_tranche_ref = cq_tranche_ref q, cc_currency = cq_currency q,
             cc_expires_at = cq_expires_at q, cc_account_capital = cq_account_capital q,
             cc_resulting_symbol_weight = cq_resulting_symbol_weight q,
             cc_daily_loss = cq_daily_loss q, cc_drawdown = cq_drawdown q,
             cc_risk_rules = cq_risk_rules q, cc_approval_config = config\<rparr>))"

record create_intent_response =
  cp_intent_id :: uuid
  cp_state :: string
  cp_risk_decision_id :: uuid
  cp_approval_id :: uuid

definition from_result :: "intent_creation_result \<Rightarrow> create_intent_response" where
  "from_result r =
     \<lparr>cp_intent_id = ic_intent_id r, cp_state = state_value (ic_state r),
      cp_risk_decision_id = ic_risk_decision_id r, cp_approval_id = ic_approval_id r\<rparr>"

section \<open>Recognising a duplicate\<close>

text \<open>
  The driver's exceptions form a chain through \<open>__cause__\<close>, which may close on itself; the
  walk stops at the first exception it has seen. An exception is a number in a heap of
  nodes; an attribute that is missing or not a string is \<open>None\<close>.
\<close>

record error_node =
  en_sqlstate :: "string option"
  en_pgcode :: "string option"
  en_constraint_name :: "string option"
  en_diag_constraint_name :: "string option"
  en_cause :: "nat option"

type_synonym error_heap = "(nat \<times> error_node) list"

definition no_attributes :: error_node where
  "no_attributes = \<lparr>en_sqlstate = None, en_pgcode = None, en_constraint_name = None,
     en_diag_constraint_name = None, en_cause = None\<rparr>"

definition node :: "error_heap \<Rightarrow> nat \<Rightarrow> error_node" where
  "node h n = (case dict_get h n of None \<Rightarrow> no_attributes | Some e \<Rightarrow> e)"

definition node_sqlstate :: "error_node \<Rightarrow> bool" where
  "node_sqlstate e \<longleftrightarrow> en_sqlstate e = Some ''23505'' \<or> en_pgcode e = Some ''23505''"

definition node_constraint :: "error_node \<Rightarrow> bool" where
  "node_constraint e \<longleftrightarrow> en_constraint_name e = Some ''uq_order_intent_idempotency''
     \<or> en_diag_constraint_name e = Some ''uq_order_intent_idempotency''"

function walk_causes :: "error_heap \<Rightarrow> nat list \<Rightarrow> bool \<Rightarrow> bool \<Rightarrow> nat option \<Rightarrow> bool \<times> bool" where
  "walk_causes h visited sqlstate constr None = (sqlstate, constr)"
| "walk_causes h visited sqlstate constr (Some current) =
     (if current \<in> set visited then (sqlstate, constr)
      else walk_causes h (current # visited) (sqlstate \<or> node_sqlstate (node h current))
             (constr \<or> node_constraint (node h current)) (en_cause (node h current)))"
  by pat_completeness auto

text \<open>Each step visits a new node of the heap, or one that is in no heap and has no cause.\<close>

definition unvisited :: "error_heap \<Rightarrow> nat list \<Rightarrow> nat option \<Rightarrow> nat" where
  "unvisited h visited current =
     (case current of None \<Rightarrow> 0
      | Some n \<Rightarrow> 2 * card (set (dict_keys h) - set visited) + (if n \<in> set (dict_keys h) then 1 else 2))"

lemma unvisited_decreases:
  assumes "n \<notin> set visited"
  shows "unvisited h (n # visited) (en_cause (node h n)) < unvisited h visited (Some n)"
proof (cases "n \<in> set (dict_keys h)")
  case True
  let ?A = "set (dict_keys h) - set visited"
  have "set (dict_keys h) - set (n # visited) = ?A - {n}" "n \<in> ?A" "finite ?A"
    using True assms by auto
  then have "card (set (dict_keys h) - set (n # visited)) < card ?A"
    by (simp only: card_Diff1_less)
  then show ?thesis using True by (auto simp: unvisited_def split: option.split)
next
  case False
  then have "dict_get h n = None" by (simp add: map_of_eq_None_iff)
  then show ?thesis by (simp add: node_def no_attributes_def unvisited_def)
qed

termination walk_causes
  by (relation "measure (\<lambda>(h, visited, s, c, current). unvisited h visited current)")
    (simp, simp, rule unvisited_decreases)

definition is_duplicate_intent_integrity_error :: "error_heap \<Rightarrow> nat option \<Rightarrow> nat \<Rightarrow> bool" where
  "is_duplicate_intent_integrity_error h orig error =
     (let current = (case orig of None \<Rightarrow> Some error | Some n \<Rightarrow> Some n);
          (sqlstate, constr) = walk_causes h [] False False current
      in sqlstate \<and> constr)"

text \<open>
  The heap of an \<open>IntegrityError\<close> of this development: the driver's error is one node with
  the SQLSTATE and the constraint.
\<close>

definition driver_error :: "string \<Rightarrow> string \<Rightarrow> error_heap" where
  "driver_error sqlstate constraint_name =
     [(1, no_attributes\<lparr>en_sqlstate := Some sqlstate, en_constraint_name := Some constraint_name\<rparr>)]"

fun duplicate_intent :: "exn \<Rightarrow> bool" where
  "duplicate_intent (IntegrityError s c) = is_duplicate_intent_integrity_error (driver_error s c) (Some 1) 0"
| "duplicate_intent _ = False"

lemma duplicate_intent_iff:
  "duplicate_intent e \<longleftrightarrow> e = IntegrityError ''23505'' ''uq_order_intent_idempotency''"
  by (cases e) (simp_all add: is_duplicate_intent_integrity_error_def driver_error_def node_def
      no_attributes_def node_sqlstate_def node_constraint_def)

section \<open>The routes\<close>

fun is_integrity_error :: "exn \<Rightarrow> bool" where
  "is_integrity_error (IntegrityError _ _) = True"
| "is_integrity_error _ = False"

fun is_http_exception :: "exn \<Rightarrow> bool" where
  "is_http_exception (HTTPException _ _) = True"
| "is_http_exception _ = False"

text \<open>\<open>try: commit() except Exception: rollback(); raise\<close>.\<close>

definition commit_or_rollback :: "'s session_ops \<Rightarrow> (unit, 's) io" where
  "commit_or_rollback S =
     io_catch (ss_commit S)
       (\<lambda>e. if is_exception e then io_bind (ss_rollback S) (\<lambda>_. io_raise e) else io_raise e)"

definition handle_create_error :: "'s session_ops \<Rightarrow> exn \<Rightarrow> ('a, 's) io" where
  "handle_create_error S e =
     (if is_risk_rejected e then
        io_bind (commit_or_rollback S) (\<lambda>_. io_raise (HTTPException 422 ''RISK_REJECTED''))
      else if is_value_error e then
        io_bind (ss_rollback S) (\<lambda>_. io_raise (HTTPException 422 ''invalid''))
      else if is_integrity_error e then
        io_bind (ss_rollback S) (\<lambda>_.
          if duplicate_intent e then io_raise (HTTPException 409 ''DUPLICATE_INTENT'')
          else io_raise e)
      else if is_exception e then io_bind (ss_rollback S) (\<lambda>_. io_raise e)
      else io_raise e)"

definition create_intent ::
  "'s session_ops \<Rightarrow> uuid \<Rightarrow> fresh \<Rightarrow> create_intent_request \<Rightarrow> (create_intent_response, 's) io" where
  "create_intent S event_id fr payload =
     io_bind
       (io_catch
          (io_bind (io_lift (to_command payload)) (create (order_repository S event_id) fr))
          (handle_create_error S)) (\<lambda>result.
     io_bind (commit_or_rollback S) (\<lambda>_. io_ret (from_result result)))"

definition get_intent :: "'s session_ops \<Rightarrow> uuid \<Rightarrow> (uuid \<times> string, 's) io" where
  "get_intent S intent_id =
     io_catch
       (io_bind (get_order S intent_id) (\<lambda>found.
          case found of
            None \<Rightarrow> io_bind (ss_rollback S) (\<lambda>_. io_raise (HTTPException 404 ''intent not found''))
          | Some record \<Rightarrow>
              io_bind (ss_rollback S) (\<lambda>_. io_ret (or_id record, state_value (or_state record)))))
       (\<lambda>e. if is_http_exception e then io_raise e
            else if is_exception e then io_bind (ss_rollback S) (\<lambda>_. io_raise e) else io_raise e)"

definition require_internal_key :: "string option \<Rightarrow> string \<Rightarrow> unit result" where
  "require_internal_key x_internal_key expected =
     (case x_internal_key of
        None \<Rightarrow> Inl (HTTPException 401 ''invalid internal key'')
      | Some k \<Rightarrow>
          if strip k = [] \<or> strip k \<noteq> expected then Inl (HTTPException 401 ''invalid internal key'')
          else Inr ())"

declare create_intent_def [op_defs] get_intent_def [op_defs] commit_or_rollback_def [op_defs]
  handle_create_error_def [op_defs]

section \<open>The transaction around the service\<close>

lemma to_command_error: "to_command q = Inl e \<Longrightarrow> is_value_error e \<and> \<not> is_risk_rejected e"
  by (auto simp: to_command_def ApprovalPolicyConfig_def CreateIntentCommand_def result_iffs
      split: if_splits dest: run_model_Inl_is_value_error run_model_not_rejected)

text \<open>The exceptions that reach the caller.\<close>

fun response_error :: "exn \<Rightarrow> bool" where
  "response_error (HTTPException status _) = (status \<in> {409, 422})"
| "response_error e = database_error e"

lemma database_response [simp]: "database_error e \<Longrightarrow> response_error e"
  by (cases e) auto

context sql_session
begin

text \<open>The repository raises \<open>RiskRejected\<close> never; the service only after the rejection is recorded.\<close>

lemma create_with_outbox_error:
  "create_with_outbox S ev i st r a rs as s = (Inl e, s') \<Longrightarrow> database_error e"
  by (auto simp: create_with_outbox_def io_defs split: prod.splits sum.splits if_splits
      dest: flush_error)

lemma service_rejects:
  assumes "create (order_repository S ev) fr c s = (Inl e, s')" "is_risk_rejected e"
  shows "db_orders (live s') = db_orders (live s) \<and> db_outbox (live s') = db_outbox (live s)"
  using assms(1)
proof (cases rule: create_Inl)
  case (recorded n u)
  then show ?thesis by (simp add: order_repository_def rejection_ok)
qed (use assms(2) in \<open>auto simp: order_repository_def record_risk_rejection_def io_steps
      dest!: create_with_outbox_error flush_error dest: database_error_kind elim: is_risk_rejected.elims\<close>)

lemma commit_or_rollback_ok:
  "commit_or_rollback S s = (Inr u, s') \<Longrightarrow> durable s' = live s \<and> live s' = live s"
  by (auto simp: commit_or_rollback_def io_catch_def rollback_raise_Inr io_raise_def
      split: prod.splits sum.splits if_splits dest: commit)

lemma commit_or_rollback_failed:
  assumes "commit_or_rollback S s = (Inl e, s')"
  shows "database_error e \<and> (durable s' = durable s \<or> durable s' = live s)"
proof -
  obtain e0 s1 where c: "ss_commit S s = (Inl e0, s1)"
    using assms by (auto simp: commit_or_rollback_def io_catch_def split: prod.splits sum.splits)
  then have "(e = e0 \<or> database_error e) \<and> durable s' = durable s1"
    using assms rollback_raise_Inl [of e0 s1 e s']
    by (auto simp: commit_or_rollback_def io_catch_def io_raise_def split: if_splits)
  then show ?thesis using commit_error [OF c] commit_atomic [OF c] by auto
qed

definition service_call :: "uuid \<Rightarrow> fresh \<Rightarrow> create_intent_request \<Rightarrow> (intent_creation_result, 's) io" where
  "service_call ev fr q = io_bind (io_lift (to_command q)) (create (order_repository S ev) fr)"

lemma service_call_pending: "keeps (untouched d) (service_call ev fr q)"
  unfolding service_call_def by (intro keeps_bind keeps_pure stored.create_commits_nothing)

lemma service_call_rejected:
  assumes "service_call ev fr q s = (Inl e, s')" "is_risk_rejected e"
  shows "db_orders (live s') = db_orders (live s) \<and> db_outbox (live s') = db_outbox (live s)"
  using assms by (cases "to_command q")
    (auto simp: service_call_def io_steps io_raise_def dest: to_command_error service_rejects)

lemma handler_raises: "handle_create_error S e s = (x, s') \<Longrightarrow> \<exists>e'. x = Inl e'"
  by (auto simp: handle_create_error_def io_bind_def io_raise_def split: prod.splits sum.splits if_splits)

lemma handler_frame:
  assumes "handle_create_error S e s = (x, s')"
  shows "durable s' = durable s \<or> (is_risk_rejected e \<and> durable s' = live s)"
proof (cases "is_risk_rejected e")
  case True
  obtain y s1 where c: "commit_or_rollback S s = (y, s1)" by fastforce
  then have "s1 = s'" using True assms
    by (auto simp: handle_create_error_def io_bind_def io_raise_def split: sum.splits)
  show ?thesis
    using commit_or_rollback_failed [of s _ s1] commit_or_rollback_ok [of s _ s1] c True \<open>s1 = s'\<close>
    by (cases y) auto
next
  case False
  have "keeps (untouched (durable s)) (handle_create_error S e)"
    unfolding handle_create_error_def if_not_P [OF False]
    by (intro keeps_rules keeps_durable)
  from keepsD [OF this refl assms] show ?thesis by blast
qed

text \<open>What the service leaves pending when it returns: the order that passed the gate, and its event.\<close>

lemma service_call_created:
  assumes "service_call ev fr q s = (Inr r, s1)"
  obtains c anchor i st where "to_command q = Inr c" "command_pricing_reference c = Some anchor"
    "risk_passes c (cc_quantity c * anchor)" "st = expected_state fr c (cc_quantity c * anchor)"
    "ExecutionIntent (command_intent (fr_intent_id fr) c) = Inr i"
    "ic_state r = st" "ic_intent_id r = fr_intent_id fr"
    "db_orders (live s1) = db_orders (live s) @ [new_order_record i st (fr_decision_id fr) (fr_approval_id fr)]"
    "map ob_message_key (db_outbox (live s1)) = map ob_message_key (db_outbox (live s)) @
       (if st = QUEUED then [ei_idempotency_key i] else [])"
proof -
  obtain c where c: "to_command q = Inr c" "create (order_repository S ev) fr c s = (Inr r, s1)"
    using assms by (auto simp: service_call_def io_bind_Inr_iff io_lift_def)
  have id: "ic_intent_id r = fr_intent_id fr" by (rule create_Inr [OF c(2)])
  show thesis
    by (rule stored.created [OF c(2)], rule that) (use c(1) id in simp_all)
qed

lemma create_intent_run:
  assumes "create_intent S ev fr q s = (x, s')"
  obtains (handled) e0 s1 e where "service_call ev fr q s = (Inl e0, s1)" "x = Inl e"
      "handle_create_error S e0 s1 = (Inl e :: intent_creation_result result, s')"
  | (uncommitted) r s1 e where "service_call ev fr q s = (Inr r, s1)" "x = Inl e"
      "commit_or_rollback S s1 = (Inl e, s')"
  | (committed) r s1 where "service_call ev fr q s = (Inr r, s1)" "x = Inr (from_result r)"
      "commit_or_rollback S s1 = (Inr (), s')"
proof -
  obtain y s1 where c: "service_call ev fr q s = (y, s1)" by fastforce
  show thesis
  proof (cases y)
    case (Inl e0)
    obtain z :: "intent_creation_result result" and s2 where h: "handle_create_error S e0 s1 = (z, s2)"
      by fastforce
    moreover obtain e where "z = Inl e" using handler_raises [OF h] by blast
    ultimately show thesis using assms c Inl
      by (intro handled [of e0 s1 e])
        (auto simp: create_intent_def service_call_def io_bind_def [of "io_catch _ _"] io_catch_def)
  next
    case (Inr r)
    then have run: "io_bind (commit_or_rollback S) (\<lambda>_. io_ret (from_result r)) s1 = (x, s')"
      using assms c
      by (simp add: create_intent_def service_call_def io_bind_def [of "io_catch _ _"] io_catch_def)
    obtain k s2 where "commit_or_rollback S s1 = (k, s2)" by fastforce
    then show thesis using run c Inr uncommitted committed
      by (cases k) (auto simp: io_bind_def io_ret_def)
  qed
qed

lemma create_intent_failed:
  assumes "create_intent S ev fr q s = (Inl e, s')" "live s = durable s"
  obtains (unchanged) "db_orders (durable s') = db_orders (durable s)" "db_outbox (durable s') = db_outbox (durable s)"
  | (stored) r s1 where "database_error e" "service_call ev fr q s = (Inr r, s1)" "durable s' = live s1"
  using assms(1)
proof (cases rule: create_intent_run)
  case (handled e0 s1 e1)
  then show ?thesis using handler_frame [OF handled(3)] keepsD [OF service_call_pending refl handled(1)]
      service_call_rejected [OF handled(1)] assms(2) by (intro unchanged) auto
next
  case (uncommitted r s1 e1)
  then show ?thesis
    using commit_or_rollback_failed [OF uncommitted(3)] keepsD [OF service_call_pending refl uncommitted(1)]
      unchanged stored by auto
qed simp

lemma create_intent_created:
  assumes "create_intent S ev fr q s = (Inr resp, s')"
  obtains c anchor i st where "to_command q = Inr c" "command_pricing_reference c = Some anchor"
    "risk_passes c (cc_quantity c * anchor)" "st = expected_state fr c (cc_quantity c * anchor)"
    "ExecutionIntent (command_intent (fr_intent_id fr) c) = Inr i"
    "cp_state resp = state_value st" "cp_intent_id resp = fr_intent_id fr"
    "db_orders (durable s') = db_orders (live s) @ [new_order_record i st (fr_decision_id fr) (fr_approval_id fr)]"
    "map ob_message_key (db_outbox (durable s')) = map ob_message_key (db_outbox (live s)) @
       (if st = QUEUED then [ei_idempotency_key i] else [])"
  using assms
proof (cases rule: create_intent_run)
  case (committed r s1)
  note d = commit_or_rollback_ok [OF committed(3)]
  show thesis
    by (rule service_call_created [OF committed(1)], rule that)
      (use d committed(2) in \<open>simp_all add: from_result_def\<close>)
qed simp_all

lemma to_command_anchor: "to_command q = Inr c \<Longrightarrow> command_pricing_reference c \<noteq> None"
  unfolding to_command_def
  by (auto simp only: bindr_Inr_iff sum.distinct split: if_splits dest: CreateIntentCommand_anchor)

lemma service_call_error:
  assumes "service_call ev fr q s = (Inl e, s')"
  shows "is_value_error e \<or> database_error e"
proof (cases "to_command q")
  case (Inl e0)
  then show ?thesis using assms to_command_error [OF Inl]
    by (auto simp: service_call_def io_steps io_raise_def)
next
  case (Inr c)
  then have "create (order_repository S ev) fr c s = (Inl e, s')"
    using assms by (simp add: service_call_def io_steps)
  then show ?thesis
  proof (cases rule: create_Inl)
    case invalid
    then show ?thesis using to_command_anchor [OF Inr] by blast
  qed (auto simp: order_repository_def record_risk_rejection_def io_steps
      dest!: create_with_outbox_error flush_error)
qed

lemma commit_or_rollback_error: "commit_or_rollback S s = (Inl e, s') \<Longrightarrow> database_error e"
  by (auto simp: commit_or_rollback_def io_catch_def io_bind_def io_raise_def
      split: prod.splits sum.splits if_splits dest: commit_error rollback_error)

lemma handler_response:
  assumes "handle_create_error S e s = (Inl e', s')" "is_value_error e \<or> database_error e"
  shows "response_error e' \<and>
    (e' = HTTPException 409 m \<longrightarrow> e = IntegrityError ''23505'' ''uq_order_intent_idempotency'')"
proof -
  have raises: "io_bind m (\<lambda>_. io_raise x) s = (Inl e', s') \<Longrightarrow>
      (\<And>y s1. m s = (Inl y, s1) \<Longrightarrow> database_error y) \<Longrightarrow> database_error e' \<or> e' = x"
    for m :: "(unit, 's) io" and x
    by (auto simp: io_bind_def io_raise_def split: prod.splits sum.splits)
  consider (rejected) "is_risk_rejected e" | (invalid) "\<not> is_risk_rejected e" "is_value_error e"
    | (integrity) sqlstate c where "e = IntegrityError sqlstate c"
    | (other) "database_error e" "\<not> is_integrity_error e" "\<not> is_value_error e" "\<not> is_risk_rejected e"
    using assms(2) database_error_kind by (cases e) auto
  then show ?thesis
  proof cases
    case rejected
    then have "database_error e' \<or> e' = HTTPException 422 ''RISK_REJECTED''"
      using assms(1) commit_or_rollback_error by (intro raises) (auto simp: handle_create_error_def)
    then show ?thesis by auto
  next
    case invalid
    then have "database_error e' \<or> e' = HTTPException 422 ''invalid''"
      using assms(1) rollback_error by (intro raises) (auto simp: handle_create_error_def)
    then show ?thesis by auto
  next
    case (integrity sqlstate c)
    have "database_error e' \<or> e' = (if duplicate_intent e then HTTPException 409 ''DUPLICATE_INTENT'' else e)"
      using assms(1) rollback_error integrity
      by (intro raises) (auto simp: handle_create_error_def split: if_splits)
    then show ?thesis using integrity by (auto simp: duplicate_intent_iff split: if_splits)
  next
    case other
    have "database_error e' \<or> e' = e"
    proof (cases "is_exception e")
      case True
      then show ?thesis using other assms(1) rollback_error
        by (intro raises) (auto simp: handle_create_error_def)
    next
      case False
      then show ?thesis using other assms(1) by (simp add: handle_create_error_def io_raise_def)
    qed
    then show ?thesis using other(1) by auto
  qed
qed

lemma create_intent_response:
  assumes "create_intent S ev fr q s = (Inl e, s')"
  shows "response_error e"
  using assms
proof (cases rule: create_intent_run)
  case (handled e0 s1 e1)
  then show ?thesis using handler_response [OF handled(3)] service_call_error [OF handled(1)] by simp
next
  case (uncommitted r s1 e1)
  then show ?thesis using commit_or_rollback_error by simp
qed simp

end

end
