(* ===== verification/Intent_Safety.thy ===== *)
theory Intent_Safety
  imports Execution_Api
begin

text \<open>
  The creation path from the request to the committed order, on every database that obeys
  the laws of a session, and a run on the in-memory session.
\<close>

section \<open>A request on the in-memory session\<close>

definition sample_rules :: "risk_rule list" where
  "sample_rules = map (\<lambda>m. \<lparr>rr_rule_id = 1, rr_scope = SYSTEM, rr_metric = m, rr_limit = dint 1000000\<rparr>)
     risk_metrics"

definition sample_request :: create_intent_request where
  "sample_request =
     \<lparr>cq_account_id = 1, cq_signal_id = 2, cq_target_version = 1, cq_market = ''FX'',
      cq_symbol = ''XAUUSD'', cq_side = BUY, cq_order_type = LIMIT, cq_quantity = dint 1,
      cq_limit_price = Some (dint 2000), cq_reference_price = None, cq_stop_loss = None,
      cq_take_profit = None, cq_reduce_only = False, cq_tranche_ref = None, cq_currency = ''USD'',
      cq_expires_at = Aware 1000 0, cq_account_capital = dint 10000,
      cq_resulting_symbol_weight = 0, cq_daily_loss = 0, cq_drawdown = 0,
      cq_risk_rules = sample_rules, cq_approval_mode = AUTO, cq_auto_notional_limit = None\<rparr>"

definition sample_fresh :: fresh where
  "sample_fresh = \<lparr>fr_decision_id = 11, fr_approval_id = 12, fr_intent_id = 13, fr_now = Aware 0 0\<rparr>"

definition sample_command :: create_intent_command where
  "sample_command = (case to_command sample_request of Inr c \<Rightarrow> c | Inl _ \<Rightarrow> undefined)"

lemma sample_command:
  "to_command sample_request = Inr sample_command"
  "command_pricing_reference sample_command = Some (dint 2000)"
  "cc_quantity sample_command = dint 1" "cc_risk_rules sample_command = sample_rules"
  by (simp_all add: sample_command_def to_command_def sample_request_def ApprovalPolicyConfig_def
      CreateIntentCommand_def run_model_def conditional_requires_limit_def complain_def
      command_pricing_reference_def)

lemma sample_notional: "dint 1 * dint 2000 = dint 2000"
  by code_simp

lemma sample_context_ok:
  "risk_context_contract (command_context sample_command (dint 2000))"
  "within_limits (command_context sample_command (dint 2000)) sample_rules"
  by (simp_all add: risk_context_contract_def command_context_def sample_command_def to_command_def
      sample_request_def ApprovalPolicyConfig_def CreateIntentCommand_def run_model_def
      conditional_requires_limit_def complain_def command_pricing_reference_def dec_order
      within_limits_def sample_rules_def risk_metrics_def risk_actual_def)
    (metis (full_types) risk_metric.exhaust)

lemma sample_intent_valid:
  "ExecutionIntent (command_intent 13 sample_command) = Inr (command_intent 13 sample_command)"
  by (simp add: ExecutionIntent_iff command_intent_def sample_command_def to_command_def
      sample_request_def ApprovalPolicyConfig_def CreateIntentCommand_def run_model_def
      conditional_requires_limit_def complain_def command_pricing_reference_def intent_contract_def
      column_price_def optional_price_def fits_numeric_iff dec_order brackets_straddle_def in_utc_def
      astimezone_utc_def pricing_reference_def)

text \<open>On the in-memory session a command that passes the gate is always stored.\<close>

definition stored_intent_db ::
  "uuid \<Rightarrow> fresh \<Rightarrow> execution_intent \<Rightarrow> order_state \<Rightarrow> risk_decision \<Rightarrow> approval_decision \<Rightarrow> db \<Rightarrow> db" where
  "stored_intent_db ev fr i st risk approval d =
     \<lparr>db_orders = db_orders d @ [new_order_record i st (fr_decision_id fr) (fr_approval_id fr)],
      db_audits = db_audits d @
        [\<lparr>au_id = fr_decision_id fr, au_event_type = ''RISK_DECIDED'', au_actor_id = None,
          au_trace_id = ei_signal_id i, au_payload = RiskSnapshot risk\<rparr>,
         \<lparr>au_id = fr_approval_id fr, au_event_type = ''APPROVAL_DECIDED'', au_actor_id = None,
          au_trace_id = ei_signal_id i, au_payload = ApprovalSnapshot approval\<rparr>],
      db_outbox = db_outbox d @ (if st = QUEUED then [stamped d (intent_ready_event ev i)] else [])\<rparr>"

lemma mem_store:
  assumes "constraints_ok (stored_intent_db ev fr i st risk ap d)"
  shows "create_with_outbox mem_session ev i st (fr_decision_id fr) (fr_approval_id fr) risk ap (d, d) =
    (Inr (ei_intent_id i), (stored_intent_db ev fr i st risk ap d, d))"
  using assms
  by (cases d; cases "st = QUEUED")
    (simp_all add: create_with_outbox_def io_do_def mem_session_def io_bind_def mem_flush_def
      stored_intent_db_def stamped_def io_ret_def)

text \<open>The two in-memory sessions differ in the answer to a commit only.\<close>

lemma cut_repository: "order_repository cut_session ev = order_repository mem_session ev"
  by (simp add: order_repository_def create_with_outbox_def record_risk_rejection_def
      cut_session_def fun_eq_iff)

lemma mem_create:
  assumes "to_command q = Inr c" "command_pricing_reference c = Some anchor"
    and "risk_context_contract (command_context c (cc_quantity c * anchor))"
    and "risk_passes c (cc_quantity c * anchor)"
    and "decide (fr_approval_id fr) (cc_approval_config c) (VDec (Finite (cc_quantity c * anchor)))
      (fr_now fr) (cc_expires_at c) = Inr ap"
    and "ExecutionIntent (command_intent (fr_intent_id fr) c) = Inr i"
    and "constraints_ok (stored_intent_db ev fr i (APPROVAL_STATES (ad_status ap))
      (accepted_risk fr c (cc_quantity c * anchor)) ap d)"
  defines "d' \<equiv> stored_intent_db ev fr i (APPROVAL_STATES (ad_status ap))
      (accepted_risk fr c (cc_quantity c * anchor)) ap d"
  shows "\<exists>resp. create_intent mem_session ev fr q (d, d) = (Inr resp, (d', d'))"
    and "create_intent cut_session ev fr q (d, d) = (Inl (RuntimeError ''connection lost''), (d', d'))"
proof -
  have "ad_approval_id ap = fr_approval_id fr" using decide_status(3) [OF assms(5)] .
  then have "create (order_repository mem_session ev) fr c (d, d) =
      (Inr \<lparr>ic_intent_id = fr_intent_id fr, ic_state = APPROVAL_STATES (ad_status ap),
        ic_risk_decision_id = fr_decision_id fr, ic_approval_id = fr_approval_id fr\<rparr>, (d', d))"
    using assms(5,6) mem_store [OF assms(7)]
    by (simp add: create_accepted [OF assms(2-4)] io_steps io_bind_def order_repository_def io_ret_def d'_def)
  moreover have "commit_or_rollback mem_session (d', d) = (Inr (), (d', d'))"
    "commit_or_rollback cut_session (d', d) = (Inl (RuntimeError ''connection lost''), (d', d'))"
    using assms(7) by (simp_all add: commit_or_rollback_def io_catch_def mem_session_def cut_session_def
        mem_flush_def d'_def io_bind_def io_raise_def)
  ultimately show "\<exists>resp. create_intent mem_session ev fr q (d, d) = (Inr resp, (d', d'))"
    "create_intent cut_session ev fr q (d, d) = (Inl (RuntimeError ''connection lost''), (d', d'))"
    using assms(1)
    by (simp_all add: create_intent_def io_steps io_bind_def io_catch_def io_ret_def cut_repository)
qed

lemma sample_created:
  "\<exists>resp d'. create_intent mem_session 14 sample_fresh sample_request (empty_db, empty_db) = (Inr resp, (d', d'))"
  "\<exists>d'. create_intent cut_session 14 sample_fresh sample_request (empty_db, empty_db) =
     (Inl (RuntimeError ''connection lost''), (d', d')) \<and> db_orders d' \<noteq> []"
proof -
  have ap: "decide 12 (cc_approval_config sample_command) (VDec (Finite (dint 2000))) (Aware 0 0)
      (cc_expires_at sample_command) =
      Inr \<lparr>ad_approval_id = 12, ad_status = Approved, ad_reason = ''auto policy''\<rparr>"
    by (simp add: decide_def as_utc_def sample_command_def to_command_def
      sample_request_def ApprovalPolicyConfig_def CreateIntentCommand_def run_model_def
      conditional_requires_limit_def complain_def command_pricing_reference_def)
  let ?i = "command_intent 13 sample_command"
  have i: "column_price (ei_quantity ?i)" "optional_price (ei_limit_price ?i)"
      "sha256_key (ei_idempotency_key ?i)"
    using ExecutionIntent_contract [OF sample_intent_valid] by (simp_all add: intent_contract_def)
  have lens: "ei_market ?i = ''FX''" "ei_symbol ?i = ''XAUUSD''" "ei_currency ?i = ''USD''"
      "ei_target_version ?i = 1"
    by (simp_all add: command_intent_def sample_command_def to_command_def sample_request_def
      ApprovalPolicyConfig_def CreateIntentCommand_def run_model_def conditional_requires_limit_def
      complain_def command_pricing_reference_def)
  have ok: "constraints_ok (stored_intent_db 14 sample_fresh ?i QUEUED risk a empty_db)" for risk a
    using i lens
    by (auto simp: constraints_ok_def stored_intent_db_def empty_db_def unique_by_def order_row_ok_def
        new_order_record_def positive_or_null_def text_or_null_def optional_price_def column_price_def
        sample_fresh_def sha256_key_def split: option.split)
  have n: "cc_quantity sample_command * dint 2000 = dint 2000"
    by (simp add: sample_command sample_notional)
  let ?ap = "\<lparr>ad_approval_id = 12, ad_status = Approved, ad_reason = ''auto policy''\<rparr>"
  let ?d' = "stored_intent_db 14 sample_fresh ?i (APPROVAL_STATES Approved)
      (accepted_risk sample_fresh sample_command (cc_quantity sample_command * dint 2000)) ?ap empty_db"
  have "(\<exists>resp. create_intent mem_session 14 sample_fresh sample_request (empty_db, empty_db) =
      (Inr resp, (?d', ?d'))) \<and>
    create_intent cut_session 14 sample_fresh sample_request (empty_db, empty_db) =
      (Inl (RuntimeError ''connection lost''), (?d', ?d'))"
    using mem_create [OF sample_command(1,2), of sample_fresh ?ap ?i 14 empty_db]
      sample_context_ok sample_intent_valid ap ok
    by (simp add: n sample_notional risk_passes_def sample_fresh_def sample_command)
  moreover have "db_orders ?d' \<noteq> []" by (simp add: stored_intent_db_def)
  ultimately show "\<exists>resp d'. create_intent mem_session 14 sample_fresh sample_request (empty_db, empty_db) =
      (Inr resp, (d', d'))"
    "\<exists>d'. create_intent cut_session 14 sample_fresh sample_request (empty_db, empty_db) =
       (Inl (RuntimeError ''connection lost''), (d', d')) \<and> db_orders d' \<noteq> []"
    by blast+
qed

section \<open>Properties\<close>

text \<open>C6: An order exists only because it passed the gate: when the request succeeds, exactly one
  order was committed, on top of what the transaction saw; its risk check passed (or it only
  reduces), its state is the one the approval policy and the deadline prescribe, it carries
  the identifiers of its risk decision and approval, and it is announced in the outbox
  exactly when it is queued.\<close>

theorem created_order_passed_the_gate:
  assumes "sql_session S live durable" and "create_intent S ev fr q s = (Inr resp, s')"
  shows "\<exists>c anchor i. to_command q = Inr c \<and> command_pricing_reference c = Some anchor \<and>
    (cc_reduce_only c \<or>
       within_limits (command_context c (cc_quantity c * anchor)) (cc_risk_rules c)) \<and>
    ExecutionIntent (command_intent (fr_intent_id fr) c) = Inr i \<and>
    cp_state resp = state_value (expected_state fr c (cc_quantity c * anchor)) \<and>
    db_orders (durable s') = db_orders (live s) @
      [new_order_record i (expected_state fr c (cc_quantity c * anchor)) (fr_decision_id fr) (fr_approval_id fr)] \<and>
    map ob_message_key (db_outbox (durable s')) = map ob_message_key (db_outbox (live s)) @
      (if expected_state fr c (cc_quantity c * anchor) = QUEUED then [ei_idempotency_key i] else [])"
  by (rule sql_session.create_intent_created [OF assms])
    (auto simp: risk_passes_def)

theorem created_order_passed_the_gate_witness:
  "\<exists>resp d' i. create_intent mem_session 14 sample_fresh sample_request (empty_db, empty_db) = (Inr resp, (d', d')) \<and>
     db_orders d' = [i]"
proof -
  from sample_created(1) obtain resp d' where
    r: "create_intent mem_session 14 sample_fresh sample_request (empty_db, empty_db) = (Inr resp, (d', d'))"
    by blast
  show ?thesis
    using created_order_passed_the_gate [OF mem.sql_session_axioms r] r by (auto simp: empty_db_def)
qed

text \<open>C7: A request that fails leaves nothing half done: started in a clean transaction, whatever
  goes wrong (validation, risk, a duplicate, the database, a cancellation), the committed
  orders and the outbox are unchanged and the caller gets a 422 or 409 response or the
  database's own exception; or the database raised while the commit of an order that had
  passed the gate was under way, and then that order is committed as a whole, with the state,
  the evidence and the announcement a successful request has.\<close>

theorem failed_request_is_atomic:
  assumes "sql_session S live durable" and "live s = durable s"
    and "create_intent S ev fr q s = (Inl e, s')"
  shows "(db_orders (durable s') = db_orders (durable s) \<and> db_outbox (durable s') = db_outbox (durable s) \<and>
     ((\<exists>m. e = HTTPException 422 m) \<or> (\<exists>m. e = HTTPException 409 m) \<or> database_error e)) \<or>
    (database_error e \<and>
     (\<exists>c anchor i. to_command q = Inr c \<and> command_pricing_reference c = Some anchor \<and>
        (cc_reduce_only c \<or>
           within_limits (command_context c (cc_quantity c * anchor)) (cc_risk_rules c)) \<and>
        ExecutionIntent (command_intent (fr_intent_id fr) c) = Inr i \<and>
        db_orders (durable s') = db_orders (durable s) @
          [new_order_record i (expected_state fr c (cc_quantity c * anchor)) (fr_decision_id fr) (fr_approval_id fr)] \<and>
        map ob_message_key (db_outbox (durable s')) = map ob_message_key (db_outbox (durable s)) @
          (if expected_state fr c (cc_quantity c * anchor) = QUEUED then [ei_idempotency_key i] else [])))"
proof (rule sql_session.create_intent_failed [OF assms(1,3,2)], goal_cases)
  case unchanged: 1
  have "response_error e" by (rule sql_session.create_intent_response [OF assms(1,3)])
  then have "(\<exists>m. e = HTTPException 422 m) \<or> (\<exists>m. e = HTTPException 409 m) \<or> database_error e"
    by (cases e) auto
  then show ?case using unchanged by simp
next
  case stored: (2 r s1)
  show ?case
    by (rule sql_session.service_call_created [OF assms(1) stored(2)])
      (use stored(1,3) assms(2) in \<open>auto simp: risk_passes_def\<close>)
qed

theorem failed_request_is_atomic_witness:
  "\<exists>d' i. create_intent cut_session 14 sample_fresh sample_request (empty_db, empty_db) =
      (Inl (RuntimeError ''connection lost''), (d', d')) \<and>
    db_orders d' = [i] \<and> or_risk_decision_id i = Some 11 \<and> or_approval_id i = Some 12"
proof -
  obtain d' where
    r: "create_intent cut_session 14 sample_fresh sample_request (empty_db, empty_db) =
      (Inl (RuntimeError ''connection lost''), (d', d'))" and d': "db_orders d' \<noteq> []"
    using sample_created(2) by blast
  show ?thesis
    using failed_request_is_atomic [OF cut.sql_session_axioms _ r] r d'
    by (auto simp: empty_db_def new_order_record_def sample_fresh_def)
qed

text \<open>A request that is refused by the validation is an instance of the first case.\<close>

lemma invalid_request_changes_nothing:
  "create_intent mem_session 14 sample_fresh (sample_request\<lparr>cq_limit_price := None\<rparr>) (d, d) =
     (Inl (HTTPException 422 ''invalid''), (d, d))"
  by (simp add: create_intent_def to_command_def sample_request_def io_steps handle_create_error_def
      mem_session_def io_defs)


text \<open>
  The exceptions reachable from the driver's error through \<open>__cause__\<close>.
\<close>

definition causes :: "error_heap \<Rightarrow> nat \<Rightarrow> nat set" where
  "causes h n = {m. (\<lambda>a b. en_cause (node h a) = Some b)\<^sup>*\<^sup>* n m}"

lemma causes_closed:
  "n \<in> causes h n" "m \<in> causes h n \<Longrightarrow> en_cause (node h m) = Some k \<Longrightarrow> k \<in> causes h n"
  by (auto simp: causes_def intro: rtranclp.rtrancl_into_rtrancl)

lemma causes_within:
  assumes "n \<in> V" "\<And>v k. v \<in> V \<Longrightarrow> en_cause (node h v) = Some k \<Longrightarrow> k \<in> V"
  shows "causes h n \<subseteq> V"
proof
  fix m assume "m \<in> causes h n"
  then have "(\<lambda>a b. en_cause (node h a) = Some b)\<^sup>*\<^sup>* n m" by (simp add: causes_def)
  then show "m \<in> V" by (induction rule: rtranclp_induct) (use assms in blast)+
qed

text \<open>
  The walk from \<open>n\<close> has seen \<open>V\<close>, all of it reachable, and each cause of a seen exception
  is seen or is the current one.
\<close>

lemma walk_causes_result:
  assumes "set V \<subseteq> causes h n" "n \<in> set V \<or> cur = Some n" "\<forall>k. cur = Some k \<longrightarrow> k \<in> causes h n"
    and "\<forall>v \<in> set V. \<forall>k. en_cause (node h v) = Some k \<longrightarrow> k \<in> set V \<or> cur = Some k"
    and "p = (\<exists>v \<in> set V. node_sqlstate (node h v))" "q = (\<exists>v \<in> set V. node_constraint (node h v))"
  shows "walk_causes h V p q cur =
    ((\<exists>m \<in> causes h n. node_sqlstate (node h m)), (\<exists>m \<in> causes h n. node_constraint (node h m)))"
  using assms
proof (induction h V p q cur rule: walk_causes.induct)
  case (1 h visited p q)
  then have "causes h n \<subseteq> set visited" by (intro causes_within) auto
  then show ?case using 1 by auto
next
  case (2 h visited p q c)
  show ?case
  proof (cases "c \<in> set visited")
    case True
    then have "causes h n \<subseteq> set visited" using 2 by (intro causes_within) auto
    then have "causes h n = set visited" using 2 by blast
    then show ?thesis using 2 True by simp
  next
    case False
    have "c \<in> causes h n" using 2 by blast
    then have "walk_causes h (c # visited) (p \<or> node_sqlstate (node h c)) (q \<or> node_constraint (node h c))
        (en_cause (node h c)) =
      ((\<exists>m \<in> causes h n. node_sqlstate (node h m)), (\<exists>m \<in> causes h n. node_constraint (node h m)))"
      using 2 False causes_closed(2) by (intro "2.IH") auto
    then show ?thesis using False by simp
  qed
qed

text \<open>Recognising a duplicate always ends, also when the chain of causes closes on itself,
  and answers exactly whether some exception of the chain has the SQLSTATE of a unique
  violation and some exception of the chain names the idempotency constraint.\<close>

lemma duplicate_recognition_exact:
  "is_duplicate_intent_integrity_error h orig error \<longleftrightarrow>
     (\<exists>m \<in> causes h (case orig of None \<Rightarrow> error | Some n \<Rightarrow> n). node_sqlstate (node h m)) \<and>
     (\<exists>m \<in> causes h (case orig of None \<Rightarrow> error | Some n \<Rightarrow> n). node_constraint (node h m))"
proof -
  have "walk_causes h [] False False (Some n) =
    ((\<exists>m \<in> causes h n. node_sqlstate (node h m)), (\<exists>m \<in> causes h n. node_constraint (node h m)))" for n
    by (rule walk_causes_result) (auto simp: causes_closed)
  then show ?thesis
    by (cases orig) (simp_all add: is_duplicate_intent_integrity_error_def Let_def)
qed

end
