(* ===== verification/Worker_Safety.thy ===== *)
theory Worker_Safety
  imports Execution_Worker Intent_Safety
begin

text \<open>
  The outbox consumers as a whole: what the worker and the dispatcher do to the committed
  outbox, on every session, and how stored orders travel from creation to the broker.
\<close>

section \<open>Turns of the worker\<close>

context outbox_queue
begin

lemma run_forever_accounts:
  assumes "run_forever W answers w = (x, w')" "unique_events w" "accounted e w"
  shows "accounted e w'"
  using assms
proof (induction answers arbitrary: w)
  case Nil
  then show ?case by (simp add: io_ret_def)
next
  case (Cons stopped answers)
  show ?case
  proof (cases stopped)
    case True
    then show ?thesis using Cons.prems by (simp add: io_ret_def)
  next
    case False
    obtain y w1 where r: "run_once W 10 w = (y, w1)" by fastforce
    then have a: "accounted e w1" "unique_events w1"
      using run_loop_accounts [of 10 0 w y w1] Cons.prems by (simp_all add: run_once_def)
    have "w' = w1 \<or> run_forever W answers w1 = (x, w')"
      using Cons.prems(1) False r
      by (auto simp: io_bind_def io_catch_def io_ret_def io_raise_def split: sum.splits if_splits)
    then show ?thesis using a Cons.IH by blast
  qed
qed

text \<open>A turn that always raises at the first event leaves the queue as it is, for ever.\<close>

lemma run_forever_stuck:
  assumes "run_forever W answers w = (x, w')" "I w"
    and "\<And>w y w1. I w \<Longrightarrow> process_one W w = (y, w1) \<Longrightarrow> I w1 \<and> pending w1 = pending w \<and> (\<exists>e. y = Inl e)"
  shows "pending w' = pending w \<and> I w'"
  using assms(1,2)
proof (induction answers arbitrary: w)
  case Nil
  then show ?case by (simp add: io_ret_def)
next
  case (Cons stopped answers)
  show ?case
  proof (cases stopped)
    case True
    then show ?thesis using Cons.prems by (simp add: io_ret_def)
  next
    case False
    obtain y w1 where p: "process_one W w = (y, w1)" by fastforce
    note st = assms(3) [OF Cons.prems(2) p]
    then obtain e where "y = Inl e" by blast
    moreover have "run_once W 10 w = (Inl e, w1)"
      using p \<open>y = Inl e\<close> by (simp add: run_once_def io_bind_def eval_nat_numeral)
    ultimately have "w' = w1 \<or> run_forever W answers w1 = (x, w')"
      using Cons.prems(1) False
      by (auto simp: io_bind_def io_catch_def io_ret_def io_raise_def split: sum.splits if_splits)
    then show ?thesis using st Cons.IH by metis
  qed
qed

text \<open>
  When executing the intent of the first event raises an error that is not terminal, the turn
  raises and the event stays; \<open>J\<close> is what the failure depends on.
\<close>

lemma process_one_transient:
  assumes run: "process_one W w = (x, w')" and head: "pending w = e # es" "read_intent_id e = Some i"
    and J: "J w" "keeps J (wo_open W)" "keeps J (wo_close W)" "keeps J (wo_rollback W)"
      "\<And>n t. keeps J (wo_claim W n t)"
    and fails: "\<And>w. J w \<Longrightarrow> \<exists>ex w1. wo_execute_intent W i w = (Inl ex, w1) \<and> \<not> terminal_error ex \<and> J w1"
  shows "J w' \<and> pending w' = pending w \<and> (\<exists>ex. x = Inl ex)"
proof -
  have handle: "(\<exists>ex. y = Inl ex) \<and> J w2 \<and> pending w2 = pending w1" if h: "handle_event W e w1 = (y, w2)" and j: "J w1" for y w1 w2
  proof -
    obtain ex w3 where f: "wo_execute_intent W i w1 = (Inl ex, w3)" "\<not> terminal_error ex" "J w3"
      using fails [OF j] by blast
    obtain z w4 where rb: "wo_rollback W w3 = (z, w4)" by fastforce
    have "J w4" "pending w4 = pending w1" "pending w3 = pending w1"
      using keepsD [OF J(4) f(3) rb] rollback_frame [OF rb] execute_logs [OF f(1)] by simp_all
    then show ?thesis using h head(2) f rb
      by (cases "is_exception ex")
        (auto simp: handle_event_def io_bind_def io_catch_def io_raise_def split: sum.splits)
  qed
  let ?body = "io_bind (wo_claim W 1 (Some EXECUTION_TOPIC)) (\<lambda>events.
          case events of [] \<Rightarrow> io_ret False | event # _ \<Rightarrow> handle_event W event)"
  have body: "(\<exists>ex. y = Inl ex) \<and> J w2 \<and> pending w2 = pending w1" if b: "?body w1 = (y, w2)" and w1: "J w1" "opened w1" "pending w1 = pending w"
    for y w1 w2
  proof -
    obtain c w3 where c: "wo_claim W 1 (Some EXECUTION_TOPIC) w1 = (c, w3)" by fastforce
    have "J w3" "pending w3 = pending w1" using keepsD [OF J(5) w1(1) c] claim_frame [OF c] by simp_all
    then show ?thesis
    proof (cases c)
      case (Inl ex)
      then show ?thesis using b c \<open>J w3\<close> \<open>pending w3 = pending w1\<close> by (auto simp: io_bind_def)
    next
      case (Inr evs)
      then have "evs = [e]" using claim_first [of w1 evs w3] w1 head(1) c by simp
      then show ?thesis using handle [of w3 y w2] b c Inr \<open>J w3\<close> \<open>pending w3 = pending w1\<close>
        by (simp add: io_bind_def)
    qed
  qed
  obtain a w1 where op: "wo_open W w = (a, w1)" by fastforce
  have j1: "J w1" "pending w1 = pending w" using keepsD [OF J(2,1) op] open_frame [OF op] by simp_all
  show ?thesis
  proof (cases a)
    case (Inl ex)
    then show ?thesis using run op j1 by (auto simp: process_one_def with_outbox_def io_bind_def)
  next
    case (Inr u)
    obtain y w2 where b: "?body w1 = (y, w2)" by fastforce
    obtain z w3 where cl: "wo_close W w2 = (z, w3)" by fastforce
    have yJ: "(\<exists>ex. y = Inl ex) \<and> J w2 \<and> pending w2 = pending w"
      using body [OF b j1(1) open_opens [OF op [unfolded Inr]] j1(2)] j1(2) by simp
    then have "J w3" "pending w3 = pending w" using keepsD [OF J(3) _ cl] close_frame [OF cl] by auto
    then show ?thesis using run op Inr b cl yJ
      by (auto simp: process_one_def with_outbox_def io_bind_def [of "wo_open W"] io_finally_def
          split: sum.splits)
  qed
qed

end

section \<open>The dispatcher on a session\<close>

definition session_dispatcher ::
  "'s session_ops \<Rightarrow> pydatetime \<Rightarrow> (string \<Rightarrow> string \<Rightarrow> json \<Rightarrow> (string, 'p) io) \<Rightarrow> ('s \<times> 'p) dispatcher_ops" where
  "session_dispatcher S now publish =
     \<lparr>dp_claim = (\<lambda>n. on_fst (claim S n None)),
      dp_mark_published = (\<lambda>k. on_fst (mark_published S now k)),
      dp_rollback = on_fst (outbox_rollback S),
      dp_publish = (\<lambda>t k p. on_snd (publish t k p))\<rparr>"

definition distinct_events :: "db \<Rightarrow> bool" where
  "distinct_events d \<longleftrightarrow> distinct (map ob_id (db_outbox d))"

lemma distinct_events_put [simp]: "distinct_events (put_outbox r d) = distinct_events d"
proof -
  have "map ob_id (db_outbox (put_outbox r d)) = map ob_id (db_outbox d)" by (auto simp: put_outbox_def)
  then show ?thesis by (simp only: distinct_events_def)
qed

lemma distinct_unpublished: "distinct_events d \<Longrightarrow> distinct (map ob_id (unpublished t d))"
  by (auto simp: distinct_events_def unpublished_def distinct_map intro: inj_on_subset [of ob_id])

lemma unpublished_head:
  assumes "distinct_events d" "unpublished t d = r # rs"
  shows "filter (\<lambda>x. ob_id x \<noteq> ob_id r) (unpublished t d) = rs"
proof -
  from distinct_unpublished [OF assms(1), of t] show ?thesis using assms(2) by (auto simp: filter_id_conv rev_image_eqI)
qed

context sql_session
begin

lemma dispatch_loop_Inr:
  assumes "dispatch_loop (session_dispatcher S now publish) n k (s, p) = (Inr m, (s', p'))"
    and "live s = durable s" "distinct_events (durable s)"
  shows "m = k + min n (length (unpublished None (durable s))) \<and>
    unpublished None (durable s') = drop n (unpublished None (durable s))"
  using assms
proof (induction n arbitrary: k s p)
  case 0
  then show ?case by (simp add: io_ret_def)
next
  case (Suc n)
  let ?D = "session_dispatcher S now publish"
  obtain c s1 where c: "claim S 1 None s = (c, s1)" by fastforce
  obtain es where es: "c = Inr es" using Suc.prems(1) c
    by (cases c) (auto simp: session_dispatcher_def io_bind_def on_fst_def)
  note cl = claim_ok [OF c [unfolded es]] and d1 = keepsD [OF keeps_claim refl c]
  show ?case
  proof (cases "unpublished None (durable s)")
    case Nil
    then have "es = []" using cl Suc.prems by simp
    then show ?thesis using Suc.prems(1) c es cl d1 Nil
      by (auto simp: session_dispatcher_def io_bind_def on_fst_def io_ret_def)
  next
    case (Cons r rs)
    then have e: "es = [event_of r]" using cl Suc.prems by simp
    obtain y p1 where pub: "publish (ob_topic r) (ob_message_key r) (ob_payload r) p = (y, p1)" by fastforce
    obtain z s2 where mk: "mark_published S now (str_uuid (ob_id r)) s1 = (z, s2)" by fastforce
    have "\<exists>u. y = Inr u" using Suc.prems(1) c es e pub
      by (auto simp: session_dispatcher_def io_bind_def on_fst_def on_snd_def io_catch_def io_raise_def
          event_of_def split: sum.splits prod.splits)
    then have rest: "z = Inr () \<and> dispatch_loop ?D n (k + 1) (s2, p1) = (Inr m, (s', p'))"
      using Suc.prems(1) c es e pub mk
      by (auto simp: session_dispatcher_def io_bind_def on_fst_def on_snd_def io_catch_def io_raise_def
          event_of_def io_ret_def split: sum.splits prod.splits)
    obtain q where q: "find_outbox (ob_id r) (live s1) = Some q" "live s2 = durable s2"
      "durable s2 = put_outbox (q\<lparr>ob_published_at := Some now\<rparr>) (live s1)"
      using mark_ok [of now "ob_id r" s1 s2] mk rest by auto
    have "unpublished None (durable s2) = rs"
      using unpublished_put [OF q(1), of None now] unpublished_head [OF Suc.prems(3) Cons] q(3) cl(2)
        Suc.prems(2) by simp
    moreover have "distinct_events (durable s2)" using q(3) cl(2) Suc.prems by simp
    ultimately show ?thesis using Suc.IH [of "k + 1" s2 p1] rest q(2) Cons by simp
  qed
qed

end


lemma topic_subset: "unpublished None d = [] \<Longrightarrow> unpublished t d = []"
  by (auto simp: unpublished_def filter_empty_conv simp flip: set_empty)

lemma committed_distinct:
  assumes "distinct_events d"
  shows "distinct (map ev_id (committed_events d))"
proof -
  from distinct_unpublished [OF assms] have "distinct (map str_uuid (map ob_id (unpublished (Some EXECUTION_TOPIC) d)))"
    by (subst distinct_map) (auto intro: inj_onI)
  then show ?thesis by (simp add: committed_events_def event_of_def o_def)
qed

text \<open>
  Executions that each open a session of their own: \<open>reopen\<close> starts the new transaction, and the
  lock is the first operation of an execution.
\<close>

definition session_per_execution ::
  "('r \<Rightarrow> 'r) \<Rightarrow> 'r execution_repository_ops \<Rightarrow> 'r execution_repository_ops" where
  "session_per_execution reopen Rp =
     Rp\<lparr>er_lock_for_execution := (\<lambda>i r. er_lock_for_execution Rp i (reopen r))\<rparr>"

lemma execute_session_per_execution:
  "execute (session_per_execution reopen Rp) B i (r, b) = execute Rp B i (reopen r, b)"
proof -
  let ?Rq = "session_per_execution reopen Rp"
  have l: "er_lock_for_execution ?Rq i (r :: 'a) = er_lock_for_execution Rp i (reopen r)" for i r
    by (simp add: session_per_execution_def)
  have p: "persist_result ?Rq = persist_result Rp"
    by (simp add: persist_result_def fun_eq_iff session_per_execution_def)
  have "execute_body ?Rq B i (r, b) = execute_body Rp B i (reopen r, b)"
    unfolding execute_body_def io_bind_def [of "on_fst (er_lock_for_execution ?Rq i)"]
      io_bind_def [of "on_fst (er_lock_for_execution Rp i)"] p
    by (simp only: on_fst_def fst_conv snd_conv l)
  then show ?thesis
    by (simp add: execute_def Let_def io_bind_def io_catch_def session_per_execution_def)
qed

definition stocked_db :: "outbox_record list \<Rightarrow> db" where
  "stocked_db evs = \<lparr>db_orders = [], db_audits = [], db_outbox = evs\<rparr>"

definition broken_event :: outbox_record where
  "broken_event = \<lparr>ob_id = 14, ob_topic = ''execution.intent.ready'', ob_message_key = ''k'',
     ob_payload = JNull, ob_created_at = 0, ob_published_at = None\<rparr>"

abbreviation mem_worker ::
  "pydatetime \<Rightarrow> fake_broker broker_ops \<Rightarrow> (db \<times> db, db \<times> db, fake_broker) worker_world worker_ops" where
  "mem_worker now B \<equiv> session_worker mem_session now (order_execution_repository mem_session) B"

definition sample_world :: "outbox_record list \<Rightarrow> db \<Rightarrow> (db \<times> db, db \<times> db, fake_broker) worker_world" where
  "sample_world evs d = (((stocked_db evs, stocked_db evs), ((d, d), new_fake_broker)), [])"

lemma broken_event_consumed:
  "\<exists>w'. run_once (mem_worker (Aware 0 0) (fake_ops (Aware 0 0))) 1 (sample_world [broken_event] empty_db) = (Inr 1, w')"
  by (simp add: run_once_def process_one_def with_outbox_def session_worker_def sample_world_def
      stocked_db_def broken_event_def claim_def mark_published_def mark_published_body_def
      handle_event_def read_intent_id_def event_of_def mem_session_def mem_flush_def io_defs
      unpublished_def find_outbox_def put_outbox_def constraints_ok_def unique_by_def
      EXECUTION_TOPIC_def)

section \<open>Properties\<close>

text \<open>C9: The worker takes the events in order and counts them right: when \<open>run_once\<close> returns
  normally with a limit, exactly the first pending events, as many as the limit allows, have
  been published, and their number is what it returns.\<close>

theorem worker_processes_in_order:
  assumes "sql_session S live durable" and "distinct_events (durable (fst (fst w)))"
    and "run_once (session_worker S now Rp B) limit w = (Inr m, w')"
  shows "m = min limit (length (committed_events (durable (fst (fst w))))) \<and>
    committed_events (durable (fst (fst w'))) = drop limit (committed_events (durable (fst (fst w))))"
proof -
  note q = sql_session.worker_queue [OF assms(1)]
  show ?thesis
    using outbox_queue.run_loop_Inr [OF q, of now Rp B limit 0 w m w'] assms(2,3) committed_distinct
    by (simp add: run_once_def outbox_queue.unique_events_def [OF q])
qed

theorem worker_processes_in_order_witness:
  "\<exists>w'. run_once (mem_worker (Aware 0 0) (fake_ops (Aware 0 0))) 1 (sample_world [broken_event] empty_db) = (Inr 1, w') \<and>
     committed_events (snd (fst (fst w'))) = []"
proof -
  from broken_event_consumed obtain w' where
    r: "run_once (mem_worker (Aware 0 0) (fake_ops (Aware 0 0))) 1 (sample_world [broken_event] empty_db) = (Inr 1, w')"
    by blast
  have e: "committed_events (snd (fst (fst (sample_world [broken_event] empty_db)))) = [event_of broken_event]"
    by (simp add: sample_world_def stocked_db_def committed_events_def unpublished_def
        broken_event_def EXECUTION_TOPIC_def)
  have "distinct_events (snd (fst (fst (sample_world [broken_event] empty_db))))"
    by (simp add: sample_world_def stocked_db_def distinct_events_def)
  from worker_processes_in_order [OF mem.sql_session_axioms this r] show ?thesis using r e by simp
qed

text \<open>C8: No event is lost: however long the worker runs and whatever raises in between, every
  event that was pending is pending still, or its payload does not name an intent, or the log of
  the executions shows one of its intent that returned or failed with an error that no retry
  can change.\<close>

theorem worker_loses_no_event:
  assumes "sql_session S live durable" and "distinct_events (durable (fst (fst w)))"
    and "e \<in> set (committed_events (durable (fst (fst w))))"
    and "run_forever (session_worker S now Rp B) answers w = (x, w')"
  shows "e \<in> set (committed_events (durable (fst (fst w')))) \<or> read_intent_id e = None \<or>
    (\<exists>i y. read_intent_id e = Some i \<and> (i, y) \<in> set (snd w') \<and>
       (case y of Inr _ \<Rightarrow> True | Inl ex \<Rightarrow> terminal_error ex))"
proof -
  note q = sql_session.worker_queue [OF assms(1)]
  show ?thesis
    using outbox_queue.run_forever_accounts [OF q assms(4), of e] assms(3) committed_distinct [OF assms(2)]
    by (simp add: outbox_queue.unique_events_def [OF q] outbox_queue.accounted_def [OF q]
        outbox_queue.done_with_def [OF q] settled_def)
qed

theorem worker_loses_no_event_witness:
  "event_of broken_event \<in> set (committed_events (snd (fst (fst (snd
       (run_forever (mem_worker (Aware 0 0) (fake_ops (Aware 0 0))) [False, False, True]
          (sample_world [broken_event] empty_db))))))) \<or> read_intent_id (event_of broken_event) = None"
proof -
  obtain x w' where r: "run_forever (mem_worker (Aware 0 0) (fake_ops (Aware 0 0))) [False, False, True]
      (sample_world [broken_event] empty_db) = (x, w')" by (rule prod.exhaust)
  have "event_of broken_event \<in> set (committed_events (snd (fst (fst (sample_world [broken_event] empty_db)))))"
    by (simp add: sample_world_def stocked_db_def committed_events_def unpublished_def
        broken_event_def EXECUTION_TOPIC_def)
  moreover have "distinct_events (snd (fst (fst (sample_world [broken_event] empty_db))))"
    by (simp add: sample_world_def stocked_db_def distinct_events_def)
  ultimately show ?thesis
    using worker_loses_no_event [OF mem.sql_session_axioms _ _ r, of "event_of broken_event"] r
    by (auto simp: read_intent_id_def event_of_def broken_event_def)
qed

text \<open>The event a queued order is announced with is read back by the worker as that order:
  the topic is the worker's and the payload gives the order's identifier.\<close>

lemma announced_order_is_read_back:
  "ev_topic (event_of (intent_ready_event ev i)) = EXECUTION_TOPIC \<and>
   read_intent_id (event_of (intent_ready_event ev i)) = Some (ei_intent_id i)"
  by (simp add: event_of_def intent_ready_event_def EXECUTION_TOPIC_def read_intent_id_def json_get_def)


text \<open>The dispatcher publishes every topic: a normal return with a sufficient limit empties the
  outbox, the execution topic included, so an order announced for the worker is no longer
  pending for it although nothing was executed.\<close>

lemma dispatcher_takes_execution_events:
  assumes "sql_session S live durable" and "live s = durable s" and "distinct_events (durable s)"
    and "dispatch_once (session_dispatcher S now publish) limit (s, p) = (Inr m, (s', p'))"
    and "length (unpublished None (durable s)) \<le> limit"
  shows "m = length (unpublished None (durable s)) \<and> committed_events (durable s') = []"
  using sql_session.dispatch_loop_Inr [OF assms(1) assms(4) [unfolded dispatch_once_def dispatch_batch_def]
      assms(2,3)] assms(5) topic_subset [of "durable s'"]
  by (simp add: committed_events_def)

text \<open>C10: A stored market order stops the worker: when the oldest pending event announces a queued
  order that was stored from a valid market intent, then on any outbox session, any order
  session (opened anew for each execution) and any broker, and however long the worker runs, the
  queue, every order and the broker stay exactly as they are; the only executions ever tried
  are of that one order, all of them fail in a way the worker will retry, and so nothing behind
  that event is ever executed.\<close>

theorem market_order_blocks_the_queue:
  assumes "sql_session S live durable" and "sql_session T orders_live orders_durable"
    and "broker_adapter B sent"
    and "\<And>t. orders_live (reopen t) = orders_durable t \<and> orders_durable (reopen t) = orders_durable t"
    and "committed_events (durable s) = e # es" and "read_intent_id e = Some i"
    and "find_order i (orders_durable t) = Some (new_order_record m QUEUED r a)"
    and "ExecutionIntent m = Inr m" and "ei_order_type m = MARKET"
    and "run_forever (session_worker S now (session_per_execution reopen (order_execution_repository T)) B)
      answers ((s, (t, b)), []) = (x, ((s', (t', b')), tried))"
  shows "committed_events (durable s') = e # es \<and>
    (\<forall>j. find_order j (orders_durable t') = find_order j (orders_durable t)) \<and> b' = b \<and>
    (\<forall>entry \<in> set tried. \<exists>ex. entry = (i, Inl ex) \<and> \<not> is_lookup_error ex \<and> \<not> is_permission_error ex)"
proof -
  let ?W = "session_worker S now (session_per_execution reopen (order_execution_repository T)) B"
  let ?p = "\<lambda>w. committed_events (durable (fst (fst w)))"
  define J where "J w \<longleftrightarrow>
    (\<forall>j. find_order j (orders_durable (fst (snd (fst w)))) = find_order j (orders_durable t)) \<and>
    snd (snd (fst w)) = b \<and> (\<forall>entry \<in> set (snd w). \<exists>ex. entry = (i, Inl ex) \<and> \<not> terminal_error ex)"
    for w :: "('a \<times> ('b \<times> 'c)) \<times> (uuid \<times> unit result) list"
  note q = sql_session.worker_queue [OF assms(1)]
  obtain msgs where bad: "as_domain (new_order_record m QUEUED r a) = Inl (ValidationError msgs)"
    using market_row_unreadable [OF assms(8,9)] by blast
  have fails: "\<exists>ex w1. wo_execute_intent ?W i w = (Inl ex, w1) \<and> \<not> terminal_error ex \<and> J w1"
    if Jw: "J w" for w
  proof -
    obtain y t1 b1 where run: "execute_on T B i (reopen (fst (snd (fst w))), b) = (y, (t1, b1))"
      by (metis prod.exhaust)
    have "find_order i (orders_durable (reopen (fst (snd (fst w))))) = Some (new_order_record m QUEUED r a)"
      using Jw assms(4,7) by (simp add: J_def)
    from execution.execute_unreadable [OF execution_of [OF assms(2,3)] run _ this _ _ bad]
    obtain ex where ex: "y = Inl ex" "ex = ValidationError msgs \<or> database_error ex" "b1 = b"
      "\<forall>j. find_order j (orders_durable t1) = find_order j (orders_durable (fst (snd (fst w))))"
      using assms(4) by (auto simp: has_evidence_def new_order_record_def fun_eq_iff)
    have "snd (fst w) = (fst (snd (fst w)), b)" using Jw by (metis J_def prod.collapse)
    then have run': "execute (session_per_execution reopen (order_execution_repository T)) B i (snd (fst w)) =
        (Inl ex, (t1, b1))"
      using execute_session_per_execution [of reopen _ B i "fst (snd (fst w))" b] run ex(1) by metis
    have "\<not> terminal_error ex" using ex(2) database_error_kind by (auto simp: terminal_error_def)
    then show ?thesis using Jw ex run'
      by (auto simp: session_worker_def log_and_execute_def Let_def J_def)
  qed
  have J: "keeps J (wo_open ?W)" "keeps J (wo_close ?W)" "keeps J (wo_rollback ?W)"
    "\<And>n t. keeps J (wo_claim ?W n t)"
    unfolding session_worker_def worker_ops.simps
    by (rule keepsI, simp only: lift_twice, elim exE conjE, simp add: J_def)+
  have turn: "(J w1 \<and> ?p w1 = e # es) \<and> ?p w1 = ?p w \<and> (\<exists>ex. y = Inl ex)"
    if "J w \<and> ?p w = e # es" "process_one ?W w = (y, w1)" for w y w1
    using outbox_queue.process_one_transient [OF q that(2) conjunct2 [OF that(1)] assms(6)
        conjunct1 [OF that(1)] J fails] that(1) by simp
  have start: "J ((s, (t, b)), []) \<and> ?p ((s, (t, b)), []) = e # es" using assms(5) by (simp add: J_def)
  from outbox_queue.run_forever_stuck [OF q assms(10), of "\<lambda>w. J w \<and> ?p w = e # es", OF start turn]
  have "?p ((s', (t', b')), tried) = e # es \<and> J ((s', (t', b')), tried)" by blast
  then show ?thesis by (auto simp: J_def terminal_error_def)
qed

definition blocked_db :: db where
  "blocked_db = \<lparr>db_orders = [new_order_record market_intent QUEUED 7 8], db_audits = [], db_outbox = []\<rparr>"

abbreviation fresh_mem_repository :: "(db \<times> db) execution_repository_ops" where
  "fresh_mem_repository \<equiv> session_per_execution (\<lambda>t. (snd t, snd t)) (order_execution_repository mem_session)"

theorem market_order_blocks_the_queue_witness:
  "\<exists>x s' t' b' tried. run_forever
      (session_worker mem_session (Aware 0 0) fresh_mem_repository (fake_ops (Aware 0 0)))
      [False, False, False] (sample_world [intent_ready_event 14 market_intent] blocked_db) =
      (x, ((s', (t', b')), tried)) \<and>
    committed_events (snd s') = [event_of (intent_ready_event 14 market_intent)] \<and>
    (\<forall>entry \<in> set tried. fst entry = 5)"
proof -
  let ?d = "stocked_db [intent_ready_event 14 market_intent]"
  have split4: "\<exists>x s' t' b' tried. p = (x, ((s', (t', b')), tried))"
    for p :: "unit result \<times> (db \<times> db, db \<times> db, fake_broker) worker_world"
    by (metis prod.exhaust)
  obtain x s' t' b' tried where r: "run_forever
      (session_worker mem_session (Aware 0 0) fresh_mem_repository (fake_ops (Aware 0 0)))
      [False, False, False] (((?d, ?d), ((blocked_db, blocked_db), new_fake_broker)), []) =
      (x, ((s', (t', b')), tried))" using split4 by blast
  have h1: "committed_events (snd (?d, ?d)) = event_of (intent_ready_event 14 market_intent) # []"
    by (simp add: stocked_db_def committed_events_def unpublished_def intent_ready_event_def
        EXECUTION_TOPIC_def)
  have h2: "read_intent_id (event_of (intent_ready_event 14 market_intent)) = Some 5"
    by (simp add: event_of_def intent_ready_event_def read_intent_id_def json_get_def
        market_intent_def plain_intent_def)
  have h4: "find_order 5 (snd (blocked_db, blocked_db)) = Some (new_order_record market_intent QUEUED 7 8)"
    by (simp add: blocked_db_def find_order_def new_order_record_def market_intent_def plain_intent_def)
  have h5: "ei_order_type market_intent = MARKET" by (simp add: market_intent_def)
  have "fst (snd t, snd t) = snd t \<and> snd (snd t, snd t) = snd t" for t :: "db \<times> db" by simp
  note t = market_order_blocks_the_queue [OF mem.sql_session_axioms mem.sql_session_axioms
        fake.broker_adapter_axioms this h1 h2 h4 market_intent_valid h5 r]
  show ?thesis
  proof (intro exI conjI)
    show "run_forever (session_worker mem_session (Aware 0 0) fresh_mem_repository (fake_ops (Aware 0 0)))
      [False, False, False] (sample_world [intent_ready_event 14 market_intent] blocked_db) =
      (x, ((s', (t', b')), tried))" unfolding sample_world_def by (rule r)
    show "committed_events (snd s') = [event_of (intent_ready_event 14 market_intent)]"
      using t by (rule conjunct1)
    show "\<forall>entry \<in> set tried. fst entry = 5"
      using t [THEN conjunct2, THEN conjunct2, THEN conjunct2] by auto
  qed
qed

end
