(* ===== verification/Py_Text.thy ===== *)
theory Py_Text
  imports Py_Json Idempotency "HOL-Library.Char_ord" "HOL-Library.List_Lexorder"
    "HOL-Library.Multiset"
begin

text \<open>
  Text the program writes: \<open>str(Decimal)\<close> and \<open>format(Decimal, "f")\<close>, the clock formats of the
  notifications and \<open>json.dumps\<close>. The lemmas show that a decimal is read back from its text.
\<close>

section \<open>Decimals\<close>

definition zeros :: "int \<Rightarrow> string" where
  "zeros n = replicate (nat n) CHR ''0''"

text \<open>The digits with a decimal point after the first \<open>dot\<close> of them.\<close>

definition place :: "string \<Rightarrow> int \<Rightarrow> string" where
  "place ds dot =
     (if dot \<le> 0 then ''0.'' @ zeros (- dot) @ ds
      else if int (length ds) \<le> dot then ds @ zeros (dot - int (length ds))
      else take (nat dot) ds @ ''.'' @ drop (nat dot) ds)"

definition sign_text :: "int \<Rightarrow> string" where
  "sign_text c = (if c < 0 then ''-'' else [])"

text \<open>\<open>"%+d"\<close>.\<close>

definition signed_text :: "int \<Rightarrow> string" where
  "signed_text i = (if i < 0 then ''-'' else ''+'') @ str_nat (nat \<bar>i\<bar>)"

definition dec_text :: "dec \<Rightarrow> string" where
  "dec_text x =
     (let ds = str_nat (nat \<bar>coeff x\<bar>); left = expo x + int (length ds);
          dot = (if expo x \<le> 0 \<and> - 6 < left then left else 1)
      in sign_text (coeff x) @ place ds dot @
         (if left = dot then [] else ''E'' @ signed_text (left - dot)))"

definition dec_plain :: "dec \<Rightarrow> string" where
  "dec_plain x =
     (if coeff x = 0 \<and> 0 < expo x then ''0''
      else let ds = str_nat (nat \<bar>coeff x\<bar>)
           in sign_text (coeff x) @ place ds (expo x + int (length ds)))"

lemma replicate_numeral_unroll: "replicate (numeral k) x = x # replicate (pred_numeral k) x"
  by (simp add: numeral_eq_Suc)

lemmas text_evals = replicate_numeral_unroll dec_text_def dec_plain_def place_def zeros_def sign_text_def signed_text_def
  str_nat.simps hex_digit_def

lemma dec_text_examples:
  "dec_text (Dec 4500 (- 2)) = ''45.00''" "dec_text (Dec (- 1) (- 7)) = ''-1E-7''"
  "dec_text (Dec 1 7) = ''1E+7''" "dec_text (Dec 123 (- 8)) = ''0.00000123''"
  "dec_text (Dec 0 (- 10)) = ''0E-10''" "dec_text (Dec 12345 3) = ''1.2345E+7''"
  by (simp_all add: text_evals)

lemma dec_plain_examples:
  "dec_plain (Dec 1 7) = ''10000000''" "dec_plain (Dec (- 1) (- 7)) = ''-0.0000001''"
  "dec_plain (Dec 0 3) = ''0''" "dec_plain (Dec 12 (- 2)) = ''0.12''"
  by (simp_all add: text_evals)

subsection \<open>Reading a decimal back\<close>

lemma str_nat_digits: "c \<in> set (str_nat n) \<Longrightarrow> is_digit c"
proof (induction n rule: str_nat.induct)
  case (1 n)
  have "is_digit (hex_digit d)" if "d < 10" for d
  proof -
    from that have "d \<in> {0, 1, 2, 3, 4, 5, 6, 7, 8, 9}" by auto
    then show ?thesis by (auto simp: is_digit_def hex_digit_def)
  qed
  then show ?case using 1
    by (subst (asm) (2) str_nat.simps) (auto split: if_splits)
qed

lemma str_nat_nonempty [simp]: "str_nat n \<noteq> []"
  by (subst str_nat.simps) simp

lemma digits_value_Cons: "digits_value (c # ds) = digit_value c * 10 ^ length ds + digits_value ds"
proof -
  have "foldl (\<lambda>n c. 10 * n + digit_value c) a ds = a * 10 ^ length ds + digits_value ds" for a
    by (induction ds rule: rev_induct) (simp_all add: digits_value_def algebra_simps)
  from this [of "digit_value c"] show ?thesis by (simp add: digits_value_def)
qed

lemma digits_value_append:
  "digits_value (xs @ ys) = digits_value xs * 10 ^ length ys + digits_value ys"
  by (induction xs) (simp_all add: digits_value_Cons power_add algebra_simps, simp add: digits_value_def)

lemma digits_value_zeros [simp]: "digits_value (zeros n) = 0"
proof -
  have "digits_value (replicate k CHR ''0'') = 0" for k
    by (induction k) (simp_all add: digits_value_Cons digit_value_def, simp add: digits_value_def)
  then show ?thesis by (simp add: zeros_def)
qed

lemma zeros_digits: "c \<in> set (zeros n) \<Longrightarrow> is_digit c"
  by (auto simp: zeros_def is_digit_def)

lemma length_zeros [simp]: "length (zeros n) = nat n"
  by (simp add: zeros_def)

definition frac_text :: "string \<Rightarrow> string" where
  "frac_text fp = (if fp = [] then [] else ''.'' @ fp)"

lemma digit_not:
  assumes "is_digit c"
  shows "c \<noteq> CHR ''_''" "c \<noteq> CHR ''.''" "c \<noteq> CHR ''E''" "c \<noteq> CHR ''-''" "c \<noteq> CHR ''+''" "\<not> is_space c"
  using assms by (auto simp: is_digit_def is_space_def)

lemma nonspace_strip:
  assumes "\<And>c. c \<in> set s \<Longrightarrow> \<not> is_space c"
  shows "strip s = s"
proof -
  have "dropWhile is_space xs = xs" if "set xs \<subseteq> set s" for xs
    using that assms by (cases xs) auto
  from this [of s] this [of "rev s"] show ?thesis by (simp add: strip_def)
qed

text \<open>The shape every written decimal has: a sign, digits, an optional fraction and an optional
  exponent.\<close>

lemma parse_decimal_shape:
  assumes ip: "ip \<noteq> []" "\<forall>c\<in>set ip. is_digit c" and fp: "\<forall>c\<in>set fp. is_digit c"
    and ex: "x = [] \<and> e = 0 \<or> (\<exists>i. x = ''E'' @ signed_text i \<and> e = i)"
  shows "parse_decimal ((if neg then ''-'' else []) @ ip @ frac_text fp @ x) =
    Some (Finite (Dec (if neg then - int (digits_value (ip @ fp)) else int (digits_value (ip @ fp)))
      (e - int (length fp))))"
    (is "parse_decimal ?s = _")
proof -
  obtain d ds where d: "ip = d # ds" "is_digit d" using ip by (cases ip) auto
  note nd = digit_not
  have xs: "\<forall>c\<in>set x. is_digit c \<or> c = CHR ''E'' \<or> c = CHR ''-'' \<or> c = CHR ''+''"
    using ex str_nat_digits by (auto simp: signed_text_def split: if_splits)
  have chars: "is_digit c \<or> c = CHR ''E'' \<or> c = CHR ''-'' \<or> c = CHR ''+'' \<or> c = CHR ''.''"
    if "c \<in> set ?s" for c
    using that ip fp xs by (auto simp: frac_text_def split: if_splits)
  have "\<not> is_space c \<and> c \<noteq> CHR ''_''" if "c \<in> set ?s" for c
    using chars [OF that] nd(1,6) by (elim disjE) (simp_all add: is_space_def)
  then have "strip ?s = ?s" "filter (\<lambda>c. c \<noteq> CHR ''_'') ?s = ?s"
    by (blast intro: nonspace_strip, blast intro: filter_True)
  then have 1: "filter (\<lambda>c. c \<noteq> CHR ''_'') (strip ?s) = ?s" by simp
  have 2: "take_sign ?s = (neg, ip @ frac_text fp @ x)"
    using d nd [OF d(2)] by (cases neg) auto
  have stop: "takeWhile is_digit (frac_text fp @ x) = []" "dropWhile is_digit (frac_text fp @ x) = frac_text fp @ x"
    using ex by (auto simp: frac_text_def is_digit_def)
  have 3: "takeWhile is_digit (ip @ frac_text fp @ x) = ip"
    "dropWhile is_digit (ip @ frac_text fp @ x) = frac_text fp @ x"
    using ip(2) stop by (simp_all add: takeWhile_append2 dropWhile_append2)
  have x0: "takeWhile is_digit x = []" "dropWhile is_digit x = x"
    using ex by (auto simp: is_digit_def)
  have 4: "takeWhile is_digit (fp @ x) = fp" "dropWhile is_digit (fp @ x) = x"
    using fp x0 by (simp_all add: takeWhile_append2 dropWhile_append2)
  have 5: "parse_exponent x = Some e"
  proof (cases "x = []")
    case True
    with ex show ?thesis by (auto simp: signed_text_def)
  next
    case False
    with ex have x: "x = ''E'' @ signed_text e" by auto
    have s: "take_sign (signed_text e) = (e < 0, str_nat (nat \<bar>e\<bar>))"
      by (simp add: signed_text_def)
    show ?thesis
      by (simp add: x s list_all_iff str_nat_digits digits_value_str_nat)
  qed
  have dot: "(case frac_text fp @ x of [] \<Rightarrow> [] | c # cs \<Rightarrow> if c = CHR ''.'' then takeWhile is_digit cs else []) = fp"
    "(case frac_text fp @ x of [] \<Rightarrow> [] | c # cs \<Rightarrow> if c = CHR ''.'' then dropWhile is_digit cs else frac_text fp @ x) = x"
    using ex 4 by (auto simp: frac_text_def)
  show ?thesis
    unfolding parse_decimal_def 1 2 prod.case Let_def 3 dot 5
    using ip by auto
qed

lemma place_shape:
  assumes "ds \<noteq> []" "\<forall>c\<in>set ds. is_digit c"
  obtains ip fp where "place ds dot = ip @ frac_text fp" "ip \<noteq> []" "\<forall>c\<in>set (ip @ fp). is_digit c"
    "int (digits_value (ip @ fp)) = int (digits_value ds) * 10 ^ nat (dot - int (length ds))"
    "int (length fp) = max 0 (int (length ds) - dot)"
proof -
  consider "dot \<le> 0" | "0 < dot" "int (length ds) \<le> dot" | "0 < dot" "dot < int (length ds)" by linarith
  then show thesis
  proof cases
    case 1
    have "digits_value ''0'' = 0" by (simp add: digits_value_def digit_value_def)
    then have "digits_value (''0'' @ zeros (- dot) @ ds) = digits_value ds"
      by (simp only: digits_value_append digits_value_zeros)
    with 1 assms show thesis
      by (intro that [of "''0''" "zeros (- dot) @ ds"])
        (auto simp: place_def frac_text_def is_digit_def [of "CHR ''0''"] zeros_digits)
  next
    case 2
    with assms show thesis
      by (intro that [of "ds @ zeros (dot - int (length ds))" "[]"])
        (auto simp: place_def frac_text_def zeros_digits digits_value_append)
  next
    case 3
    then have "nat dot < length ds" "0 < nat dot" by linarith+
    with 3 assms show thesis
      by (intro that [of "take (nat dot) ds" "drop (nat dot) ds"])
        (auto simp: place_def frac_text_def dest: in_set_takeD in_set_dropD)
  qed
qed

lemma sign_text_if: "sign_text c = (if c < 0 then ''-'' else [])"
  by (simp add: sign_text_def)

text \<open>\<open>Decimal(str(x))\<close> is \<open>x\<close>, the exponent included.\<close>

lemma parse_dec_text [simp]: "parse_decimal (dec_text x) = Some (Finite x)"
proof -
  define ds where "ds = str_nat (nat \<bar>coeff x\<bar>)"
  define left where "left = expo x + int (length ds)"
  define dot where "dot = (if expo x \<le> 0 \<and> - 6 < left then left else 1)"
  have ds: "ds \<noteq> []" "\<forall>c\<in>set ds. is_digit c" by (auto simp: ds_def str_nat_digits)
  have len: "0 < length ds" using ds(1) by simp
  from place_shape [OF ds] obtain ip fp where p: "place ds dot = ip @ frac_text fp" "ip \<noteq> []"
    "\<forall>c\<in>set (ip @ fp). is_digit c"
    "int (digits_value (ip @ fp)) = int (digits_value ds) * 10 ^ nat (dot - int (length ds))"
    "int (length fp) = max 0 (int (length ds) - dot)" by blast
  have "dot \<le> int (length ds)" using len by (auto simp: dot_def left_def Suc_le_eq)
  with p(4,5) have v: "int (digits_value (ip @ fp)) = \<bar>coeff x\<bar>" "int (length fp) = int (length ds) - dot"
    by (simp_all add: ds_def digits_value_str_nat)
  have t: "dec_text x = (if coeff x < 0 then ''-'' else []) @ ip @ frac_text fp @
      (if left = dot then [] else ''E'' @ signed_text (left - dot))"
    unfolding dec_text_def Let_def ds_def [symmetric] left_def [symmetric] dot_def [symmetric] p(1) sign_text_if
    by simp
  show ?thesis
    unfolding t
    by (subst parse_decimal_shape [where e = "left - dot"])
      (use p(2,3) v in \<open>auto simp: left_def dec.expand\<close>)
qed

text \<open>The plain text has the same value, and no exponent.\<close>

lemma parse_dec_plain: "\<exists>y. parse_decimal (dec_plain x) = Some (Finite y) \<and> dval y = dval x"
proof (cases "coeff x = 0 \<and> 0 < expo x")
  case True
  have "parse_decimal ''0'' = Some (Finite (Dec 0 0))" by code_simp
  with True show ?thesis by (auto simp: dec_plain_def dval_def)
next
  case False
  define ds where "ds = str_nat (nat \<bar>coeff x\<bar>)"
  define dot where "dot = expo x + int (length ds)"
  have ds: "ds \<noteq> []" "\<forall>c\<in>set ds. is_digit c" by (auto simp: ds_def str_nat_digits)
  from place_shape [OF ds] obtain ip fp where p: "place ds dot = ip @ frac_text fp" "ip \<noteq> []"
    "\<forall>c\<in>set (ip @ fp). is_digit c"
    "int (digits_value (ip @ fp)) = int (digits_value ds) * 10 ^ nat (dot - int (length ds))"
    "int (length fp) = max 0 (int (length ds) - dot)" by blast
  have t: "dec_plain x = (if coeff x < 0 then ''-'' else []) @ ip @ frac_text fp @ []"
    using False p(1) by (auto simp: dec_plain_def Let_def sign_text_if simp flip: ds_def dot_def)
  let ?y = "Dec (if coeff x < 0 then - int (digits_value (ip @ fp)) else int (digits_value (ip @ fp)))
      (0 - int (length fp))"
  have "parse_decimal (dec_plain x) = Some (Finite ?y)"
    unfolding t by (rule parse_decimal_shape) (use p(2,3) in auto)
  moreover have "dval ?y = dval x"
  proof -
    have "int (digits_value (ip @ fp)) = \<bar>coeff x\<bar> * 10 ^ nat (expo x)" "int (length fp) = max 0 (- expo x)"
      using p(4,5) by (simp_all add: ds_def digits_value_str_nat dot_def)
    then have "?y = Dec (coeff x * 10 ^ nat (expo x)) (min 0 (expo x))"
      by (auto simp: max_def min_def)
    then show ?thesis by (simp only: dval_shift) (auto simp: dval_def min_def)
  qed
  ultimately show ?thesis by blast
qed

section \<open>Clock readings\<close>

definition pad2 :: "int \<Rightarrow> string" where
  "pad2 n = (if n < 10 then ''0'' else []) @ str_int n"

text \<open>Year, month and day of a day counted from 1970-01-01, in the Gregorian calendar.\<close>

definition civil_of_days :: "int \<Rightarrow> int \<times> int \<times> int" where
  "civil_of_days days =
     (let z = days + 719468; era = z div 146097; doe = z mod 146097;
          yoe = (doe - doe div 1460 + doe div 36524 - doe div 146096) div 365;
          doy = doe - (365 * yoe + yoe div 4 - yoe div 100);
          mp = (5 * doy + 2) div 153;
          month = (if mp < 10 then mp + 3 else mp - 9)
      in (yoe + era * 400 + (if month \<le> 2 then 1 else 0), month, doy - (153 * mp + 2) div 5 + 1))"

lemma civil_of_days_examples:
  "civil_of_days 0 = (1970, 1, 1)" "civil_of_days 59 = (1970, 3, 1)"
  "civil_of_days 11016 = (2000, 2, 29)" "civil_of_days 20689 = (2026, 8, 24)"
  by code_simp+

text \<open>\<open>"%H:%M"\<close>, \<open>"%H:%M:%S"\<close> and \<open>"%Y-%m-%d"\<close> of an instant, in UTC.\<close>

definition day_second :: "int \<Rightarrow> int" where
  "day_second t = (t div 1000000) mod 86400"

definition hour_minute :: "int \<Rightarrow> string" where
  "hour_minute t = pad2 (day_second t div 3600) @ '':'' @ pad2 (day_second t mod 3600 div 60)"

definition clock_text :: "int \<Rightarrow> string" where
  "clock_text t = hour_minute t @ '':'' @ pad2 (day_second t mod 60)"

definition date_text :: "int \<Rightarrow> string" where
  "date_text t =
     (case civil_of_days (t div 86400000000) of (y, m, d) \<Rightarrow>
        str_int y @ ''-'' @ pad2 m @ ''-'' @ pad2 d)"

section \<open>JSON text\<close>

definition json_char :: "char \<Rightarrow> string" where
  "json_char c =
     (if c = CHR 0x22 \<or> c = CHR 0x5C then [CHR 0x5C, c]
      else if c = CHR 0x0A then [CHR 0x5C, CHR ''n'']
      else if c = CHR 0x0D then [CHR 0x5C, CHR ''r'']
      else if c = CHR 0x09 then [CHR 0x5C, CHR ''t'']
      else if c = CHR 0x08 then [CHR 0x5C, CHR ''b'']
      else if c = CHR 0x0C then [CHR 0x5C, CHR ''f'']
      else let n = of_char c :: nat
           in if n < 32 \<or> 126 < n then [CHR 0x5C, CHR ''u''] @ hex 4 n else [c])"

definition json_quote :: "string \<Rightarrow> string" where
  "json_quote s = [CHR 0x22] @ concat (map json_char s) @ [CHR 0x22]"

text \<open>\<open>json.dumps\<close> with the given item and key separators.\<close>

fun dumps :: "string \<Rightarrow> string \<Rightarrow> json \<Rightarrow> string" where
  "dumps isep ksep JNull = ''null''"
| "dumps isep ksep (JBool b) = (if b then ''true'' else ''false'')"
| "dumps isep ksep (JNumber i) = str_int i"
| "dumps isep ksep (JString s) = json_quote s"
| "dumps isep ksep (JArray xs) = ''['' @ join isep (map (dumps isep ksep) xs) @ '']''"
| "dumps isep ksep (JObject kvs) =
     ''{'' @ join isep (map (\<lambda>kv. json_quote (fst kv) @ ksep @ dumps isep ksep (snd kv)) kvs) @ ''}''"

text \<open>\<open>sort_keys=True\<close>: every object in the order of its keys.\<close>

fun sort_json :: "json \<Rightarrow> json" where
  "sort_json (JArray xs) = JArray (map sort_json xs)"
| "sort_json (JObject kvs) = JObject (sort_key fst (map (\<lambda>kv. (fst kv, sort_json (snd kv))) kvs))"
| "sort_json v = v"

lemma sort_json_order:
  assumes "mset kvs = mset kvs'" "distinct (map fst kvs)"
  shows "sort_json (JObject kvs) = sort_json (JObject kvs')"
proof -
  let ?g = "\<lambda>kv. (fst kv, sort_json (snd kv))"
  have m: "mset (map ?g kvs) = mset (map ?g kvs')" using assms(1) by simp
  have "inj_on fst (set (map ?g kvs))"
    using assms(2) by (auto simp: inj_on_def distinct_map)
  then have "sort_key fst (map ?g kvs) = sort_key fst (map ?g kvs')"
    by (intro sort_key_inj_key_eq) (simp_all only: mset_sort m sorted_sort_key)
  then show ?thesis by (simp only: sort_json.simps)
qed

end
