(* ===== verification/Redis_Streams.thy ===== *)
theory Redis_Streams
  imports Worker_Safety Py_Text
begin

text \<open>
  \<open>infrastructure/queue/redis_streams.py\<close>: the publisher that appends an event to a Redis stream. The
  client's \<open>xadd\<close> is a parameter; it answers with bytes or text.
\<close>

datatype redis_reply = ReplyBytes string | ReplyText string

definition payload_text :: "json \<Rightarrow> string" where
  "payload_text payload = dumps '','' '':'' (sort_json payload)"

definition publish ::
  "(string \<Rightarrow> (string \<times> string) list \<Rightarrow> (redis_reply, 'p) io) \<Rightarrow>
   string \<Rightarrow> string \<Rightarrow> json \<Rightarrow> (string, 'p) io" where
  "publish xadd topic key payload =
     io_bind (xadd topic [(''message_key'', key), (''payload'', payload_text payload)]) (\<lambda>message_id.
     io_ret (case message_id of ReplyBytes b \<Rightarrow> b | ReplyText t \<Rightarrow> t))"

definition redis_dispatcher ::
  "'s session_ops \<Rightarrow> pydatetime \<Rightarrow> (string \<Rightarrow> (string \<times> string) list \<Rightarrow> (redis_reply, 'p) io) \<Rightarrow>
   ('s \<times> 'p) dispatcher_ops" where
  "redis_dispatcher S now xadd = session_dispatcher S now (publish xadd)"

text \<open>
  The text of a payload depends on the dictionary, not on the order its keys were written in, so the
  entry of an event is the same however often it is published.
\<close>

lemma payload_text_order:
  "mset kvs = mset kvs' \<Longrightarrow> distinct (map fst kvs) \<Longrightarrow>
     payload_text (JObject kvs) = payload_text (JObject kvs')"
  unfolding payload_text_def by (subst sort_json_order) auto

lemma publish_order:
  assumes "mset kvs = mset kvs'" "distinct (map fst kvs)"
  shows "publish xadd topic key (JObject kvs) = publish xadd topic key (JObject kvs')"
  by (simp add: publish_def payload_text_order [OF assms])

end
