(* ===== verification/Ut_Config.thy ===== *)
theory Ut_Config
  imports Domain_Decisions
begin

text \<open>\<open>strategies/ut_bot/config.py\<close>: the settings of the strategy and their validators.\<close>

definition reject_float_or_non_finite :: "pyval \<Rightarrow> pyval result" where
  "reject_float_or_non_finite v =
     finite_guard ''strategy settings must not be floats'' ''strategy settings must be finite'' v"

datatype hull_mode = HMA | THMA | EHMA

datatype sizing_mode = FIXED | RISK_PERCENT

record ut_config =
  uc_symbol :: string
  uc_timeframe :: string
  uc_sizing_mode :: sizing_mode
  uc_risk_pct :: dec
  uc_base_lots :: dec
  uc_max_lots :: dec
  uc_confirmation_deadline_seconds :: int
  uc_ut_key :: dec
  uc_ut_atr :: int
  uc_sl_len :: int
  uc_rr_mult :: dec
  uc_use_hull_exit :: bool
  uc_only_after_be :: bool
  uc_hull_mode :: hull_mode
  uc_hull_len :: int
  uc_hull_mult :: dec
  uc_max_entry_gap_bps :: "int option"

definition default_ut_config :: ut_config where
  "default_ut_config =
     \<lparr>uc_symbol = ''XAUUSD'', uc_timeframe = ''H1'', uc_sizing_mode = RISK_PERCENT,
      uc_risk_pct = Dec 10 (- 2), uc_base_lots = Dec 1 (- 2), uc_max_lots = Dec 2 (- 2),
      uc_confirmation_deadline_seconds = 300, uc_ut_key = Dec 20 (- 1), uc_ut_atr = 6,
      uc_sl_len = 4, uc_rr_mult = Dec 10 (- 1), uc_use_hull_exit = True,
      uc_only_after_be = False, uc_hull_mode = HMA, uc_hull_len = 55, uc_hull_mult = Dec 10 (- 1),
      uc_max_entry_gap_bps = None\<rparr>"

definition positive_setting :: "dec \<Rightarrow> string list" where
  "positive_setting d = complain (d \<le> 0) ''strategy settings must be positive''"

text \<open>Two checks on one field: the second runs when the first accepts.\<close>

definition sane_risk :: "dec \<Rightarrow> string list" where
  "sane_risk d =
     (if d \<le> 0 then [''strategy settings must be positive'']
      else complain (Dec 5 (- 1) < d) ''risk_pct above 0.5 risks the whole account on one trade'')"

definition positive_length :: "int \<Rightarrow> string list" where
  "positive_length n = complain (n < 1) ''lengths must be at least 1''"

definition require_cap_above_floor :: "ut_config \<Rightarrow> string option" where
  "require_cap_above_floor c =
     (if uc_max_lots c < uc_base_lots c then Some ''max_lots must not be below base_lots'' else None)"

definition UtBotConfig :: "ut_config \<Rightarrow> ut_config result" where
  "UtBotConfig c =
     run_model
       (sane_risk (uc_risk_pct c) @ positive_setting (uc_base_lots c) @ positive_setting (uc_max_lots c)
        @ positive_length (uc_confirmation_deadline_seconds c)
        @ positive_setting (uc_ut_key c) @ positive_length (uc_ut_atr c) @ positive_length (uc_sl_len c)
        @ positive_setting (uc_rr_mult c) @ positive_length (uc_hull_len c)
        @ positive_setting (uc_hull_mult c)
        @ optional_field (\<lambda>g. complain (g \<le> 0) ''max_entry_gap_bps must be positive when set'')
            (uc_max_entry_gap_bps c))
       [require_cap_above_floor c] c"

definition hull_length_effective :: "ut_config \<Rightarrow> int" where
  "hull_length_effective c = pymax (trunc_int (dint (uc_hull_len c) * uc_hull_mult c)) 1"

definition max_total_lots :: "ut_config \<Rightarrow> dec" where
  "max_total_lots c = uc_max_lots c * dint 2"

definition warmup_bars :: "ut_config \<Rightarrow> int" where
  "warmup_bars c =
     (let hull_span = hull_length_effective c + 2
      in pymax (pymax (uc_ut_atr c) (uc_sl_len c)) hull_span + 1)"

section \<open>What a validated configuration promises\<close>

definition config_contract :: "ut_config \<Rightarrow> bool" where
  "config_contract c \<longleftrightarrow>
     0 < uc_risk_pct c \<and> uc_risk_pct c \<le> Dec 5 (- 1) \<and> 0 < uc_base_lots c \<and>
     uc_base_lots c \<le> uc_max_lots c \<and> 0 < uc_max_lots c \<and>
     1 \<le> uc_confirmation_deadline_seconds c \<and> 0 < uc_ut_key c \<and> 1 \<le> uc_ut_atr c \<and>
     1 \<le> uc_sl_len c \<and> 0 < uc_rr_mult c \<and> 1 \<le> uc_hull_len c \<and> 0 < uc_hull_mult c \<and>
     (\<forall>g. uc_max_entry_gap_bps c = Some g \<longrightarrow> 0 < g)"

lemma UtBotConfig_iff: "UtBotConfig c = Inr c' \<longleftrightarrow> config_contract c \<and> c' = c"
  by (auto simp: UtBotConfig_def run_model_Inr_iff config_contract_def sane_risk_def
      positive_setting_def positive_length_def require_cap_above_floor_def first_failure_None_iff
      not_less_dec not_le_dec split: if_splits)

lemma hull_length_pos: "1 \<le> hull_length_effective c"
  by (simp add: hull_length_effective_def pymax_def)

lemma warmup_covers:
  "uc_ut_atr c < warmup_bars c" "uc_sl_len c < warmup_bars c" "hull_length_effective c + 2 < warmup_bars c"
  by (auto simp: warmup_bars_def Let_def pymax_def)

lemma default_config_valid: "UtBotConfig default_ut_config = Inr default_ut_config"
  by code_simp

end
