(* ===== verification/Sizing.thy ===== *)
theory Sizing
  imports Ut_Config
begin

text \<open>
  \<open>application/sizing.py\<close>: lots from the risk budget. Every intermediate value is a Decimal
  rounded to 28 digits, so the bounds of the lemmas carry a factor \<open>1 + ulp28\<close> for each
  rounding: relative errors of \<open>5 * 10 ^ - 28\<close>.
\<close>

datatype sizing_rejection = BELOW_BROKER_MINIMUM | NON_POSITIVE_RISK

record symbol_spec =
  sp_symbol :: string
  sp_contract_size :: dec
  sp_volume_min :: dec
  sp_volume_step :: dec
  sp_volume_max :: dec

definition reject_float_spec :: "pyval \<Rightarrow> pyval result" where
  "reject_float_spec v =
     (if is_vfloat v then Inl (ValueError ''symbol spec values must not be floats'') else Inr v)"

definition SymbolSpec :: "symbol_spec \<Rightarrow> symbol_spec result" where
  "SymbolSpec s =
     run_model
       (concat (map (\<lambda>v. complain (v \<le> 0) ''symbol spec values must be positive'')
          [sp_contract_size s, sp_volume_min s, sp_volume_step s, sp_volume_max s])) [] s"

record sizing_outcome =
  so_lots :: "dec option"
  so_quantity :: "dec option"
  so_budget :: dec
  so_risk_amount :: "dec option"
  so_requires_confirmation :: bool
  so_rejection :: "sizing_rejection option"

definition outcome_over_budget_by :: "sizing_outcome \<Rightarrow> dec" where
  "outcome_over_budget_by o1 =
     (case so_risk_amount o1 of None \<Rightarrow> 0 | Some r \<Rightarrow> pymax (r - so_budget o1) 0)"

definition floor_to_step :: "dec \<Rightarrow> dec \<Rightarrow> dec result" where
  "floor_to_step amount step =
     bindr (ddiv amount step) (\<lambda>q.
       let multiples = floor_integral q in Inr (dnormalize (multiples * step)))"

definition finalise ::
  "dec \<Rightarrow> symbol_spec \<Rightarrow> dec \<Rightarrow> dec \<Rightarrow> bool \<Rightarrow> sizing_outcome result" where
  "finalise lots spec budget risk_per_lot requires_confirmation =
     bindr (floor_to_step lots (sp_volume_step spec)) (\<lambda>quantised.
       if quantised < sp_volume_min spec then
         Inr \<lparr>so_lots = None, so_quantity = None, so_budget = budget, so_risk_amount = None,
              so_requires_confirmation = False, so_rejection = Some BELOW_BROKER_MINIMUM\<rparr>
       else
         Inr \<lparr>so_lots = Some quantised,
              so_quantity = Some (dnormalize (quantised * sp_contract_size spec)),
              so_budget = budget, so_risk_amount = Some (quantised * risk_per_lot),
              so_requires_confirmation = requires_confirmation, so_rejection = None\<rparr>)"

definition size_entry ::
  "ut_config \<Rightarrow> dec \<Rightarrow> symbol_spec \<Rightarrow> dec \<Rightarrow> dec \<Rightarrow> sizing_outcome result" where
  "size_entry config stop_distance spec equity quote_to_account_rate =
     (let budget = copy_abs (equity * uc_risk_pct config) in
      if stop_distance \<le> 0 then
        Inr \<lparr>so_lots = None, so_quantity = None, so_budget = budget, so_risk_amount = None,
             so_requires_confirmation = False, so_rejection = Some NON_POSITIVE_RISK\<rparr>
      else
        let risk_per_lot = stop_distance * sp_contract_size spec * quote_to_account_rate;
            floor_lots = pymax (uc_base_lots config) (sp_volume_min spec)
        in if uc_sizing_mode config = FIXED then finalise floor_lots spec budget risk_per_lot False
           else
             bindr (ddiv budget risk_per_lot) (\<lambda>raw_lots.
               if raw_lots < floor_lots then finalise floor_lots spec budget risk_per_lot True
               else
                 let capped = pymin (pymin raw_lots (uc_max_lots config)) (sp_volume_max spec)
                 in finalise capped spec budget risk_per_lot False))"

section \<open>Contracts\<close>

definition spec_contract :: "symbol_spec \<Rightarrow> bool" where
  "spec_contract s \<longleftrightarrow> 0 < sp_contract_size s \<and> 0 < sp_volume_min s \<and> 0 < sp_volume_step s \<and>
     0 < sp_volume_max s"

lemma SymbolSpec_iff: "SymbolSpec s = Inr s' \<longleftrightarrow> spec_contract s \<and> s' = s"
  by (auto simp: SymbolSpec_def run_model_Inr_iff spec_contract_def not_le_dec)

text \<open>\<open>k\<close> roundings to 28 digits, upwards.\<close>

definition slack :: "nat \<Rightarrow> rat" where
  "slack k = (1 + ulp28) ^ k"

lemma slack_pos: "0 < slack k" "1 \<le> slack k"
  using ulp28_bounds by (simp_all add: slack_def)

lemma slack_step: "r \<le> (1 + ulp28) * v \<Longrightarrow> v \<le> slack k * x \<Longrightarrow> r \<le> slack (Suc k) * x"
proof -
  assume a: "r \<le> (1 + ulp28) * v" "v \<le> slack k * x"
  have "(1 + ulp28) * v \<le> (1 + ulp28) * (slack k * x)"
    using a(2) ulp28_bounds by (intro mult_left_mono) simp_all
  then show ?thesis using a(1) by (simp add: slack_def mult.assoc)
qed

lemma slack_mult: "slack j * slack k = slack (j + k)"
  by (simp add: slack_def power_add)

text \<open>Undoing a rounding costs at most two roundings upwards.\<close>

lemma slack_undo:
  assumes "0 \<le> v" "(1 - ulp28) * v \<le> r"
  shows "v \<le> slack 2 * r"
proof -
  have u: "1 \<le> (1 + ulp28) ^ 2 * (1 - ulp28)" by (simp add: ulp28_def power2_eq_square)
  have "v \<le> (1 + ulp28) ^ 2 * (1 - ulp28) * v" using mult_right_mono [OF u assms(1)] by simp
  also have "\<dots> \<le> slack 2 * r"
    using mult_left_mono [OF assms(2), of "slack 2"] slack_pos(1) [of 2]
    by (simp add: slack_def mult.assoc)
  finally show ?thesis .
qed

lemma slack_chain: "v \<le> slack j * r \<Longrightarrow> r \<le> slack k * x \<Longrightarrow> v \<le> slack (j + k) * x"
  using mult_left_mono [of r "slack k * x" "slack j"] slack_pos(1) [of j]
  by (simp add: mult.assoc [symmetric] slack_mult)

lemma slack_times:
  assumes "near28 r (x * y)" "0 \<le> x" "0 \<le> y"
  shows "r \<le> slack 1 * (x * y)" "x * y \<le> slack 2 * r"
  using assms near28_bounds [OF assms(1)] slack_undo [of "x * y" r] by (simp_all add: slack_def)

lemma dfix_idem: "dfix (dfix x) = dfix x"
  by (rule dfix_small [OF dfix_digits])

text \<open>Flooring to a step: an integer multiple, never above the value beyond the rounding.\<close>

lemma floor_to_step_total: "0 < step \<Longrightarrow> \<exists>r. floor_to_step v step = Inr r"
  using ddiv_total [of step v] by (auto simp: floor_to_step_def Let_def dec_order)

lemma floor_to_step_spec:
  assumes "floor_to_step v step = Inr r" "0 < step" "0 \<le> v"
  shows "\<exists>n::nat. near28 (dval r) (of_nat n * dval step)"
    and "0 \<le> dval r" and "dval r \<le> slack 2 * dval v"
proof -
  obtain q where q: "ddiv v step = Inr q" and r: "r = dnormalize (floor_integral q * step)"
    using assms(1) by (auto simp: floor_to_step_def bindr_Inr_iff Let_def)
  have s: "0 < dval step" and v: "0 \<le> dval v" using assms by (simp_all add: dec_order)
  have near: "near28 (dval q) (dval v / dval step)" by (rule ddiv_near [OF q])
  then have q0: "0 \<le> dval q"
    using near28_sign(2) [OF near] s v by (simp add: not_less [symmetric] divide_less_0_iff)
  let ?n = "nat \<lfloor>dval q\<rfloor>"
  have dr: "dval r = dval (floor_integral q * step)"
    by (simp add: r dec_simps times_dec_def dfix_idem)
  have n: "of_nat ?n = dval (floor_integral q)" using q0 by (simp add: dec_simps)
  have nr: "near28 (dval r) (of_nat ?n * dval step)"
    unfolding dr n by (rule times_near)
  then show "\<exists>n::nat. near28 (dval r) (of_nat n * dval step)" by blast
  have pos: "0 \<le> of_nat ?n * dval step" using s by simp
  then show "0 \<le> dval r" using near28_sign(2) [OF nr] by (simp add: not_less [symmetric])
  have "of_nat ?n \<le> dval q" using q0 by simp
  then have "of_nat ?n * dval step \<le> dval q * dval step" using s by simp
  also have "\<dots> \<le> (1 + ulp28) * (dval v / dval step) * dval step"
    using near28_bounds(2) [OF near] s v by (intro mult_right_mono) simp_all
  also have "\<dots> = slack 1 * dval v" using s by (simp add: slack_def)
  finally have "of_nat ?n * dval step \<le> slack 1 * dval v" .
  from slack_step [OF near28_bounds(2) [OF nr pos] this] show "dval r \<le> slack 2 * dval v"
    by (simp add: numeral_2_eq_2)
qed

lemma dec_prod_pos: "0 < d \<Longrightarrow> 0 < x \<Longrightarrow> 0 < r \<Longrightarrow> 0 < d * x * r" for d x r :: dec
  by (intro times_pos)

lemma times_dec_zero_iff: "dval (x * y) = 0 \<longleftrightarrow> dval x = 0 \<or> dval y = 0"
  using times_near [of x y] near28_sign [OF times_near, of x y]
  by (auto simp: near28_def mult_less_0_iff zero_less_mult_iff linorder_neq_iff)

text \<open>What an accepted size is: the quantised lots, their quantity and their risk.\<close>

lemma finalise_Inr:
  assumes "finalise lots spec budget rpl conf = Inr out"
  obtains q where "floor_to_step lots (sp_volume_step spec) = Inr q" "so_budget out = budget"
    "so_lots out = (if q < sp_volume_min spec then None else Some q)"
    "so_risk_amount out = (if q < sp_volume_min spec then None else Some (q * rpl))"
    "so_requires_confirmation out \<longleftrightarrow> conf \<and> \<not> q < sp_volume_min spec"
    "so_rejection out = (if q < sp_volume_min spec then Some BELOW_BROKER_MINIMUM else None)"
  using assms by (auto simp: finalise_def bindr_Inr_iff split: if_splits)

lemma finalise_total:
  "0 < sp_volume_step spec \<Longrightarrow> \<exists>out. finalise lots spec budget rpl conf = Inr out"
  using floor_to_step_total [of "sp_volume_step spec" lots] by (auto simp: finalise_def)

definition risk_per_lot_of :: "dec \<Rightarrow> symbol_spec \<Rightarrow> dec \<Rightarrow> dec" where
  "risk_per_lot_of stop_distance spec rate = stop_distance * sp_contract_size spec * rate"

definition floor_lots_of :: "ut_config \<Rightarrow> symbol_spec \<Rightarrow> dec" where
  "floor_lots_of c spec = pymax (uc_base_lots c) (sp_volume_min spec)"

text \<open>The paths of \<open>size_entry\<close> after the stop distance is known to be positive.\<close>

lemma size_entry_cases:
  assumes "size_entry c d spec e rate = Inr out" "0 < d"
  obtains (fixed) "uc_sizing_mode c = FIXED"
      "finalise (floor_lots_of c spec) spec (copy_abs (e * uc_risk_pct c)) (risk_per_lot_of d spec rate) False
         = Inr out"
  | (floor) raw where "uc_sizing_mode c = RISK_PERCENT"
      "ddiv (copy_abs (e * uc_risk_pct c)) (risk_per_lot_of d spec rate) = Inr raw" "raw < floor_lots_of c spec"
      "finalise (floor_lots_of c spec) spec (copy_abs (e * uc_risk_pct c)) (risk_per_lot_of d spec rate) True
         = Inr out"
  | (budget) raw where "uc_sizing_mode c = RISK_PERCENT"
      "ddiv (copy_abs (e * uc_risk_pct c)) (risk_per_lot_of d spec rate) = Inr raw"
      "floor_lots_of c spec \<le> raw"
      "finalise (pymin (pymin raw (uc_max_lots c)) (sp_volume_max spec)) spec (copy_abs (e * uc_risk_pct c))
         (risk_per_lot_of d spec rate) False = Inr out"
proof -
  have "\<not> d \<le> 0" using assms(2) by (simp add: not_le_dec)
  then have eq: "(if uc_sizing_mode c = FIXED
      then finalise (floor_lots_of c spec) spec (copy_abs (e * uc_risk_pct c)) (risk_per_lot_of d spec rate) False
      else bindr (ddiv (copy_abs (e * uc_risk_pct c)) (risk_per_lot_of d spec rate)) (\<lambda>raw.
        if raw < floor_lots_of c spec
        then finalise (floor_lots_of c spec) spec (copy_abs (e * uc_risk_pct c)) (risk_per_lot_of d spec rate) True
        else finalise (pymin (pymin raw (uc_max_lots c)) (sp_volume_max spec)) spec
               (copy_abs (e * uc_risk_pct c)) (risk_per_lot_of d spec rate) False)) = Inr out"
    using assms(1) unfolding size_entry_def Let_def risk_per_lot_of_def floor_lots_of_def by simp
  show thesis
  proof (cases "uc_sizing_mode c")
    case FIXED
    with eq show thesis by (intro fixed) simp_all
  next
    case RISK_PERCENT
    with eq obtain raw where raw: "ddiv (copy_abs (e * uc_risk_pct c)) (risk_per_lot_of d spec rate) = Inr raw"
      by (auto simp: bindr_Inr_iff)
    show thesis
    proof (cases "raw < floor_lots_of c spec")
      case True
      with eq raw RISK_PERCENT show thesis by (intro floor) simp_all
    next
      case False
      with eq raw RISK_PERCENT show thesis by (intro budget) (simp_all add: not_less_dec)
    qed
  qed
qed

lemma size_entry_flat: "d \<le> 0 \<Longrightarrow> size_entry c d spec e rate =
    Inr \<lparr>so_lots = None, so_quantity = None, so_budget = copy_abs (e * uc_risk_pct c),
      so_risk_amount = None, so_requires_confirmation = False, so_rejection = Some NON_POSITIVE_RISK\<rparr>"
  by (simp add: size_entry_def)

text \<open>The heart of the budget bound: quantised lots cut from \<open>raw = budget / risk per lot\<close>.\<close>

lemma budget_bound:
  assumes raw: "ddiv b rpl = Inr raw" and b: "0 \<le> b" and rpl: "0 < rpl"
    and q: "floor_to_step lots step = Inr q" "0 < step" "0 \<le> lots" "lots \<le> raw"
  shows "dval (q * rpl) \<le> slack 4 * dval b"
proof -
  have r0: "0 < dval rpl" and b0: "0 \<le> dval b" using rpl b by (simp_all add: dec_order)
  have q0: "0 \<le> dval q" and q1: "dval q \<le> slack 2 * dval lots"
    using floor_to_step_spec(2,3) [OF q(1,2,3)] by simp_all
  have "dval lots \<le> dval raw" using q(4) by (simp add: dec_order)
  also have "dval raw \<le> (1 + ulp28) * (dval b / dval rpl)"
    using near28_bounds(2) [OF ddiv_near [OF raw]] r0 b0 by simp
  finally have "dval lots * dval rpl \<le> slack 1 * dval b"
    using r0 by (simp add: slack_def pos_le_divide_eq)
  then have "slack 2 * (dval lots * dval rpl) \<le> slack 2 * (slack 1 * dval b)"
    using slack_pos(1) [of 2] by (intro mult_left_mono) simp_all
  moreover have "dval q * dval rpl \<le> slack 2 * dval lots * dval rpl"
    using q1 r0 by (intro mult_right_mono) simp_all
  ultimately have "dval q * dval rpl \<le> slack 3 * dval b"
    by (simp add: slack_def power_add [symmetric] mult.assoc [symmetric] numeral_3_eq_3 numeral_2_eq_2)
  moreover have "dval (q * rpl) \<le> (1 + ulp28) * (dval q * dval rpl)"
    using near28_bounds(2) [OF times_near [of q rpl]] q0 r0 by simp
  ultimately have "dval (q * rpl) \<le> slack (Suc 3) * dval b" by (intro slack_step)
  then show ?thesis by simp
qed

section \<open>Properties of the sizing\<close>

lemma near28_abs: "near28 r v \<Longrightarrow> near28 \<bar>r\<bar> \<bar>v\<bar>"
  using abs_triangle_ineq3 [of r v] by (simp add: near28_def)

lemma copy_abs_nonneg: "0 \<le> copy_abs x"
  by (simp add: dec_order dec_simps)

lemma pymin_nonneg: "0 \<le> a \<Longrightarrow> 0 \<le> b \<Longrightarrow> 0 \<le> pymin a b" for a b :: dec
  by (simp add: pymin_def)

lemma floor_lots_nonneg: "spec_contract spec \<Longrightarrow> 0 \<le> floor_lots_of c spec"
  by (auto simp: floor_lots_of_def spec_contract_def dec_order dec_simps)

lemma capped_bounds:
  fixes a b c :: dec
  shows "pymin (pymin a b) c \<le> a" "pymin (pymin a b) c \<le> b" "pymin (pymin a b) c \<le> c"
  by (simp_all add: dec_order dec_simps)

text \<open>The risk per lot is the product of distance, contract size and rate, up to two roundings.\<close>

lemma risk_per_lot_bounds:
  assumes "0 < d" "spec_contract spec" "0 < rate"
  defines "exact \<equiv> dval d * dval (sp_contract_size spec) * dval rate"
  shows "0 < exact" "dval (risk_per_lot_of d spec rate) \<le> slack 2 * exact"
    "exact \<le> slack 4 * dval (risk_per_lot_of d spec rate)"
proof -
  let ?dc = "d * sp_contract_size spec"
  have pos: "0 < dval d" "0 < dval (sp_contract_size spec)" "0 < dval rate"
    using assms(1-3) by (simp_all add: spec_contract_def dec_order)
  then show "0 < exact" by (simp add: exact_def)
  have dc: "0 < dval ?dc" using assms(1,2) times_pos [of d] by (simp add: spec_contract_def dec_order)
  note one = slack_times [OF times_near [of d "sp_contract_size spec"]]
  note two = slack_times [OF times_near [of ?dc rate]]
  have "dval (risk_per_lot_of d spec rate) \<le> slack 1 * (dval ?dc * dval rate)"
    using two(1) dc pos by (simp add: risk_per_lot_of_def)
  moreover have "dval ?dc * dval rate \<le> slack 1 * exact"
    using mult_right_mono [OF one(1), of "dval rate"] pos by (simp add: exact_def mult.assoc)
  ultimately show "dval (risk_per_lot_of d spec rate) \<le> slack 2 * exact"
    using slack_chain [of _ 1 _ 1] by (simp add: numeral_2_eq_2)
  have "exact \<le> slack 2 * (dval ?dc * dval rate)"
    using mult_right_mono [OF one(2), of "dval rate"] pos by (simp add: exact_def mult.assoc)
  moreover have "dval ?dc * dval rate \<le> slack 2 * dval (risk_per_lot_of d spec rate)"
    using two(2) dc pos by (simp add: risk_per_lot_of_def)
  ultimately show "exact \<le> slack 4 * dval (risk_per_lot_of d spec rate)"
    using slack_chain [of exact 2 "dval ?dc * dval rate" 2] by simp
qed

text \<open>The recorded risk of \<open>q\<close> lots is their loss at the stop, up to three roundings.\<close>

lemma recorded_risk_bounds:
  assumes "0 < d" "spec_contract spec" "0 < rate" "0 \<le> dval q"
  defines "loss \<equiv> dval q * (dval d * dval (sp_contract_size spec) * dval rate)"
  shows "dval (q * risk_per_lot_of d spec rate) \<le> slack 3 * loss"
    "loss \<le> slack 6 * dval (q * risk_per_lot_of d spec rate)"
proof -
  let ?rpl = "risk_per_lot_of d spec rate"
  note b = risk_per_lot_bounds [OF assms(1-3)]
  have rpl: "0 \<le> dval ?rpl"
    using dec_prod_pos [OF assms(1) _ assms(3), of "sp_contract_size spec"] assms(2)
    by (simp add: risk_per_lot_of_def spec_contract_def dec_less_dval)
  note t = slack_times [OF times_near [of q ?rpl] assms(4) rpl]
  have "dval q * dval ?rpl \<le> slack 2 * loss"
    using mult_left_mono [OF b(2) assms(4)] by (simp add: loss_def mult.left_commute)
  from slack_chain [OF t(1) this] show "dval (q * ?rpl) \<le> slack 3 * loss"
    by (simp add: numeral_3_eq_3 numeral_2_eq_2)
  have "loss \<le> slack 4 * (dval q * dval ?rpl)"
    using mult_left_mono [OF b(3) assms(4)] by (simp add: loss_def mult.left_commute)
  from slack_chain [OF this t(2)] show "loss \<le> slack 6 * dval (q * ?rpl)" by simp
qed

text \<open>C17: With a valid configuration, a valid symbol and a positive exchange rate, an entry
  accepted in RISK_PERCENT mode without asking for confirmation loses at its stop (lots times
  stop distance times contract size times exchange rate, computed exactly) at most the risk
  budget, the configured percentage of the equity; the risk amount it reports is that loss and
  the budget it reports that budget; its lots reach the broker minimum, stay below \<open>max_lots\<close>
  and the broker maximum, and are a whole number of volume steps. All of this holds up to the
  28-digit rounding of the Decimal operations behind it, each a factor of at most
  \<open>1 + 5 * 10 ^ - 28\<close> (\<open>slack k\<close> is \<open>k\<close> of them).\<close>

theorem accepted_size_within_budget:
  assumes "size_entry c d spec e rate = Inr out" "config_contract c" "spec_contract spec" "0 < rate"
    and "uc_sizing_mode c = RISK_PERCENT" "so_lots out = Some q" "\<not> so_requires_confirmation out"
    and "loss = dval q * (dval d * dval (sp_contract_size spec) * dval rate)"
    and "budget = \<bar>dval e * dval (uc_risk_pct c)\<bar>"
  shows "loss \<le> slack 11 * budget \<and> near28 (dval (so_budget out)) budget \<and>
    (\<exists>r. so_risk_amount out = Some r \<and> dval r \<le> slack 3 * loss \<and> loss \<le> slack 6 * dval r \<and>
      dval r \<le> slack 4 * dval (so_budget out)) \<and>
    sp_volume_min spec \<le> q \<and> dval q \<le> slack 2 * dval (uc_max_lots c) \<and>
    dval q \<le> slack 2 * dval (sp_volume_max spec) \<and>
    (\<exists>n::nat. near28 (dval q) (of_nat n * dval (sp_volume_step spec)))"
proof -
  have d: "0 < d"
    using assms(1,6) size_entry_flat [of d c spec e rate] by (auto simp: not_le_dec [symmetric])
  have rpl: "0 < risk_per_lot_of d spec rate"
    using assms(3,4) d by (simp add: risk_per_lot_of_def spec_contract_def dec_prod_pos)
  have caps: "0 < uc_max_lots c" "0 < sp_volume_max spec" "0 < sp_volume_step spec"
    using assms(2,3) by (simp_all add: config_contract_def spec_contract_def)
  show ?thesis
    using assms(1) d
  proof (cases rule: size_entry_cases)
    case (floor raw)
    with assms(6,7) show ?thesis by (elim finalise_Inr) (auto split: if_splits)
  next
    case (budget raw)
    let ?l = "pymin (pymin raw (uc_max_lots c)) (sp_volume_max spec)"
    have raw0: "0 \<le> raw"
      using floor_lots_nonneg [OF assms(3), of c] budget(3) by (simp add: dec_order)
    then have l0: "0 \<le> ?l" using caps by (intro pymin_nonneg) (simp_all add: dec_order)
    from budget(4) obtain q' where q': "floor_to_step ?l (sp_volume_step spec) = Inr q'"
      and so: "so_budget out = copy_abs (e * uc_risk_pct c)"
        "so_lots out = (if q' < sp_volume_min spec then None else Some q')"
        "so_risk_amount out = (if q' < sp_volume_min spec then None else Some (q' * risk_per_lot_of d spec rate))"
      by (rule finalise_Inr)
    from so(2) assms(6) have q: "q' = q" "sp_volume_min spec \<le> q"
      by (auto simp: not_less_dec split: if_splits)
    note spec = floor_to_step_spec [OF q' caps(3) l0, unfolded q(1)]
    have mono: "dval q \<le> slack 2 * x" if "dval ?l \<le> x" for x
      by (rule order_trans [OF spec(3) mult_left_mono [OF that]]) (simp add: slack_pos less_imp_le)
    have within: "dval (q * risk_per_lot_of d spec rate) \<le> slack 4 * dval (so_budget out)"
      unfolding so(1) q(1) [symmetric]
      by (rule budget_bound [OF budget(2) copy_abs_nonneg rpl q' caps(3) l0 capped_bounds(1)])
    have exact: "near28 (dval (so_budget out)) \<bar>dval e * dval (uc_risk_pct c)\<bar>"
      unfolding so(1) using near28_abs [OF times_near [of e "uc_risk_pct c"]] by (simp add: dec_simps)
    then have "dval (so_budget out) \<le> slack 1 * \<bar>dval e * dval (uc_risk_pct c)\<bar>"
      using near28_bounds(2) [OF exact] by (simp add: slack_def)
    note risk = recorded_risk_bounds [OF d assms(3,4) spec(2), folded assms(8)]
    have "loss \<le> slack 11 * \<bar>dval e * dval (uc_risk_pct c)\<bar>"
      using slack_chain [OF slack_chain [OF risk(2) within] \<open>dval (so_budget out) \<le> _\<close>] by simp
    moreover have "dval q \<le> slack 2 * dval (uc_max_lots c)" "dval q \<le> slack 2 * dval (sp_volume_max spec)"
      using capped_bounds(2,3) [of raw "uc_max_lots c" "sp_volume_max spec"]
      by (auto intro!: mono simp: dec_order)
    ultimately show ?thesis using so(2,3) q spec(1) assms(6,9) within risk exact by auto
  qed (simp add: assms(5))
qed

definition sample_spec :: symbol_spec where
  "sample_spec = \<lparr>sp_symbol = ''XAUUSD'', sp_contract_size = dint 100, sp_volume_min = Dec 1 (- 2),
     sp_volume_step = Dec 1 (- 2), sp_volume_max = dint 50\<rparr>"

lemma sample_contracts: "config_contract default_ut_config" "spec_contract sample_spec"
  using default_config_valid by (simp add: UtBotConfig_iff) code_simp

theorem accepted_size_within_budget_witness:
  "\<exists>out r. size_entry default_ut_config (dint 5) sample_spec (dint 1000) (dint 1) = Inr out \<and>
     so_lots out = Some (Dec 2 (- 2)) \<and> so_risk_amount out = Some r \<and>
     dval r \<le> slack 4 * dval (so_budget out) \<and>
     dval (Dec 2 (- 2)) * (5 * 100 * 1) \<le> slack 11 * \<bar>1000 * dval (uc_risk_pct default_ut_config)\<bar>"
proof -
  have run: "size_entry default_ut_config (dint 5) sample_spec (dint 1000) (dint 1) =
      Inr \<lparr>so_lots = Some (Dec 2 (- 2)), so_quantity = Some (dint 2), so_budget = Dec 10000 (- 2),
        so_risk_amount = Some (Dec 1000 (- 2)), so_requires_confirmation = False, so_rejection = None\<rparr>"
    by code_simp
  have mode: "uc_sizing_mode default_ut_config = RISK_PERCENT" by code_simp
  have rate: "0 < dint 1" by code_simp
  have cs: "dval (sp_contract_size sample_spec) = 100" by (simp add: sample_spec_def)
  show ?thesis
    using accepted_size_within_budget [OF run sample_contracts rate mode _ _ refl refl] run cs by auto
qed

text \<open>\<open>size_entry\<close> returns for every input of a valid symbol, except in RISK_PERCENT mode when the
  exchange rate is zero: then the division by the risk per lot raises. A non-positive stop
  distance is rejected as NON_POSITIVE_RISK in every mode.\<close>

lemma size_entry_total:
  assumes "spec_contract spec"
  shows "(size_entry c d spec e rate = Inl x \<longleftrightarrow>
        x = DecimalException \<and> 0 < d \<and> uc_sizing_mode c = RISK_PERCENT \<and> coeff rate = 0) \<and>
      (d \<le> 0 \<longleftrightarrow>
        (\<exists>out. size_entry c d spec e rate = Inr out \<and> so_rejection out = Some NON_POSITIVE_RISK))"
proof -
  have step: "0 < sp_volume_step spec" and cs: "dval (sp_contract_size spec) \<noteq> 0"
    using assms by (simp_all add: spec_contract_def dec_order)
  show ?thesis
  proof (cases "d \<le> 0")
    case True
    then show ?thesis by (auto simp: size_entry_flat not_less_dec [symmetric])
  next
    case False
    then have d: "0 < d" by (simp add: not_le_dec)
    then have rpl: "coeff (risk_per_lot_of d spec rate) = 0 \<longleftrightarrow> coeff rate = 0"
      using cs by (simp add: risk_per_lot_of_def dval_zero_iff [symmetric] times_dec_zero_iff dec_order)
    have fin: "finalise l spec b r cf \<noteq> Inl y" for l b r cf y
      using finalise_total [OF step, of l b r cf] by auto
    have "size_entry c d spec e rate = Inl x \<longleftrightarrow> uc_sizing_mode c = RISK_PERCENT \<and>
        ddiv (copy_abs (e * uc_risk_pct c)) (risk_per_lot_of d spec rate) = Inl x"
      using False fin by (cases "uc_sizing_mode c")
        (auto simp: size_entry_def Let_def risk_per_lot_of_def bindr_Inl_iff split: if_splits)
    moreover have "so_rejection out \<noteq> Some NON_POSITIVE_RISK" if "size_entry c d spec e rate = Inr out" for out
      using that d by (rule size_entry_cases) (auto elim!: finalise_Inr split: if_splits)
    ultimately show ?thesis using False d rpl by (auto simp: ddiv_zero)
  qed
qed

text \<open>
  The cap \<open>max_lots\<close> binds only the sizes derived from the budget: the fixed size and the size
  offered for confirmation are \<open>max(base_lots, volume_min)\<close>, which a broker minimum can lift
  above the cap.
\<close>

lemma floor_size_ignores_the_cap:
  "config_contract (default_ut_config\<lparr>uc_sizing_mode := FIXED\<rparr>)"
  "map_sum id so_lots (size_entry (default_ut_config\<lparr>uc_sizing_mode := FIXED\<rparr>) (dint 5)
     (sample_spec\<lparr>sp_volume_min := Dec 1 (- 1)\<rparr>) (dint 1000) (dint 1)) = Inr (Some (Dec 1 (- 1)))"
  "uc_max_lots (default_ut_config\<lparr>uc_sizing_mode := FIXED\<rparr>) < Dec 1 (- 1)"
  by (use sample_contracts(1) in \<open>simp add: config_contract_def\<close>) code_simp+

end
