(* ===== verification/Domain_Market.thy ===== *)
theory Domain_Market
  imports Domain_Orders
begin

text \<open>
  The market data contracts: a closed bar (\<open>domain/bars.py\<close>) and the signal snapshot of a bar
  (\<open>BarSignal\<close> of \<open>strategies/ut_bot/signals.py\<close>), which the trade manager and the simulator read.
\<close>

record bar =
  ba_symbol :: string
  ba_timeframe :: string
  ba_open_time :: pydatetime
  ba_open :: dec
  ba_high :: dec
  ba_low :: dec
  ba_close :: dec
  ba_tick_volume :: int
  ba_spread :: int

definition reject_float_price :: "pyval \<Rightarrow> pyval result" where
  "reject_float_price v = validate_order_decimal_input v ''bar price''"

definition require_positive_price :: "dec \<Rightarrow> string list" where
  "require_positive_price d = decimal_field ''bar price'' (d \<le> 0) ''bar prices must be positive'' d"

definition require_non_negative_counter :: "int \<Rightarrow> string list" where
  "require_non_negative_counter n = complain (n < 0) ''bar counters must be non-negative''"

definition require_consistent_range :: "bar \<Rightarrow> string option" where
  "require_consistent_range b =
     (if ba_high b < ba_low b then Some ''high must not be below low''
      else if ba_high b < pymax (ba_open b) (ba_close b) then Some ''high must cover open and close''
      else if ba_low b > pymin (ba_open b) (ba_close b) then Some ''low must cover open and close''
      else None)"

definition Bar :: "bar \<Rightarrow> bar result" where
  "Bar raw =
     (let b = raw\<lparr>ba_open_time := astimezone_utc (ba_open_time raw)\<rparr>
      in run_model
           (complain (\<not> is_aware (ba_open_time raw)) ''open_time must be timezone-aware''
            @ concat (map require_positive_price [ba_open raw, ba_high raw, ba_low raw, ba_close raw])
            @ concat (map require_non_negative_counter [ba_tick_volume raw, ba_spread raw]))
           [require_consistent_range b] b)"

record bar_signal =
  bs_index :: int
  bs_open_time :: pydatetime
  bs_buy :: bool
  bs_sell :: bool
  bs_hull_green :: "bool option"
  bs_hull_flip_down :: bool
  bs_hull_flip_up :: bool
  bs_trailing_stop :: "dec option"
  bs_stop_low :: "dec option"
  bs_stop_high :: "dec option"

section \<open>What a validated bar promises\<close>

definition bar_contract :: "bar \<Rightarrow> bool" where
  "bar_contract b \<longleftrightarrow>
     is_aware (ba_open_time b) \<and>
     (\<forall>p \<in> {ba_open b, ba_high b, ba_low b, ba_close b}. column_price p) \<and>
     0 \<le> ba_tick_volume b \<and> 0 \<le> ba_spread b \<and>
     ba_low b \<le> ba_open b \<and> ba_open b \<le> ba_high b \<and>
     ba_low b \<le> ba_close b \<and> ba_close b \<le> ba_high b"

lemma require_positive_price_Nil [simp]: "require_positive_price d = [] \<longleftrightarrow> column_price d"
  by (simp add: require_positive_price_def column_price_def not_le_dec)

lemma require_consistent_range_None:
  "require_consistent_range b = None \<longleftrightarrow>
     ba_low b \<le> ba_open b \<and> ba_open b \<le> ba_high b \<and> ba_low b \<le> ba_close b \<and> ba_close b \<le> ba_high b"
  by (auto simp: require_consistent_range_def dec_order dec_simps)

lemma Bar_iff:
  "Bar raw = Inr b \<longleftrightarrow>
     bar_contract raw \<and> b = raw\<lparr>ba_open_time := astimezone_utc (ba_open_time raw)\<rparr>"
  by (auto simp: Bar_def Let_def run_model_Inr_iff first_failure_None_iff bar_contract_def
      require_consistent_range_None require_non_negative_counter_def)

end
