(* ===== verification/Trade_Manager.thy ===== *)
theory Trade_Manager
  imports Ut_Config Domain_Market
begin

text \<open>
  \<open>application/trade_manager.py\<close>: the life cycle of the two tranches of a trade as pure
  functions from a closed bar and its signal to the next state and the actions to perform.
\<close>

section \<open>Data\<close>

datatype tranche_role = T1 | T2

datatype tranche_state = PENDING_ENTRY | OPEN | CLOSED

datatype close_reason =
    STOP_LOSS | TAKE_PROFIT | BREAKEVEN_STOP | HULL_FLIP | REVERSAL | INVALID_RISK | ENTRY_GAP

datatype action_kind = OPEN_MARKET | SET_BRACKETS | MOVE_STOP | CLOSE_MARKET

record trade_action =
  ta_kind :: action_kind
  ta_role :: tranche_role
  ta_side :: "order_side option"
  ta_quantity :: "dec option"
  ta_stop_loss :: "dec option"
  ta_take_profit :: "dec option"
  ta_reason :: "close_reason option"

definition TradeAction :: "action_kind \<Rightarrow> tranche_role \<Rightarrow> trade_action" where
  "TradeAction k r =
     \<lparr>ta_kind = k, ta_role = r, ta_side = None, ta_quantity = None, ta_stop_loss = None,
      ta_take_profit = None, ta_reason = None\<rparr>"

record tranche =
  tr_role :: tranche_role
  tr_side :: order_side
  tr_state :: tranche_state
  tr_quantity :: "dec option"
  tr_entry_price :: "dec option"
  tr_stop_loss :: "dec option"
  tr_take_profit :: "dec option"
  tr_entry_bar_index :: "int option"
  tr_breakeven_moved :: bool
  tr_close_reason :: "close_reason option"

definition Tranche :: "tranche_role \<Rightarrow> order_side \<Rightarrow> tranche_state \<Rightarrow> tranche" where
  "Tranche role side st =
     \<lparr>tr_role = role, tr_side = side, tr_state = st, tr_quantity = None, tr_entry_price = None,
      tr_stop_loss = None, tr_take_profit = None, tr_entry_bar_index = None,
      tr_breakeven_moved = False, tr_close_reason = None\<rparr>"

record trade_state =
  ts_side :: "order_side option"
  ts_pending_stop :: "dec option"
  ts_reference_close :: "dec option"
  ts_tranches :: "tranche list"

definition TradeState :: trade_state where
  "TradeState = \<lparr>ts_side = None, ts_pending_stop = None, ts_reference_close = None, ts_tranches = []\<rparr>"

definition tranche_of :: "trade_state \<Rightarrow> tranche_role \<Rightarrow> tranche option" where
  "tranche_of s role = find (\<lambda>t. tr_role t = role) (ts_tranches s)"

definition live_tranches :: "trade_state \<Rightarrow> tranche list" where
  "live_tranches s = filter (\<lambda>t. tr_state t \<noteq> CLOSED) (ts_tranches s)"

definition is_flat :: "trade_state \<Rightarrow> bool" where
  "is_flat s \<longleftrightarrow> live_tranches s = []"

record trade_decision =
  td_state :: trade_state
  td_actions :: "trade_action list"

section \<open>Operations\<close>

definition replace_tranche :: "trade_state \<Rightarrow> tranche \<Rightarrow> trade_state" where
  "replace_tranche s updated =
     s\<lparr>ts_tranches := map (\<lambda>t. if tr_role t = tr_role updated then updated else t) (ts_tranches s)\<rparr>"

definition touched :: "order_side \<Rightarrow> dec \<Rightarrow> bar \<Rightarrow> bool" where
  "touched side price b = (if side = BUY then ba_high b \<ge> price else ba_low b \<le> price)"

definition closed_as :: "tranche \<Rightarrow> close_reason \<Rightarrow> tranche" where
  "closed_as t reason = t\<lparr>tr_state := CLOSED, tr_close_reason := Some reason\<rparr>"

definition close_action :: "tranche \<Rightarrow> close_reason \<Rightarrow> trade_action" where
  "close_action t reason =
     (TradeAction CLOSE_MARKET (tr_role t))\<lparr>ta_quantity := tr_quantity t, ta_reason := Some reason\<rparr>"

definition apply_breakeven ::
  "trade_state \<Rightarrow> bar \<Rightarrow> bar_signal \<Rightarrow> trade_state \<times> trade_action list" where
  "apply_breakeven s b sig =
     (case (tranche_of s T2, tranche_of s T1) of
        (Some runner, Some fixed) \<Rightarrow>
          if tr_state runner \<noteq> OPEN \<or> tr_breakeven_moved runner then (s, [])
          else (case (tr_take_profit fixed, tr_entry_price runner) of
            (Some target, Some entry) \<Rightarrow>
              (case tr_entry_bar_index runner of
                 None \<Rightarrow> (s, [])
               | Some entry_bar \<Rightarrow>
                   if bs_index sig \<le> entry_bar then (s, [])
                   else if \<not> touched (tr_side runner) target b then (s, [])
                   else (replace_tranche s
                           (runner\<lparr>tr_stop_loss := Some entry, tr_breakeven_moved := True\<rparr>),
                         [(TradeAction MOVE_STOP T2)\<lparr>ta_stop_loss := Some entry\<rparr>]))
          | _ \<Rightarrow> (s, []))
      | _ \<Rightarrow> (s, []))"

definition apply_hull_exit ::
  "trade_state \<Rightarrow> bar_signal \<Rightarrow> ut_config \<Rightarrow> trade_state \<times> trade_action list" where
  "apply_hull_exit s sig config =
     (case tranche_of s T2 of
        None \<Rightarrow> (s, [])
      | Some runner \<Rightarrow>
          if tr_state runner \<noteq> OPEN then (s, [])
          else if \<not> uc_use_hull_exit config then (s, [])
          else if uc_only_after_be config \<and> \<not> tr_breakeven_moved runner then (s, [])
          else let flipped = (if tr_side runner = BUY then bs_hull_flip_down sig else bs_hull_flip_up sig)
               in if \<not> flipped then (s, [])
                  else (replace_tranche s (closed_as runner HULL_FLIP),
                        [(TradeAction CLOSE_MARKET T2)\<lparr>ta_quantity := tr_quantity runner,
                            ta_reason := Some HULL_FLIP\<rparr>]))"

definition close_opposite ::
  "order_side \<Rightarrow> trade_state \<times> trade_action list \<Rightarrow> tranche \<Rightarrow> trade_state \<times> trade_action list" where
  "close_opposite side acc t =
     (case acc of (s, actions) \<Rightarrow>
        if tr_side t = side then (s, actions)
        else (replace_tranche s (closed_as t REVERSAL), actions @ [close_action t REVERSAL]))"

definition open_action :: "order_side \<Rightarrow> tranche \<Rightarrow> trade_action" where
  "open_action side t = (TradeAction OPEN_MARKET (tr_role t))\<lparr>ta_side := Some side\<rparr>"

definition enter_side ::
  "trade_state \<Rightarrow> bar \<Rightarrow> order_side \<Rightarrow> dec option \<Rightarrow> trade_state \<times> trade_action list" where
  "enter_side s0 b side pending_stop =
     (case foldl (close_opposite side) (s0, []) (live_tranches s0) of (s, actions) \<Rightarrow>
        if \<not> is_flat s then (s, actions)
        else case pending_stop of
          None \<Rightarrow> (s, actions)
        | Some stop \<Rightarrow>
            let entries = map (\<lambda>role. Tranche role side PENDING_ENTRY) [T1, T2]
            in (\<lparr>ts_side = Some side, ts_pending_stop = Some stop,
                 ts_reference_close = Some (ba_close b), ts_tranches = entries\<rparr>,
                actions @ map (open_action side) entries))"

definition apply_signal ::
  "trade_state \<Rightarrow> bar \<Rightarrow> bar_signal \<Rightarrow> trade_state \<times> trade_action list" where
  "apply_signal s b sig =
     (if bs_buy sig then enter_side s b BUY (bs_stop_low sig)
      else if bs_sell sig then enter_side s b SELL (bs_stop_high sig)
      else (s, []))"

definition on_bar_close ::
  "trade_state \<Rightarrow> bar \<Rightarrow> bar_signal \<Rightarrow> ut_config \<Rightarrow> trade_decision" where
  "on_bar_close s b sig config =
     (let (s1, breakeven_actions) = apply_breakeven s b sig;
          (s2, hull_actions) = apply_hull_exit s1 sig config;
          (s3, signal_actions) = apply_signal s2 b sig
      in \<lparr>td_state = s3, td_actions = breakeven_actions @ hull_actions @ signal_actions\<rparr>)"

definition flatten_if_done :: "trade_state \<Rightarrow> trade_state" where
  "flatten_if_done s = (if \<not> is_flat s then s else TradeState)"

definition abort_entry :: "trade_state \<Rightarrow> close_reason \<Rightarrow> trade_decision" where
  "abort_entry s reason =
     (let (updated, actions) =
        foldl (\<lambda>(u, acts) t. (replace_tranche u (closed_as t reason), acts @ [close_action t reason]))
          (s, []) (live_tranches s)
      in \<lparr>td_state = flatten_if_done updated, td_actions = actions\<rparr>)"

definition on_tranche_closed :: "trade_state \<Rightarrow> tranche_role \<Rightarrow> close_reason \<Rightarrow> trade_decision" where
  "on_tranche_closed s role reason =
     (case tranche_of s role of
        None \<Rightarrow> \<lparr>td_state = s, td_actions = []\<rparr>
      | Some t \<Rightarrow>
          if tr_state t = CLOSED then \<lparr>td_state = s, td_actions = []\<rparr>
          else \<lparr>td_state = flatten_if_done (replace_tranche s (closed_as t reason)), td_actions = []\<rparr>)"

definition entry_gap_reason :: "dec \<Rightarrow> dec option \<Rightarrow> ut_config \<Rightarrow> close_reason option result" where
  "entry_gap_reason entry_price reference_close config =
     (case (uc_max_entry_gap_bps config, reference_close) of
        (Some limit, Some reference) \<Rightarrow>
          if reference \<le> 0 then Inr None
          else bindr (ddiv (dabs (entry_price - reference)) reference) (\<lambda>ratio.
                 let drift = ratio * dint 10000
                 in Inr (if drift > dint limit then Some ENTRY_GAP else None))
      | _ \<Rightarrow> Inr None)"

definition pending_tranches :: "trade_state \<Rightarrow> tranche list" where
  "pending_tranches s = filter (\<lambda>t. tr_state t = PENDING_ENTRY) (ts_tranches s)"

definition record_quantity :: "trade_state \<Rightarrow> dec option \<Rightarrow> trade_state" where
  "record_quantity s quantity =
     (case quantity of
        None \<Rightarrow> s
      | Some q \<Rightarrow> foldl (\<lambda>u t. replace_tranche u (t\<lparr>tr_quantity := Some q\<rparr>)) s (pending_tranches s))"

definition fill_tranche ::
  "dec \<Rightarrow> int \<Rightarrow> dec \<Rightarrow> dec \<Rightarrow> trade_state \<times> trade_action list \<Rightarrow> tranche \<Rightarrow> trade_state \<times> trade_action list" where
  "fill_tranche entry_price bar_index stop_loss target acc t =
     (case acc of (updated, actions) \<Rightarrow>
        let take_profit = (if tr_role t = T1 then Some target else None);
            filled = t\<lparr>tr_state := OPEN, tr_entry_price := Some entry_price,
                       tr_entry_bar_index := Some bar_index, tr_stop_loss := Some stop_loss,
                       tr_take_profit := take_profit\<rparr>
        in (replace_tranche updated filled,
            actions @ [(TradeAction SET_BRACKETS (tr_role t))\<lparr>ta_stop_loss := Some stop_loss,
                          ta_take_profit := take_profit\<rparr>]))"

definition on_entry_filled ::
  "trade_state \<Rightarrow> dec \<Rightarrow> int \<Rightarrow> ut_config \<Rightarrow> dec option \<Rightarrow> dec option \<Rightarrow> trade_decision result" where
  "on_entry_filled s0 entry_price bar_index config quantity reference_close =
     (case (ts_side s0, ts_pending_stop s0) of
        (Some side, Some stop_loss) \<Rightarrow>
          if pending_tranches s0 = [] then Inl (ValueError ''no tranche is awaiting entry'')
          else
            let s = record_quantity s0 quantity; pending = pending_tranches s
            in bindr (entry_gap_reason entry_price reference_close config) (\<lambda>gap_reason.
               case gap_reason of
                 Some r \<Rightarrow> Inr (abort_entry s r)
               | None \<Rightarrow>
                   let risk = (if side = BUY then entry_price - stop_loss else stop_loss - entry_price)
                   in if risk \<le> 0 then Inr (abort_entry s INVALID_RISK)
                      else
                        let target = (if side = BUY then entry_price + uc_rr_mult config * risk
                                      else entry_price - uc_rr_mult config * risk);
                            (updated, actions) =
                              foldl (fill_tranche entry_price bar_index stop_loss target) (s, []) pending
                        in Inr \<lparr>td_state = updated, td_actions = actions\<rparr>)
      | _ \<Rightarrow> Inl (ValueError ''cannot fill an entry without a pending signal''))"

lemmas trade_ops = TradeAction_def Tranche_def TradeState_def closed_as_def close_action_def
  open_action_def

end
