(* ===== verification/Py_Float.thy ===== *)
theory Py_Float
  imports Py_Decimal "HOL-Library.Product_Lexorder"
begin

text \<open>
  Python's \<open>float\<close>: IEEE 754 binary64 with rounding to nearest, ties to even. A finite nonzero
  float is an integer times a power of two; zeros and infinities carry their sign. The
  representation is not unique, so floats are compared by value, as in the source. Every
  operation computes the exact result first and rounds it once to 53 bits, to subnormals below
  \<open>2 ^ - 1022\<close> and to an infinity above the largest float.
\<close>

datatype pyfloat = FNan | FInf bool | FZero bool | FBin int int

section \<open>Rounding\<close>

text \<open>Number of binary digits of a positive integer.\<close>

function bit_length :: "int \<Rightarrow> int" where
  "bit_length n = (if n \<le> 0 then 0 else 1 + bit_length (n div 2))"
  by pat_completeness auto
termination by (relation "measure nat") auto

declare bit_length.simps [simp del]

definition signed :: "bool \<Rightarrow> int \<Rightarrow> int" where
  "signed neg m = (if neg then - m else m)"

text \<open>The float nearest to \<open>m * 2 ^ e\<close> for \<open>0 < m\<close>, with the given sign.\<close>

definition fround :: "bool \<Rightarrow> int \<Rightarrow> int \<Rightarrow> pyfloat" where
  "fround neg m e =
     (let t = max (e + bit_length m - 53) (- 1074);
          (q, x) = (if t \<le> e then (m, e) else (half_even m (2 ^ nat (t - e)), t))
      in if q = 0 then FZero neg
         else if 1024 < bit_length q + x then FInf neg
         else FBin (signed neg q) x)"

text \<open>The float nearest to \<open>n / d\<close> for positive \<open>n\<close> and \<open>d\<close>: a quotient of at least 54 bits with a
  sticky last bit is rounded like the exact one.\<close>

definition fround_ratio :: "bool \<Rightarrow> int \<Rightarrow> int \<Rightarrow> pyfloat" where
  "fround_ratio neg n d =
     (let sh = 56 - (bit_length n - bit_length d);
          num = n * 2 ^ nat sh; den = d * 2 ^ nat (- sh);
          q = num div den
      in fround neg (2 * q + (if num mod den = 0 then 0 else 1)) (- sh - 1))"

section \<open>Arithmetic\<close>

fun fneg :: "pyfloat \<Rightarrow> pyfloat" where
  "fneg FNan = FNan"
| "fneg (FInf s) = FInf (\<not> s)"
| "fneg (FZero s) = FZero (\<not> s)"
| "fneg (FBin m e) = FBin (- m) e"

fun fabs :: "pyfloat \<Rightarrow> pyfloat" where
  "fabs FNan = FNan"
| "fabs (FInf s) = FInf False"
| "fabs (FZero s) = FZero False"
| "fabs (FBin m e) = FBin \<bar>m\<bar> e"

fun fsign :: "pyfloat \<Rightarrow> bool" where
  "fsign (FInf s) = s"
| "fsign (FZero s) = s"
| "fsign (FBin m e) = (m < 0)"
| "fsign FNan = False"

fun fadd :: "pyfloat \<Rightarrow> pyfloat \<Rightarrow> pyfloat" where
  "fadd FNan y = FNan"
| "fadd x FNan = FNan"
| "fadd (FInf s) (FInf t) = (if s = t then FInf s else FNan)"
| "fadd (FInf s) y = FInf s"
| "fadd x (FInf t) = FInf t"
| "fadd (FZero s) (FZero t) = FZero (s \<and> t)"
| "fadd (FZero s) (FBin m e) = FBin m e"
| "fadd (FBin m e) (FZero t) = FBin m e"
| "fadd (FBin m1 e1) (FBin m2 e2) =
     (let e = min e1 e2; m = m1 * 2 ^ nat (e1 - e) + m2 * 2 ^ nat (e2 - e)
      in if m = 0 then FZero False else fround (m < 0) \<bar>m\<bar> e)"

fun fmul :: "pyfloat \<Rightarrow> pyfloat \<Rightarrow> pyfloat" where
  "fmul FNan y = FNan"
| "fmul x FNan = FNan"
| "fmul (FInf s) (FZero t) = FNan"
| "fmul (FZero s) (FInf t) = FNan"
| "fmul (FBin m1 e1) (FBin m2 e2) = fround (m1 * m2 < 0) \<bar>m1 * m2\<bar> (e1 + e2)"
| "fmul (FInf s) y = FInf (s \<noteq> fsign y)"
| "fmul x (FInf t) = FInf (fsign x \<noteq> t)"
| "fmul x y = FZero (fsign x \<noteq> fsign y)"

text \<open>The quotient for a nonzero divisor; Python's \<open>/\<close> raises for a zero one.\<close>

fun fquot :: "pyfloat \<Rightarrow> pyfloat \<Rightarrow> pyfloat" where
  "fquot FNan y = FNan"
| "fquot x FNan = FNan"
| "fquot (FInf s) (FInf t) = FNan"
| "fquot (FInf s) y = FInf (s \<noteq> fsign y)"
| "fquot x (FInf t) = FZero (fsign x \<noteq> t)"
| "fquot (FZero s) (FZero t) = FNan"
| "fquot (FZero s) y = FZero (s \<noteq> fsign y)"
| "fquot (FBin m e) (FZero t) = FInf ((m < 0) \<noteq> t)"
| "fquot (FBin m1 e1) (FBin m2 e2) =
     (let e = e1 - e2
      in fround_ratio (m1 * m2 < 0) (\<bar>m1\<bar> * 2 ^ nat e) (\<bar>m2\<bar> * 2 ^ nat (- e)))"

fun is_fzero :: "pyfloat \<Rightarrow> bool" where
  "is_fzero (FZero _) = True"
| "is_fzero _ = False"

definition fdiv :: "pyfloat \<Rightarrow> pyfloat \<Rightarrow> pyfloat result" where
  "fdiv x y = (if is_fzero y then Inl ZeroDivisionError else Inr (fquot x y))"

instantiation pyfloat :: "{zero, one, plus, minus, uminus, times}"
begin

definition zero_pyfloat :: pyfloat where "0 = FZero False"
definition one_pyfloat :: pyfloat where "1 = FBin 1 0"
definition plus_pyfloat :: "pyfloat \<Rightarrow> pyfloat \<Rightarrow> pyfloat" where "x + y = fadd x y"
definition uminus_pyfloat :: "pyfloat \<Rightarrow> pyfloat" where "- x = fneg x"
definition minus_pyfloat :: "pyfloat \<Rightarrow> pyfloat \<Rightarrow> pyfloat" where "x - y = fadd x (fneg y)"
definition times_pyfloat :: "pyfloat \<Rightarrow> pyfloat \<Rightarrow> pyfloat" where "x * y = fmul x y"

instance ..

end

section \<open>Comparison\<close>

text \<open>A NaN compares false with everything, and the two zeros are equal.\<close>

fun fsig :: "pyfloat \<Rightarrow> int" where
  "fsig (FBin m e) = m"
| "fsig _ = 0"

fun fexp :: "pyfloat \<Rightarrow> int" where
  "fexp (FBin m e) = e"
| "fexp _ = 0"

definition falign :: "int \<Rightarrow> pyfloat \<Rightarrow> int" where
  "falign e x = fsig x * 2 ^ nat (fexp x - e)"

text \<open>Comparison by a relation \<open>r\<close> on the aligned significands; equal infinities compare like zeros.\<close>

definition fcompare :: "(int \<Rightarrow> int \<Rightarrow> bool) \<Rightarrow> pyfloat \<Rightarrow> pyfloat \<Rightarrow> bool" where
  "fcompare r x y =
     (let finite = (let e = min (fexp x) (fexp y) in r (falign e x) (falign e y))
      in case x of
           FNan \<Rightarrow> False
         | FInf s \<Rightarrow> (case y of FNan \<Rightarrow> False | FInf t \<Rightarrow> (if s = t then r 0 0 else s) | _ \<Rightarrow> s)
         | _ \<Rightarrow> (case y of FNan \<Rightarrow> False | FInf t \<Rightarrow> \<not> t | _ \<Rightarrow> finite))"

instantiation pyfloat :: ord
begin

definition less_pyfloat :: "pyfloat \<Rightarrow> pyfloat \<Rightarrow> bool" where
  "x < y \<longleftrightarrow> fcompare (<) x y"

definition less_eq_pyfloat :: "pyfloat \<Rightarrow> pyfloat \<Rightarrow> bool" where
  "x \<le> y \<longleftrightarrow> fcompare (\<le>) x y"

instance ..

end

definition feq :: "pyfloat \<Rightarrow> pyfloat \<Rightarrow> bool" where
  "feq x y \<longleftrightarrow> x \<le> y \<and> y \<le> x"

definition is_nan :: "pyfloat \<Rightarrow> bool" where
  "is_nan x \<longleftrightarrow> \<not> feq x x"

section \<open>Conversions\<close>

text \<open>\<open>float(n)\<close> for an int, rounded; too large an int raises \<open>OverflowError\<close>.\<close>

definition fint :: "int \<Rightarrow> pyfloat" where
  "fint n = (if n = 0 then FZero False else fround (n < 0) \<bar>n\<bar> 0)"

definition float_of_int :: "int \<Rightarrow> pyfloat result" where
  "float_of_int n =
     (case fint n of
        FInf _ \<Rightarrow> Inl (OverflowError ''int too large to convert to float'')
      | x \<Rightarrow> Inr x)"

text \<open>\<open>float(d)\<close> for a Decimal: the float nearest to its value.\<close>

definition float_of_dec :: "dec \<Rightarrow> pyfloat" where
  "float_of_dec d =
     (if coeff d = 0 then FZero False
      else fround_ratio (coeff d < 0) (\<bar>coeff d\<bar> * 10 ^ nat (expo d)) (10 ^ nat (- expo d)))"

text \<open>\<open>math.floor\<close> and \<open>math.ceil\<close>.\<close>

fun ffloor :: "pyfloat \<Rightarrow> int result" where
  "ffloor FNan = Inl (ValueError ''cannot convert float NaN to integer'')"
| "ffloor (FInf _) = Inl (OverflowError ''cannot convert float infinity to integer'')"
| "ffloor (FZero _) = Inr 0"
| "ffloor (FBin m e) = Inr (if 0 \<le> e then m * 2 ^ nat e else m div 2 ^ nat (- e))"

definition fceil :: "pyfloat \<Rightarrow> int result" where
  "fceil x = map_sum id uminus (ffloor (fneg x))"

text \<open>\<open>math.sqrt\<close> of a non-negative number, by the integer root of a scaled significand.\<close>

function isqrt_loop :: "int \<Rightarrow> int \<Rightarrow> int \<Rightarrow> int" where
  "isqrt_loop lo hi n =
     (if hi \<le> lo + 1 then lo
      else let mid = (lo + hi) div 2 in if mid * mid \<le> n then isqrt_loop mid hi n else isqrt_loop lo mid n)"
  by pat_completeness auto
termination by (relation "measure (\<lambda>(lo, hi, n). nat (hi - lo))") auto

declare isqrt_loop.simps [simp del]

text \<open>\<open>\<lfloor>sqrt n\<rfloor>\<close> for \<open>0 \<le> n\<close>.\<close>

definition isqrt :: "int \<Rightarrow> int" where
  "isqrt n = isqrt_loop 0 (2 ^ nat (bit_length n div 2 + 1)) n"

fun fsqrt :: "pyfloat \<Rightarrow> pyfloat result" where
  "fsqrt FNan = Inr FNan"
| "fsqrt (FInf s) = (if s then Inl (ValueError ''math domain error'') else Inr (FInf False))"
| "fsqrt (FZero s) = Inr (FZero s)"
| "fsqrt (FBin m e) =
     (if m < 0 then Inl (ValueError ''math domain error'')
      else
        let k = 120 + (e mod 2); n = m * 2 ^ nat k; r = isqrt n
        in Inr (fround False (2 * r + (if r * r = n then 0 else 1)) ((e - k) div 2 - 1)))"

section \<open>Text\<close>

text \<open>
  \<open>Decimal(str(x))\<close> for a finite float: the shortest decimal that reads back as \<open>x\<close>, and the
  nearest to \<open>x\<close> among the shortest (\<open>repr\<close> of CPython). The trailing \<open>.0\<close> of the text would
  only change the exponent, which the callers normalise.
\<close>

definition ratio_of :: "pyfloat \<Rightarrow> int \<times> int" where
  "ratio_of x = (\<bar>fsig x\<bar> * 2 ^ nat (fexp x), 2 ^ nat (- fexp x))"

text \<open>The exponent \<open>k\<close> with \<open>10 ^ k \<le> n / d < 10 ^ (k + 1)\<close>.\<close>

definition decimal_exponent_from :: "int \<Rightarrow> int \<Rightarrow> int \<Rightarrow> int" where
  "decimal_exponent_from n d k = (if d * 10 ^ nat k \<le> n * 10 ^ nat (- k) then k else k - 1)"

definition decimal_exponent :: "int \<Rightarrow> int \<Rightarrow> int" where
  "decimal_exponent n d = decimal_exponent_from n d (idigits n - idigits d)"

definition reads_back :: "pyfloat \<Rightarrow> int \<Rightarrow> int \<Rightarrow> bool" where
  "reads_back x c k \<longleftrightarrow> feq (float_of_dec (Dec c k)) x"

text \<open>The two decimals with \<open>u\<close> as last place around \<open>n / d\<close>, the nearer first.\<close>

definition around :: "int \<Rightarrow> int \<Rightarrow> int \<Rightarrow> int \<times> int" where
  "around n d u =
     (let num = n * 10 ^ nat (- u); den = d * 10 ^ nat u; c = num div den; r = num mod den
      in if 2 * r < den \<or> 2 * r = den \<and> even c then (c, c + 1) else (c + 1, c))"

primrec shortest :: "nat \<Rightarrow> pyfloat \<Rightarrow> int \<Rightarrow> int \<Rightarrow> int \<Rightarrow> dec" where
  "shortest 0 x n d u = Dec (fst (around n d u)) u"
| "shortest (Suc f) x n d u =
     (if reads_back x (fst (around n d u)) u then Dec (fst (around n d u)) u
      else if reads_back x (snd (around n d u)) u then Dec (snd (around n d u)) u
      else shortest f x n d (u - 1))"

definition shortest_decimal :: "pyfloat \<Rightarrow> int \<times> int \<Rightarrow> dec" where
  "shortest_decimal x r = shortest 17 x (fst r) (snd r) (decimal_exponent (fst r) (snd r))"

definition dscale :: "int \<Rightarrow> dec \<Rightarrow> dec" where
  "dscale g s = Dec (g * coeff s) (expo s)"

definition dec_of_float :: "pyfloat \<Rightarrow> dec" where
  "dec_of_float x =
     (if fsig x = 0 then Dec 0 0
      else dscale (sgn (fsig x)) (shortest_decimal (fabs x) (ratio_of x)))"

section \<open>Order\<close>

text \<open>
  A linear key for the floats that are not NaN: the comparison of the floats is the
  comparison of the keys.
\<close>

definition fval :: "pyfloat \<Rightarrow> rat" where
  "fval x = of_int (fsig x) * 2 powi fexp x"

fun fkey :: "pyfloat \<Rightarrow> int \<times> rat" where
  "fkey (FInf s) = (if s then - 1 else 1, 0)"
| "fkey x = (0, fval x)"

lemma falign_fval: "e \<le> fexp x \<Longrightarrow> of_int (falign e x) * (2::rat) powi e = fval x"
proof -
  assume e: "e \<le> fexp x"
  then have "(2::rat) ^ nat (fexp x - e) * 2 powi e = 2 powi fexp x"
    by (simp add: power_int_add [symmetric] flip: power_int_of_nat)
  then show ?thesis by (simp add: falign_def fval_def mult.assoc)
qed

lemma falign_less: "falign (min (fexp x) (fexp y)) x < falign (min (fexp x) (fexp y)) y \<longleftrightarrow> fval x < fval y"
proof -
  let ?e = "min (fexp x) (fexp y)"
  have "fval x < fval y \<longleftrightarrow> of_int (falign ?e x) * (2::rat) powi ?e < of_int (falign ?e y) * 2 powi ?e"
    by (simp add: falign_fval)
  also have "\<dots> \<longleftrightarrow> falign ?e x < falign ?e y" by simp
  finally show ?thesis by simp
qed

lemma falign_le: "falign (min (fexp x) (fexp y)) x \<le> falign (min (fexp x) (fexp y)) y \<longleftrightarrow> fval x \<le> fval y"
  using falign_less [of y x] by (simp add: min.commute linorder_not_less [symmetric])

lemma fless_key: "x < y \<longleftrightarrow> x \<noteq> FNan \<and> y \<noteq> FNan \<and> fkey x < fkey y" for x y :: pyfloat
  unfolding less_pyfloat_def fcompare_def Let_def falign_less by (cases x; cases y) simp_all

lemma fle_key: "x \<le> y \<longleftrightarrow> x \<noteq> FNan \<and> y \<noteq> FNan \<and> fkey x \<le> fkey y" for x y :: pyfloat
  unfolding less_eq_pyfloat_def fcompare_def Let_def falign_le by (cases x; cases y) simp_all

lemma fless_not_le: "x < y \<Longrightarrow> \<not> y \<le> x" "x < y \<Longrightarrow> \<not> y < x" "x < y \<Longrightarrow> x \<le> y" for x y :: pyfloat
  by (auto simp: fless_key fle_key)

lemma fnot_less: "x \<noteq> FNan \<Longrightarrow> y \<noteq> FNan \<Longrightarrow> \<not> x < y \<longleftrightarrow> y \<le> x" for x y :: pyfloat
  by (auto simp: fless_key fle_key)

lemma is_nan_iff: "is_nan x \<longleftrightarrow> x = FNan"
  by (auto simp: is_nan_def feq_def fle_key)

lemma pymax_float_ge: "b \<noteq> FNan \<Longrightarrow> \<not> pymax b c < b" for b c :: pyfloat
  by (auto simp: pymax_def fless_key)

lemma pymin_float_le: "b \<noteq> FNan \<Longrightarrow> \<not> b < pymin b c" for b c :: pyfloat
  by (auto simp: pymin_def fless_key)

text \<open>\<open>min\<close> and \<open>max\<close> of a non-empty sequence: the first of the least (greatest) elements.\<close>

fun pymin_list :: "'a::ord list \<Rightarrow> 'a" where
  "pymin_list [x] = x"
| "pymin_list (x # y # xs) = pymin_list (pymin x y # xs)"

fun pymax_list :: "'a::ord list \<Rightarrow> 'a" where
  "pymax_list [x] = x"
| "pymax_list (x # y # xs) = pymax_list (pymax x y # xs)"

lemma pymin_list_in: "xs \<noteq> [] \<Longrightarrow> pymin_list xs \<in> set xs"
proof (induction xs rule: pymin_list.induct)
  case (2 x y xs)
  then show ?case using pymin_in [of x y] by auto
qed simp_all

lemma pymax_list_in: "xs \<noteq> [] \<Longrightarrow> pymax_list xs \<in> set xs"
proof (induction xs rule: pymax_list.induct)
  case (2 x y xs)
  then show ?case using pymax_in [of x y] by auto
qed simp_all

lemma pymin_list_least:
  fixes xs :: "pyfloat list"
  assumes "xs \<noteq> []" "FNan \<notin> set xs" "x \<in> set xs"
  shows "pymin_list xs \<le> x"
  using assms
proof (induction xs arbitrary: x rule: pymin_list.induct)
  case (2 a b xs)
  have m: "pymin a b \<noteq> FNan" "pymin a b \<le> a" "pymin a b \<le> b"
    using 2(3) by (auto simp: pymin_def fle_key fless_key)
  have ih: "pymin_list (pymin a b # xs) \<le> y" if "y \<in> set (pymin a b # xs)" for y
    using 2(1) [OF _ _ that] 2(3) m(1) by auto
  show ?case
  proof (cases "x \<in> set xs")
    case True
    with ih show ?thesis by simp
  next
    case False
    with 2(4) m ih [of "pymin a b"] show ?thesis by (auto simp: fle_key)
  qed
qed (auto simp: fle_key)

lemma pymax_list_greatest:
  fixes xs :: "pyfloat list"
  assumes "xs \<noteq> []" "FNan \<notin> set xs" "x \<in> set xs"
  shows "x \<le> pymax_list xs"
  using assms
proof (induction xs arbitrary: x rule: pymax_list.induct)
  case (2 a b xs)
  have m: "pymax a b \<noteq> FNan" "a \<le> pymax a b" "b \<le> pymax a b"
    using 2(3) by (auto simp: pymax_def fle_key fless_key)
  have ih: "y \<le> pymax_list (pymax a b # xs)" if "y \<in> set (pymax a b # xs)" for y
    using 2(1) [OF _ _ that] 2(3) m(1) by auto
  show ?case
  proof (cases "x \<in> set xs")
    case True
    with ih show ?thesis by simp
  next
    case False
    with 2(4) m ih [of "pymax a b"] show ?thesis by (auto simp: fle_key)
  qed
qed (auto simp: fle_key)

section \<open>Positive floats\<close>

text \<open>Sums of positive floats stay positive: rounding never reaches zero from the subnormal grid.\<close>

lemma bit_length_lower: "0 < n \<Longrightarrow> 0 < bit_length n \<and> 2 ^ nat (bit_length n - 1) \<le> n"
proof (induction n rule: bit_length.induct)
  case (1 n)
  show ?case
  proof (cases "n = 1")
    case True
    then show ?thesis by (simp add: bit_length.simps)
  next
    case False
    with 1 have half: "0 < bit_length (n div 2)" "2 ^ nat (bit_length (n div 2) - 1) \<le> n div 2" by auto
    have "nat (bit_length (n div 2)) = Suc (nat (bit_length (n div 2) - 1))" using half(1) by simp
    then have "(2::int) ^ nat (bit_length (n div 2)) = 2 * 2 ^ nat (bit_length (n div 2) - 1)" by simp
    also have "\<dots> \<le> n" using half(2) by linarith
    finally show ?thesis using half(1) 1(2) by (subst (1 2) bit_length.simps) simp
  qed
qed

definition fpos :: "pyfloat \<Rightarrow> bool" where
  "fpos x \<longleftrightarrow> x = FInf False \<or> (\<exists>m e. x = FBin m e \<and> 0 < m \<and> - 1074 \<le> e)"

lemma half_even_ge_div: "0 \<le> n \<Longrightarrow> 0 < d \<Longrightarrow> n div d \<le> half_even n d"
  by (simp add: half_even_def Let_def)

lemma fround_pos:
  assumes "0 < m" "- 1074 \<le> e"
  shows "fpos (fround False m e)"
proof -
  define t where "t = max (e + bit_length m - 53) (- 1074)"
  show ?thesis
  proof (cases "t \<le> e")
    case True
    then have "fround False m e = (if 1024 < bit_length m + e then FInf False else FBin m e)"
      using assms by (simp add: fround_def Let_def t_def signed_def)
    with assms show ?thesis by (simp add: fpos_def)
  next
    case False
    let ?k = "nat (t - e)" and ?q = "half_even m (2 ^ nat (t - e))"
    have k: "?k \<le> nat (bit_length m - 1)" using False assms(2) by (simp add: t_def)
    have "(2::int) ^ ?k \<le> 2 ^ nat (bit_length m - 1)" using k by (intro power_increasing) simp_all
    also have "\<dots> \<le> m" using bit_length_lower [OF assms(1)] by simp
    finally have "1 \<le> m div 2 ^ ?k" using pos_imp_zdiv_pos_iff [of "2 ^ ?k" m] by simp
    then have "0 < ?q" using half_even_ge_div [of m "2 ^ ?k"] assms(1) by simp
    moreover have "fround False m e = (if ?q = 0 then FZero False
        else if 1024 < bit_length ?q + t then FInf False else FBin ?q t)"
      using False by (simp add: fround_def Let_def t_def [symmetric] signed_def)
    moreover have "- 1074 \<le> t" by (simp add: t_def)
    ultimately show ?thesis by (simp add: fpos_def)
  qed
qed

lemma fint_pos: "0 < n \<Longrightarrow> fpos (fint n)"
  by (simp add: fint_def fround_pos)

lemma fadd_pos: "fpos x \<Longrightarrow> fpos y \<Longrightarrow> fpos (x + y)"
proof -
  have bins: "fpos (fadd (FBin m1 e1) (FBin m2 e2))"
    if "0 < m1" "0 < m2" "- 1074 \<le> e1" "- 1074 \<le> e2" for m1 m2 e1 e2
  proof -
    define m where "m = m1 * 2 ^ nat (e1 - min e1 e2) + m2 * 2 ^ nat (e2 - min e1 e2)"
    have m: "0 < m" unfolding m_def using that(1,2) by (intro add_pos_pos) simp_all
    then have "fadd (FBin m1 e1) (FBin m2 e2) = fround False m (min e1 e2)"
      unfolding fadd.simps Let_def m_def [symmetric] by simp
    with fround_pos [OF m, of "min e1 e2"] that(3,4) show ?thesis by simp
  qed
  moreover have "fadd (FInf False) (FBin m e) = FInf False" "fadd (FBin m e) (FInf False) = FInf False"
    "fadd (FInf False) (FInf False) = FInf False" "fpos (FInf False)" for m e
    by (simp_all add: fpos_def)
  moreover assume "fpos x" "fpos y"
  ultimately show ?thesis
    unfolding plus_pyfloat_def
    by (auto simp: fpos_def [of x] fpos_def [of y] simp del: fadd.simps)
qed

lemma fpos_nonzero: "fpos x \<Longrightarrow> \<not> is_fzero x"
  by (auto simp: fpos_def)

text \<open>Values of Python, for reference.\<close>

lemma float_examples:
  "float_of_dec (Dec 1 (- 1)) + float_of_dec (Dec 2 (- 1)) = FBin 5404319552844596 (- 54)"
  "fquot 1 (FBin 3 0) = FBin 6004799503160661 (- 54)"
  by code_simp+

end
