(* ===== verification/Ut_Indicators.thy ===== *)
theory Ut_Indicators
  imports Py_Float
begin

text \<open>
  \<open>strategies/ut_bot/indicators.py\<close>: the Pine indicators on series of floats. \<open>None\<close> is
  Pine's \<open>na\<close>. Each loop over the indices of a series is a map over them; every indicator
  looks at the values up to its index only, which the lemmas at the end state once for all.
\<close>

type_synonym series = "pyfloat option list"

definition positive_length_check :: "int \<Rightarrow> unit result" where
  "positive_length_check n = raise_if (n \<le> 0) (ValueError ''length must be positive'')"

definition pine_round :: "pyfloat \<Rightarrow> int result" where
  "pine_round x =
     (if x \<ge> 0 then ffloor (x + FBin 1 (- 1)) else fceil (x - FBin 1 (- 1)))"

text \<open>The slice \<open>values[i + 1 - n : i + 1]\<close>.\<close>

definition window :: "'a list \<Rightarrow> nat \<Rightarrow> nat \<Rightarrow> 'a list" where
  "window xs n i = take n (drop (i + 1 - n) xs)"

definition sma_at :: "series \<Rightarrow> nat \<Rightarrow> nat \<Rightarrow> pyfloat option" where
  "sma_at xs n i =
     (if i + 1 < n then None
      else let w = window xs n i
           in if None \<in> set w then None
              else Some (fquot (foldl (+) 0 (map the w)) (fint (int n))))"

definition sma_series :: "series \<Rightarrow> nat \<Rightarrow> series" where
  "sma_series xs n = map (sma_at xs n) [0..<length xs]"

definition sma :: "series \<Rightarrow> int \<Rightarrow> series result" where
  "sma xs n = bindr (positive_length_check n) (\<lambda>_. Inr (sma_series xs (nat n)))"

text \<open>The loop of \<open>_recursive_average\<close>: values, seeds, and the previous result.\<close>

fun average_loop :: "pyfloat \<Rightarrow> pyfloat option list \<Rightarrow> series \<Rightarrow> pyfloat option \<Rightarrow> series" where
  "average_loop alpha (v # vs) (s # seeds) previous =
     (let current =
        (case previous of
           None \<Rightarrow> s
         | Some p \<Rightarrow>
             (case v of
                None \<Rightarrow> None
              | Some x \<Rightarrow> Some (alpha * x + (1 - alpha) * p)))
      in current # average_loop alpha vs seeds current)"
| "average_loop alpha _ _ previous = []"

definition recursive_average :: "series \<Rightarrow> int \<Rightarrow> pyfloat \<Rightarrow> series result" where
  "recursive_average xs n alpha =
     bindr (sma xs n) (\<lambda>seeded. Inr (average_loop alpha xs seeded None))"

definition rma :: "series \<Rightarrow> int \<Rightarrow> series result" where
  "rma xs n =
     bindr (positive_length_check n) (\<lambda>_.
     bindr (float_of_int n) (\<lambda>l.
     bindr (fdiv 1 l) (\<lambda>alpha. recursive_average xs n alpha)))"

definition ema :: "series \<Rightarrow> int \<Rightarrow> series result" where
  "ema xs n =
     bindr (positive_length_check n) (\<lambda>_.
     bindr (float_of_int (n + 1)) (\<lambda>l.
     bindr (fdiv (FBin 1 1) l) (\<lambda>alpha. recursive_average xs n alpha)))"

text \<open>
  The inner loop of \<open>wma\<close> over the offsets. The weights are at least one, so the division by
  their sum never raises (lemma \<open>wma_norm_nonzero\<close>).
\<close>

fun wma_loop :: "series \<Rightarrow> nat \<Rightarrow> nat \<Rightarrow> nat list \<Rightarrow> pyfloat \<Rightarrow> pyfloat \<Rightarrow> (pyfloat \<times> pyfloat) option" where
  "wma_loop xs n i [] nrm acc = Some (nrm, acc)"
| "wma_loop xs n i (k # ks) nrm acc =
     (case xs ! (i - k) of
        None \<Rightarrow> None
      | Some item \<Rightarrow>
          let weight = fint (int ((n - k) * n))
          in wma_loop xs n i ks (nrm + weight) (acc + item * weight))"

definition wma_at :: "series \<Rightarrow> nat \<Rightarrow> nat \<Rightarrow> pyfloat option" where
  "wma_at xs n i =
     (if i + 1 < n then None
      else map_option (\<lambda>(nrm, acc). fquot acc nrm) (wma_loop xs n i [0..<n] 0 0))"

definition wma_series :: "series \<Rightarrow> nat \<Rightarrow> series" where
  "wma_series xs n = map (wma_at xs n) [0..<length xs]"

definition wma :: "series \<Rightarrow> int \<Rightarrow> series result" where
  "wma xs n = bindr (positive_length_check n) (\<lambda>_. Inr (wma_series xs (nat n)))"

definition true_range_at :: "pyfloat list \<Rightarrow> pyfloat list \<Rightarrow> pyfloat list \<Rightarrow> nat \<Rightarrow> pyfloat" where
  "true_range_at highs lows closes i =
     (if i = 0 then highs ! i - lows ! i
      else let previous_close = closes ! (i - 1)
           in pymax_list [highs ! i - lows ! i, fabs (highs ! i - previous_close),
                fabs (lows ! i - previous_close)])"

definition true_range :: "pyfloat list \<Rightarrow> pyfloat list \<Rightarrow> pyfloat list \<Rightarrow> pyfloat list" where
  "true_range highs lows closes = map (true_range_at highs lows closes) [0..<length highs]"

definition atr :: "pyfloat list \<Rightarrow> pyfloat list \<Rightarrow> pyfloat list \<Rightarrow> int \<Rightarrow> series result" where
  "atr highs lows closes n = rma (map Some (true_range highs lows closes)) n"

definition double_minus_full :: "series \<Rightarrow> series \<Rightarrow> series" where
  "double_minus_full half full =
     map (\<lambda>i. case (half ! i, full ! i) of
                (Some a, Some b) \<Rightarrow> Some (FBin 1 1 * a - b)
              | _ \<Rightarrow> None) [0..<length half]"

text \<open>\<open>max(pine_round(math.sqrt(length)), 1)\<close>.\<close>

definition sqrt_length :: "int \<Rightarrow> int result" where
  "sqrt_length n =
     bindr (float_of_int n) (\<lambda>l. bindr (fsqrt l) (\<lambda>r. bindr (pine_round r) (\<lambda>k. Inr (pymax k 1))))"

definition hma :: "series \<Rightarrow> int \<Rightarrow> series result" where
  "hma xs n =
     bindr (wma xs (pymax (n div 2) 1)) (\<lambda>half.
     bindr (wma xs n) (\<lambda>full.
     bindr (sqrt_length n) (\<lambda>k. wma (double_minus_full half full) k)))"

definition ehma :: "series \<Rightarrow> int \<Rightarrow> series result" where
  "ehma xs n =
     bindr (ema xs (pymax (n div 2) 1)) (\<lambda>half.
     bindr (ema xs n) (\<lambda>full.
     bindr (sqrt_length n) (\<lambda>k. ema (double_minus_full half full) k)))"

definition triple :: "series \<Rightarrow> series \<Rightarrow> series \<Rightarrow> nat \<Rightarrow> series" where
  "triple third half full len =
     map (\<lambda>i. case (third ! i, half ! i, full ! i) of
                (Some a, Some b, Some c) \<Rightarrow> Some (a * FBin 3 0 - b - c)
              | _ \<Rightarrow> None) [0..<len]"

definition thma :: "series \<Rightarrow> int \<Rightarrow> series result" where
  "thma xs n =
     bindr (wma xs (pymax (n div 3) 1)) (\<lambda>third.
     bindr (wma xs (pymax (n div 2) 1)) (\<lambda>half.
     bindr (wma xs n) (\<lambda>full. wma (triple third half full (length xs)) n)))"

definition lowest :: "pyfloat list \<Rightarrow> int \<Rightarrow> series result" where
  "lowest xs n =
     bindr (positive_length_check n) (\<lambda>_.
       Inr (map (\<lambda>i. if i + 1 < nat n then None else Some (pymin_list (window xs (nat n) i)))
              [0..<length xs]))"

definition highest :: "pyfloat list \<Rightarrow> int \<Rightarrow> series result" where
  "highest xs n =
     bindr (positive_length_check n) (\<lambda>_.
       Inr (map (\<lambda>i. if i + 1 < nat n then None else Some (pymax_list (window xs (nat n) i)))
              [0..<length xs]))"

definition cross_at :: "series \<Rightarrow> series \<Rightarrow> bool \<Rightarrow> nat \<Rightarrow> bool" where
  "cross_at left right upward i =
     (if i = 0 then False
      else case (left ! i, right ! i, left ! (i - 1), right ! (i - 1)) of
        (Some now_left, Some now_right, Some was_left, Some was_right) \<Rightarrow>
          if upward then now_left > now_right \<and> was_left \<le> was_right
          else now_left < now_right \<and> was_left \<ge> was_right
      | _ \<Rightarrow> False)"

definition cross :: "series \<Rightarrow> series \<Rightarrow> bool \<Rightarrow> bool list" where
  "cross left right upward = map (cross_at left right upward) [0..<length left]"

definition crossover :: "series \<Rightarrow> series \<Rightarrow> bool list" where
  "crossover left right = cross left right True"

definition crossunder :: "series \<Rightarrow> series \<Rightarrow> bool list" where
  "crossunder left right = cross left right False"

section \<open>The weighted average never divides by zero\<close>

lemma wma_loop_norm_pos:
  "wma_loop xs n i ks nrm acc = Some (r, a) \<Longrightarrow> fpos nrm \<or> nrm = 0 \<and> ks \<noteq> [] \<Longrightarrow>
     (\<forall>k \<in> set ks. k < n) \<Longrightarrow> fpos r"
proof (induction xs n i ks nrm acc rule: wma_loop.induct)
  case (2 xs n i k ks nrm acc)
  have w: "fpos (fint (int ((n - k) * n)))" using 2(4) by (intro fint_pos) simp
  then have "fpos (nrm + fint (int ((n - k) * n)))"
    using 2(3) fadd_pos [of nrm] by (auto simp: plus_pyfloat_def zero_pyfloat_def fpos_def)
  with 2 show ?case by (auto simp: Let_def split: option.splits)
qed auto

lemma wma_norm_nonzero:
  assumes "wma_loop xs n i [0..<n] 0 0 = Some (nrm, acc)" "0 < n"
  shows "fdiv acc nrm = Inr (fquot acc nrm)"
proof -
  have "fpos nrm" using wma_loop_norm_pos [OF assms(1)] assms(2) by simp
  then show ?thesis by (simp add: fdiv_def fpos_nonzero)
qed

section \<open>Indicators look back only\<close>

text \<open>
  A transformation of a series is causal when it keeps the length and its values up to an
  index depend on the inputs up to that index: computing on a prefix gives the prefix of the
  result. An indicator that may raise is causal when whether it raises does not depend on the
  data, and its result is causal.
\<close>

named_theorems causal_intros \<open>indicators and their combinations are causal\<close>

definition causal :: "('a list \<Rightarrow> 'b list) \<Rightarrow> bool" where
  "causal F \<longleftrightarrow> (\<forall>xs. length (F xs) = length xs \<and> (\<forall>n. F (take n xs) = take n (F xs)))"

definition causal_result :: "('a list \<Rightarrow> 'b list result) \<Rightarrow> bool" where
  "causal_result F \<longleftrightarrow> (\<exists>e. \<forall>xs. F xs = Inl e) \<or> (\<exists>G. causal G \<and> (\<forall>xs. F xs = Inr (G xs)))"

lemma causal_length: "causal F \<Longrightarrow> length (F xs) = length xs"
  by (simp add: causal_def)

lemma causal_nth: "causal F \<Longrightarrow> i < n \<Longrightarrow> i < length xs \<Longrightarrow> F (take n xs) ! i = F xs ! i"
  by (simp add: causal_def)

lemma causalI:
  assumes "\<And>xs. length (F xs) = length xs"
    and "\<And>xs n i. i < n \<Longrightarrow> i < length xs \<Longrightarrow> F (take n xs) ! i = F xs ! i"
  shows "causal F"
  unfolding causal_def
proof (intro allI conjI)
  fix xs n
  show "F (take n xs) = take n (F xs)"
    by (rule nth_equalityI) (auto simp: assms)
qed (rule assms(1))

lemma causal_index_map:
  assumes "\<And>xs n i. i < n \<Longrightarrow> i < length xs \<Longrightarrow> f (take n xs) i = f xs i"
  shows "causal (\<lambda>xs. map (f xs) [0..<length xs])"
  by (rule causalI) (simp_all add: assms)

lemma causal_map [causal_intros]: "causal F \<Longrightarrow> causal (\<lambda>xs. map f (F xs))"
  by (simp add: causal_def take_map)

lemma causal_id [causal_intros]: "causal (\<lambda>xs. xs)"
  by (simp add: causal_def)

lemma causal_comp: "causal F \<Longrightarrow> causal G \<Longrightarrow> causal (\<lambda>xs. G (F xs))"
  by (simp add: causal_def)

lemma causal_result_Inr [causal_intros]: "causal F \<Longrightarrow> causal_result (\<lambda>xs. Inr (F xs))"
  by (auto simp: causal_result_def)

lemma causal_result_bind [causal_intros]:
  assumes "causal_result F" "\<And>G. causal G \<Longrightarrow> causal_result (\<lambda>xs. K xs (G xs))"
  shows "causal_result (\<lambda>xs. bindr (F xs) (K xs))"
  using assms(1) unfolding causal_result_def [of F]
proof (elim disjE exE conjE)
  fix G assume "causal G" "\<forall>xs. F xs = Inr (G xs)"
  then show ?thesis using assms(2) [of G] by simp
qed (auto simp: causal_result_def)

lemma causal_result_const [causal_intros]:
  assumes "\<And>y. causal_result (\<lambda>xs. K xs y)"
  shows "causal_result (\<lambda>xs. bindr r (K xs))"
  using assms by (cases r) (auto simp: causal_result_def)

lemma causal_result_comp:
  assumes "causal_result F" "causal G"
  shows "causal_result (\<lambda>xs. F (G xs))"
  using assms(1) unfolding causal_result_def [of F]
proof (elim disjE exE conjE)
  fix H assume "causal H" "\<forall>xs. F xs = Inr (H xs)"
  then show ?thesis
    using causal_comp [OF assms(2), of H] by (auto simp: causal_result_def)
qed (auto simp: causal_result_def)

lemma window_take: "i < m \<Longrightarrow> n \<le> i + 1 \<Longrightarrow> window (take m xs) n i = window xs n i"
proof -
  assume "i < m" "n \<le> i + 1"
  then have "min n (m - (i + 1 - n)) = n" by simp
  then show ?thesis by (simp add: window_def drop_take)
qed

lemma sma_at_take: "i < m \<Longrightarrow> sma_at (take m xs) n i = sma_at xs n i"
  by (cases "i + 1 < n") (simp_all add: sma_at_def window_take)

lemma nth_index_map: "i < n \<Longrightarrow> map f [0..<n] ! i = f i"
  by simp

lemma causal_sma: "causal_result (\<lambda>xs. sma xs n)"
  unfolding sma_def sma_series_def
  by (intro causal_intros causal_index_map) (simp add: sma_at_take)

lemma average_loop_length: "length (average_loop a vs ss p) = min (length vs) (length ss)"
  by (induction a vs ss p rule: average_loop.induct) (simp_all add: Let_def)

lemma average_loop_take:
  "average_loop a (take n vs) (take n ss) p = take n (average_loop a vs ss p)"
proof (induction a vs ss p arbitrary: n rule: average_loop.induct)
  case (1 alpha v vs s seeds previous)
  then show ?case by (cases n) (simp_all add: Let_def)
qed (auto simp: take_Nil split: list.splits)

lemma causal_recursive_average: "causal_result (\<lambda>xs. recursive_average xs n a)"
  unfolding recursive_average_def
proof (intro causal_result_bind causal_sma)
  fix G :: "series \<Rightarrow> series" assume G: "causal G"
  have "causal (\<lambda>xs. average_loop a xs (G xs) None)"
    using G by (simp add: causal_def average_loop_length average_loop_take [symmetric])
  then show "causal_result (\<lambda>xs. Inr (average_loop a xs (G xs) None))"
    by (rule causal_result_Inr)
qed

lemma causal_rma: "causal_result (\<lambda>xs. rma xs n)"
  unfolding rma_def by (intro causal_result_const causal_recursive_average)

lemma causal_ema: "causal_result (\<lambda>xs. ema xs n)"
  unfolding ema_def by (intro causal_result_const causal_recursive_average)

lemma wma_loop_take:
  "i < m \<Longrightarrow> i < length xs \<Longrightarrow> wma_loop (take m xs) n i ks a b = wma_loop xs n i ks a b"
  by (induction xs n i ks a b rule: wma_loop.induct) (auto simp: Let_def split: option.split)

lemma causal_wma: "causal_result (\<lambda>xs. wma xs n)"
  unfolding wma_def wma_series_def
  by (intro causal_intros causal_index_map) (simp add: wma_at_def wma_loop_take)

lemma causal_double_minus_full:
  "causal F \<Longrightarrow> causal G \<Longrightarrow> causal (\<lambda>xs. double_minus_full (F xs) (G xs))"
  by (rule causalI) (simp_all add: double_minus_full_def causal_length nth_index_map causal_nth
      cong: option.case_cong del: nth_map)

lemma causal_triple:
  "causal F \<Longrightarrow> causal G \<Longrightarrow> causal H \<Longrightarrow> causal (\<lambda>xs. triple (F xs) (G xs) (H xs) (length xs))"
  by (rule causalI) (simp_all add: triple_def causal_length nth_index_map causal_nth
      cong: option.case_cong del: nth_map)

lemma causal_hma: "causal_result (\<lambda>xs. hma xs n)"
  unfolding hma_def
  by (intro causal_result_const causal_result_bind causal_wma
      causal_result_comp [OF causal_wma causal_double_minus_full])

lemma causal_ehma: "causal_result (\<lambda>xs. ehma xs n)"
  unfolding ehma_def
  by (intro causal_result_const causal_result_bind causal_ema
      causal_result_comp [OF causal_ema causal_double_minus_full])

lemma causal_thma: "causal_result (\<lambda>xs. thma xs n)"
  unfolding thma_def
  by (intro causal_result_bind causal_wma causal_result_comp [OF causal_wma causal_triple])

lemma causal_true_range:
  fixes H L C :: "'a list \<Rightarrow> pyfloat list"
  shows "causal H \<Longrightarrow> causal L \<Longrightarrow> causal C \<Longrightarrow> causal (\<lambda>xs. true_range (H xs) (L xs) (C xs))"
proof (rule causalI)
  fix xs :: "'a list" and n i assume "causal H" "causal L" "causal C" "i < n" "i < length xs"
  moreover from this have "i - 1 < n" "i - 1 < length xs" by simp_all
  ultimately show "true_range (H (take n xs)) (L (take n xs)) (C (take n xs)) ! i =
      true_range (H xs) (L xs) (C xs) ! i"
    by (simp add: true_range_def true_range_at_def causal_length causal_nth del: upt_Suc)
      (cases i; simp add: causal_nth)
qed (simp add: true_range_def causal_length)

lemma causal_atr:
  "causal H \<Longrightarrow> causal L \<Longrightarrow> causal C \<Longrightarrow> causal_result (\<lambda>xs. atr (H xs) (L xs) (C xs) n)"
  unfolding atr_def by (intro causal_result_comp [OF causal_rma] causal_map causal_true_range)

lemma causal_lowest: "causal_result (\<lambda>xs. lowest xs n)"
  unfolding lowest_def by (intro causal_intros causal_index_map) (auto simp: window_take)

lemma causal_highest: "causal_result (\<lambda>xs. highest xs n)"
  unfolding highest_def by (intro causal_intros causal_index_map) (auto simp: window_take)

lemma causal_cross: "causal F \<Longrightarrow> causal G \<Longrightarrow> causal (\<lambda>xs. cross (F xs) (G xs) up)"
  by (rule causalI) (simp_all add: cross_def cross_at_def causal_length nth_index_map causal_nth
      cong: option.case_cong del: nth_map)

end
