(* ===== verification/Ut_Signals.thy ===== *)
theory Ut_Signals
  imports Ut_Config Domain_Market Ut_Indicators
begin

text \<open>
  \<open>strategies/ut_bot/signals.py\<close> with \<open>domain/numeric.py\<close>: the trailing stop, the Hull colours and
  the signal of every closed bar. The first part is the code, the rest shows that the
  signals look at closed bars only, what a signal says of the series it was computed from, and
  when buys and sells alternate.
\<close>

definition to_order_decimal :: "pyfloat \<Rightarrow> dec result" where
  "to_order_decimal x =
     (if is_nan x \<or> feq x (FInf False) \<or> feq x (FInf True) then Inl (ValueError ''value must be finite'')
      else quantize (- ORDER_NUMERIC_SCALE) (dec_of_float x))"

text \<open>One turn of \<open>_trailing_stop\<close> for a bar whose \<open>nLoss\<close> is known.\<close>

definition trailing_value :: "pyfloat \<Rightarrow> pyfloat \<Rightarrow> pyfloat option \<Rightarrow> pyfloat \<Rightarrow> pyfloat" where
  "trailing_value close loss previous_close base =
     (if close > base \<and> (\<exists>p \<in> set_option previous_close. p > base) then pymax base (close - loss)
      else if close < base \<and> (\<exists>p \<in> set_option previous_close. p < base) then pymin base (close + loss)
      else if close > base then close - loss
      else close + loss)"

text \<open>The loop: \<open>previous_close\<close> is \<open>closes[index - 1]\<close>, \<open>previous\<close> the stop of the previous bar.\<close>

fun trailing_loop :: "pyfloat list \<Rightarrow> series \<Rightarrow> pyfloat option \<Rightarrow> pyfloat option \<Rightarrow> series" where
  "trailing_loop (close # closes) (loss # losses) previous_close previous =
     (let base = (case previous of None \<Rightarrow> 0 | Some p \<Rightarrow> p);
          current = map_option (\<lambda>l. trailing_value close l previous_close base) loss
      in current # trailing_loop closes losses (Some close) current)"
| "trailing_loop _ _ _ _ = []"

definition trailing_stop :: "pyfloat list \<Rightarrow> series \<Rightarrow> series" where
  "trailing_stop closes nloss = trailing_loop closes nloss None None"

definition hull_band :: "pyfloat list \<Rightarrow> ut_config \<Rightarrow> series result" where
  "hull_band closes config =
     (let n = hull_length_effective config; values = map Some closes
      in case uc_hull_mode config of
           HMA \<Rightarrow> hma values n
         | EHMA \<Rightarrow> ehma values n
         | THMA \<Rightarrow> thma values (pymax (n div 2) 1))"

definition hull_color_at :: "series \<Rightarrow> nat \<Rightarrow> bool option" where
  "hull_color_at h i =
     (case (h ! i, if 2 \<le> i then h ! (i - 2) else None) of
        (Some current, Some earlier) \<Rightarrow> Some (current > earlier)
      | _ \<Rightarrow> None)"

definition hull_colors :: "series \<Rightarrow> bool option list" where
  "hull_colors h = map (hull_color_at h) [0..<length h]"

definition optional_decimal :: "pyfloat option \<Rightarrow> dec option result" where
  "optional_decimal v =
     (case v of None \<Rightarrow> Inr None | Some x \<Rightarrow> bindr (to_order_decimal x) (\<lambda>d. Inr (Some d)))"

text \<open>The snapshot of one bar, from the series of all bars.\<close>

record signal_series =
  sg_trailing :: series
  sg_buys :: "bool list"
  sg_sells :: "bool list"
  sg_colors :: "bool option list"
  sg_stop_lows :: series
  sg_stop_highs :: series

definition signal_at :: "bar list \<Rightarrow> signal_series \<Rightarrow> nat \<Rightarrow> bar_signal result" where
  "signal_at bars g i =
     (let previous_color = (if 0 < i then sg_colors g ! (i - 1) else None);
          color = sg_colors g ! i
      in bindr (optional_decimal (sg_trailing g ! i)) (\<lambda>stop.
         bindr (optional_decimal (sg_stop_lows g ! i)) (\<lambda>low.
         bindr (optional_decimal (sg_stop_highs g ! i)) (\<lambda>high.
         Inr \<lparr>bs_index = int i, bs_open_time = ba_open_time (bars ! i),
              bs_buy = sg_buys g ! i, bs_sell = sg_sells g ! i, bs_hull_green = color,
              bs_hull_flip_down = (color = Some False \<and> previous_color = Some True),
              bs_hull_flip_up = (color = Some True \<and> previous_color = Some False),
              bs_trailing_stop = stop, bs_stop_low = low, bs_stop_high = high\<rparr>))))"

definition closes_of :: "bar list \<Rightarrow> pyfloat list" where
  "closes_of bars = map (\<lambda>b. float_of_dec (ba_close b)) bars"

definition highs_of :: "bar list \<Rightarrow> pyfloat list" where
  "highs_of bars = map (\<lambda>b. float_of_dec (ba_high b)) bars"

definition lows_of :: "bar list \<Rightarrow> pyfloat list" where
  "lows_of bars = map (\<lambda>b. float_of_dec (ba_low b)) bars"

definition nloss_of :: "ut_config \<Rightarrow> series \<Rightarrow> series" where
  "nloss_of config average_range = map (map_option (\<lambda>v. float_of_dec (uc_ut_key config) * v)) average_range"

text \<open>The series of all bars.\<close>

definition signal_inputs :: "ut_config \<Rightarrow> bar list \<Rightarrow> signal_series result" where
  "signal_inputs config bars =
     bindr (atr (highs_of bars) (lows_of bars) (closes_of bars) (uc_ut_atr config)) (\<lambda>average_range.
     let trailing = trailing_stop (closes_of bars) (nloss_of config average_range)
     in bindr (hull_band (closes_of bars) config) (\<lambda>h.
        bindr (lowest (lows_of bars) (uc_sl_len config)) (\<lambda>stop_lows.
        bindr (highest (highs_of bars) (uc_sl_len config)) (\<lambda>stop_highs.
        Inr \<lparr>sg_trailing = trailing, sg_buys = crossover (map Some (closes_of bars)) trailing,
             sg_sells = crossunder (map Some (closes_of bars)) trailing, sg_colors = hull_colors h,
             sg_stop_lows = stop_lows, sg_stop_highs = stop_highs\<rparr>))))"

definition compute_signals :: "bar list \<Rightarrow> ut_config \<Rightarrow> bar_signal list result" where
  "compute_signals bars config =
     (if bars = [] then Inr []
      else bindr (signal_inputs config bars) (\<lambda>g. mapr (signal_at bars g) [0..<length bars]))"


section \<open>Looking back only\<close>

lemma causal_result_take:
  "causal_result F \<Longrightarrow> F xs = Inr ys \<Longrightarrow> F (take n xs) = Inr (take n ys) \<and> length ys = length xs"
  by (auto simp: causal_result_def causal_def)

lemma causal_prices: "causal closes_of" "causal highs_of" "causal lows_of"
  by (simp_all add: causal_def closes_of_def highs_of_def lows_of_def take_map)

lemma causal_hull: "causal_result (\<lambda>bars. hull_band (closes_of bars) config)"
proof -
  have c: "causal (\<lambda>bars. map Some (closes_of bars))"
    by (intro causal_map causal_prices)
  show ?thesis unfolding hull_band_def Let_def
    by (cases "uc_hull_mode config")
      (simp_all add: causal_result_comp [OF causal_hma c] causal_result_comp [OF causal_ehma c]
        causal_result_comp [OF causal_thma c])
qed

lemma trailing_loop_length: "length (trailing_loop cs ls p q) = min (length cs) (length ls)"
  by (induction cs ls p q rule: trailing_loop.induct) (simp_all add: Let_def)

lemma trailing_loop_take:
  "trailing_loop (take n cs) (take n ls) p q = take n (trailing_loop cs ls p q)"
proof (induction cs ls p q arbitrary: n rule: trailing_loop.induct)
  case (1 close closes loss losses previous_close previous)
  then show ?case by (cases n) (simp_all add: Let_def)
qed (auto simp: take_Nil split: list.splits)

lemma trailing_stop_take:
  "trailing_stop (take n cs) (take n ls) = take n (trailing_stop cs ls)"
  by (simp add: trailing_stop_def trailing_loop_take)

lemma nloss_take: "nloss_of c (take n r) = take n (nloss_of c r)"
  by (simp add: nloss_of_def take_map)

lemma cross_take:
  assumes "length l = length r"
  shows "cross (take n l) (take n r) up = take n (cross l r up)"
proof -
  have "causal (\<lambda>xs. cross (map fst xs) (map snd xs) up)"
    by (intro causal_cross causal_map causal_id)
  then have "cross (map fst (take n (zip l r))) (map snd (take n (zip l r))) up =
      take n (cross (map fst (zip l r)) (map snd (zip l r)) up)" by (simp add: causal_def)
  then show ?thesis using assms by (simp add: take_map [symmetric])
qed

lemma hull_colors_take: "hull_colors (take n h) = take n (hull_colors h)"
  by (rule nth_equalityI) (auto simp: hull_colors_def hull_color_at_def cong: option.case_cong)

definition cut_series :: "nat \<Rightarrow> signal_series \<Rightarrow> signal_series" where
  "cut_series n g =
     \<lparr>sg_trailing = take n (sg_trailing g), sg_buys = take n (sg_buys g), sg_sells = take n (sg_sells g),
      sg_colors = take n (sg_colors g), sg_stop_lows = take n (sg_stop_lows g),
      sg_stop_highs = take n (sg_stop_highs g)\<rparr>"

text \<open>What the series are.\<close>

lemma signal_inputs_parts:
  assumes "signal_inputs c bars = Inr g"
  obtains r h where
    "atr (highs_of bars) (lows_of bars) (closes_of bars) (uc_ut_atr c) = Inr r" "length r = length bars"
    "hull_band (closes_of bars) c = Inr h" "length h = length bars"
    "lowest (lows_of bars) (uc_sl_len c) = Inr (sg_stop_lows g)" "length (sg_stop_lows g) = length bars"
    "highest (highs_of bars) (uc_sl_len c) = Inr (sg_stop_highs g)" "length (sg_stop_highs g) = length bars"
    "sg_trailing g = trailing_stop (closes_of bars) (nloss_of c r)" "length (sg_trailing g) = length bars"
    "sg_buys g = crossover (map Some (closes_of bars)) (sg_trailing g)"
    "sg_sells g = crossunder (map Some (closes_of bars)) (sg_trailing g)"
    "sg_colors g = hull_colors h"
proof -
  from assms obtain r h where p:
    "atr (highs_of bars) (lows_of bars) (closes_of bars) (uc_ut_atr c) = Inr r"
    "hull_band (closes_of bars) c = Inr h"
    "lowest (lows_of bars) (uc_sl_len c) = Inr (sg_stop_lows g)"
    "highest (highs_of bars) (uc_sl_len c) = Inr (sg_stop_highs g)"
    "sg_trailing g = trailing_stop (closes_of bars) (nloss_of c r)"
    "sg_buys g = crossover (map Some (closes_of bars)) (sg_trailing g)"
    "sg_sells g = crossunder (map Some (closes_of bars)) (sg_trailing g)"
    "sg_colors g = hull_colors h"
    by (auto simp: signal_inputs_def bindr_Inr_iff Let_def)
  have "length r = length bars"
    using causal_result_take [OF causal_atr [OF causal_prices(2,3,1)] p(1)] by simp
  moreover have "length h = length bars" using causal_result_take [OF causal_hull p(2)] by simp
  moreover have "length (sg_stop_lows g) = length bars"
    using causal_result_take [OF causal_lowest p(3)] by (simp add: lows_of_def)
  moreover have "length (sg_stop_highs g) = length bars"
    using causal_result_take [OF causal_highest p(4)] by (simp add: highs_of_def)
  moreover have "length (sg_trailing g) = length bars"
    using p(5) \<open>length r = length bars\<close>
    by (simp add: trailing_stop_def trailing_loop_length closes_of_def nloss_of_def)
  ultimately show thesis using p that by blast
qed

lemma prices_take:
  "closes_of (take n bars) = take n (closes_of bars)" "highs_of (take n bars) = take n (highs_of bars)"
  "lows_of (take n bars) = take n (lows_of bars)"
  using causal_prices by (auto simp: causal_def)

lemma signal_inputs_take:
  assumes "signal_inputs c bars = Inr g"
  shows "signal_inputs c (take n bars) = Inr (cut_series n g)"
  using assms
proof (rule signal_inputs_parts)
  fix r h assume p:
    "atr (highs_of bars) (lows_of bars) (closes_of bars) (uc_ut_atr c) = Inr r" "length r = length bars"
    "hull_band (closes_of bars) c = Inr h" "length h = length bars"
    "lowest (lows_of bars) (uc_sl_len c) = Inr (sg_stop_lows g)" "length (sg_stop_lows g) = length bars"
    "highest (highs_of bars) (uc_sl_len c) = Inr (sg_stop_highs g)" "length (sg_stop_highs g) = length bars"
    "sg_trailing g = trailing_stop (closes_of bars) (nloss_of c r)" "length (sg_trailing g) = length bars"
    "sg_buys g = crossover (map Some (closes_of bars)) (sg_trailing g)"
    "sg_sells g = crossunder (map Some (closes_of bars)) (sg_trailing g)"
    "sg_colors g = hull_colors h"
  have len: "length (map Some (closes_of bars)) = length (sg_trailing g)"
    using p(10) by (simp add: closes_of_def)
  show ?thesis
    using causal_result_take [OF causal_atr [OF causal_prices(2,3,1)] p(1), of n]
      causal_result_take [OF causal_hull p(3), of n]
      causal_result_take [OF causal_lowest p(5), of n] causal_result_take [OF causal_highest p(7), of n]
      p(9,11-13) len
    by (simp add: signal_inputs_def cut_series_def Let_def prices_take nloss_take trailing_stop_take
        hull_colors_take crossover_def crossunder_def cross_take take_map [symmetric])
qed

lemma signal_at_cut:
  assumes "i < n" "i < length bars"
  shows "signal_at (take n bars) (cut_series n g) i = signal_at bars g i"
  using assms by (simp add: signal_at_def cut_series_def)

lemma compute_signals_Inr:
  assumes "compute_signals bars c = Inr sigs" "bars \<noteq> []"
  obtains g where "signal_inputs c bars = Inr g" "length sigs = length bars"
    "\<And>i. i < length bars \<Longrightarrow> signal_at bars g i = Inr (sigs ! i)"
proof -
  from assms obtain g where g: "signal_inputs c bars = Inr g"
    and m: "mapr (signal_at bars g) [0..<length bars] = Inr sigs"
    by (auto simp: compute_signals_def bindr_Inr_iff)
  from mapr_length [OF m] mapr_nth [OF m] show thesis by (intro that [OF g]) simp_all
qed

lemma compute_signals_take:
  assumes "compute_signals bars c = Inr sigs"
  shows "compute_signals (take n bars) c = Inr (take n sigs)"
proof (cases "take n bars = []")
  case True
  then have "n = 0 \<or> bars = []" by auto
  then show ?thesis using assms by (auto simp: compute_signals_def)
next
  case False
  then obtain g where g: "signal_inputs c bars = Inr g"
    and m: "mapr (signal_at bars g) [0..<length bars] = Inr sigs"
    using assms by (auto simp: compute_signals_def bindr_Inr_iff)
  have up: "take n [0..<length bars] = [0..<min (length bars) n]"
    by (cases "n \<le> length bars") simp_all
  have "mapr (signal_at (take n bars) (cut_series n g)) [0..<min (length bars) n] =
      mapr (signal_at bars g) [0..<min (length bars) n]"
    by (intro mapr_cong signal_at_cut) simp_all
  with mapr_take [OF m, of n] up show ?thesis
    using False signal_inputs_take [OF g, of n] by (simp add: compute_signals_def)
qed


section \<open>What a signal says\<close>

lemma fround_not_nan: "fround s m e \<noteq> FNan"
  by (simp add: fround_def Let_def split: prod.split)

lemma float_of_dec_not_nan: "float_of_dec d \<noteq> FNan"
  by (simp add: float_of_dec_def fround_ratio_def Let_def fround_not_nan)

lemma prices_not_nan: "FNan \<notin> set (closes_of bars)" "FNan \<notin> set (highs_of bars)" "FNan \<notin> set (lows_of bars)"
  using float_of_dec_not_nan by (auto simp: closes_of_def highs_of_def lows_of_def) metis+

lemma to_order_decimal_nan [simp]: "to_order_decimal FNan = Inl (ValueError ''value must be finite'')"
  by (simp add: to_order_decimal_def is_nan_iff)

lemma optional_decimal_Inr: "optional_decimal v = Inr d \<longleftrightarrow>
    (case v of None \<Rightarrow> d = None | Some x \<Rightarrow> \<exists>y. to_order_decimal x = Inr y \<and> d = Some y)"
  by (auto simp: optional_decimal_def bindr_Inr_iff split: option.split)

lemma signal_at_fields:
  assumes "signal_at bars g i = Inr s"
  shows "bs_index s = int i" "bs_open_time s = ba_open_time (bars ! i)"
    "bs_buy s = sg_buys g ! i" "bs_sell s = sg_sells g ! i" "bs_hull_green s = sg_colors g ! i"
    "bs_hull_flip_down s \<longleftrightarrow> 0 < i \<and> sg_colors g ! i = Some False \<and> sg_colors g ! (i - 1) = Some True"
    "bs_hull_flip_up s \<longleftrightarrow> 0 < i \<and> sg_colors g ! i = Some True \<and> sg_colors g ! (i - 1) = Some False"
    "optional_decimal (sg_trailing g ! i) = Inr (bs_trailing_stop s)"
    "optional_decimal (sg_stop_lows g ! i) = Inr (bs_stop_low s)"
    "optional_decimal (sg_stop_highs g ! i) = Inr (bs_stop_high s)"
  using assms by (auto simp: signal_at_def bindr_Inr_iff Let_def split: if_splits)

lemma cross_nth:
  "i < length l \<Longrightarrow> crossover l r ! i = cross_at l r True i" "i < length l \<Longrightarrow> crossunder l r ! i = cross_at l r False i"
  by (simp_all add: crossover_def crossunder_def cross_def)

lemma cross_at_up:
  "cross_at l r True i \<longleftrightarrow> (\<exists>a b a' b'. 0 < i \<and> l ! i = Some a \<and> r ! i = Some b \<and>
     l ! (i - 1) = Some a' \<and> r ! (i - 1) = Some b' \<and> b < a \<and> a' \<le> b')"
  by (auto simp: cross_at_def split: option.split)

lemma cross_at_down:
  "cross_at l r False i \<longleftrightarrow> (\<exists>a b a' b'. 0 < i \<and> l ! i = Some a \<and> r ! i = Some b \<and>
     l ! (i - 1) = Some a' \<and> r ! (i - 1) = Some b' \<and> a < b \<and> b' \<le> a')"
  by (auto simp: cross_at_def split: option.split)

text \<open>The window of an extreme ends at the bar and is as long as asked for.\<close>

lemma window_subset: "set (window xs n i) \<subseteq> set xs"
  unfolding window_def by (meson set_drop_subset set_take_subset subset_trans)

lemma window_nonempty: "0 < n \<Longrightarrow> n \<le> i + 1 \<Longrightarrow> i < length xs \<Longrightarrow> window xs n i \<noteq> []"
  by (simp add: window_def)

lemma lowest_nth:
  assumes "lowest xs n = Inr ys" "i < length xs" "FNan \<notin> set xs"
  shows "(int i + 1 < n \<longrightarrow> ys ! i = None) \<and> (n \<le> int i + 1 \<longrightarrow>
    (\<exists>x. ys ! i = Some x \<and> x \<in> set (window xs (nat n) i) \<and> (\<forall>y \<in> set (window xs (nat n) i). x \<le> y)))"
proof -
  from assms(1) have n: "0 < n"
    and ys: "ys = map (\<lambda>i. if i + 1 < nat n then None else Some (pymin_list (window xs (nat n) i))) [0..<length xs]"
    by (auto simp: lowest_def bindr_Inr_iff positive_length_check_def)
  show ?thesis
  proof (cases "int i + 1 < n")
    case True
    then show ?thesis using n ys assms(2) by (simp add: nth_index_map)
  next
    case False
    let ?w = "window xs (nat n) i"
    have w: "?w \<noteq> []" using window_nonempty [of "nat n" i xs] n False assms(2) by simp
    have nan: "FNan \<notin> set ?w" using window_subset [of xs "nat n" i] assms(3) by blast
    have "ys ! i = Some (pymin_list ?w)" using n ys assms(2) False by (simp add: nth_index_map)
    then show ?thesis using False pymin_list_in [OF w] pymin_list_least [OF w nan] by auto
  qed
qed

lemma highest_nth:
  assumes "highest xs n = Inr ys" "i < length xs" "FNan \<notin> set xs"
  shows "(int i + 1 < n \<longrightarrow> ys ! i = None) \<and> (n \<le> int i + 1 \<longrightarrow>
    (\<exists>x. ys ! i = Some x \<and> x \<in> set (window xs (nat n) i) \<and> (\<forall>y \<in> set (window xs (nat n) i). y \<le> x)))"
proof -
  from assms(1) have n: "0 < n"
    and ys: "ys = map (\<lambda>i. if i + 1 < nat n then None else Some (pymax_list (window xs (nat n) i))) [0..<length xs]"
    by (auto simp: highest_def bindr_Inr_iff positive_length_check_def)
  show ?thesis
  proof (cases "int i + 1 < n")
    case True
    then show ?thesis using n ys assms(2) by (simp add: nth_index_map)
  next
    case False
    let ?w = "window xs (nat n) i"
    have w: "?w \<noteq> []" using window_nonempty [of "nat n" i xs] n False assms(2) by simp
    have nan: "FNan \<notin> set ?w" using window_subset [of xs "nat n" i] assms(3) by blast
    have "ys ! i = Some (pymax_list ?w)" using n ys assms(2) False by (simp add: nth_index_map)
    then show ?thesis using False pymax_list_in [OF w] pymax_list_greatest [OF w nan] by auto
  qed
qed


section \<open>Alternation\<close>

text \<open>Once defined, a recursive average of a series without gaps stays defined.\<close>

lemma average_loop_None_all:
  assumes "\<forall>v \<in> set vs. v \<noteq> None" "p \<noteq> None" "i < length (average_loop a vs ss p)"
  shows "average_loop a vs ss p ! i \<noteq> None"
  using assms
proof (induction a vs ss p arbitrary: i rule: average_loop.induct)
  case (1 alpha v vs s seeds previous)
  then show ?case by (cases i) (auto simp: Let_def)
qed auto

lemma average_loop_persists:
  assumes "\<forall>v \<in> set vs. v \<noteq> None" "Suc i < length (average_loop a vs ss p)"
    and "average_loop a vs ss p ! i \<noteq> None"
  shows "average_loop a vs ss p ! Suc i \<noteq> None"
  using assms
proof (induction a vs ss p arbitrary: i rule: average_loop.induct)
  case (1 alpha v vs s seeds previous)
  define cur where "cur = (case previous of None \<Rightarrow> s
    | Some p \<Rightarrow> (case v of None \<Rightarrow> None | Some x \<Rightarrow> Some (alpha * x + (1 - alpha) * p)))"
  have eq: "average_loop alpha (v # vs) (s # seeds) previous = cur # average_loop alpha vs seeds cur"
    by (simp add: cur_def Let_def)
  show ?case
  proof (cases i)
    case 0
    then show ?thesis
      using 1(3-4) average_loop_None_all [of vs cur 0 alpha seeds] 1(2) unfolding eq by auto
  next
    case (Suc k)
    then show ?thesis using 1(1) [OF cur_def, of k] 1(2-4) unfolding eq by simp
  qed
qed auto

lemma atr_persists:
  assumes "atr hs ls cs n = Inr r" "Suc i < length r" "r ! i \<noteq> None"
  shows "r ! Suc i \<noteq> None"
proof -
  from assms(1) obtain a ss where "r = average_loop a (map Some (true_range hs ls cs)) ss None"
    by (auto simp: atr_def rma_def recursive_average_def bindr_Inr_iff)
  then show ?thesis
    using assms(2,3) average_loop_persists [of "map Some (true_range hs ls cs)" i a ss None] by auto
qed

lemma trailing_loop_None:
  "i < length cs \<Longrightarrow> i < length ls \<Longrightarrow> trailing_loop cs ls p q ! i = None \<longleftrightarrow> ls ! i = None"
proof (induction cs ls p q arbitrary: i rule: trailing_loop.induct)
  case (1 close closes loss losses previous_close previous)
  then show ?case by (cases i) (simp_all add: Let_def)
qed auto


text \<open>The series of trailing stops that \<open>compute_signals\<close> works with.\<close>

definition trailing_series :: "ut_config \<Rightarrow> bar list \<Rightarrow> series result" where
  "trailing_series config bars =
     bindr (atr (highs_of bars) (lows_of bars) (closes_of bars) (uc_ut_atr config)) (\<lambda>average_range.
     Inr (trailing_stop (closes_of bars) (nloss_of config average_range)))"

lemma trailing_series_persists:
  assumes "trailing_series c bars = Inr ts" "Suc i < length bars" "ts ! i \<noteq> None"
  shows "ts ! Suc i \<noteq> None"
proof -
  from assms(1) obtain r where r: "atr (highs_of bars) (lows_of bars) (closes_of bars) (uc_ut_atr c) = Inr r"
    and ts: "ts = trailing_stop (closes_of bars) (nloss_of c r)"
    by (auto simp: trailing_series_def bindr_Inr_iff)
  have len: "length r = length bars"
    using causal_result_take [OF causal_atr [OF causal_prices(2,3,1)] r] by simp
  have "ts ! k = None \<longleftrightarrow> r ! k = None" if "k < length bars" for k
    using that len by (simp add: ts trailing_stop_def trailing_loop_None closes_of_def nloss_of_def)
  then show ?thesis using assms(2,3) atr_persists [OF r, of i] len by simp
qed

lemma trailing_loop_Suc:
  "Suc i < length cs \<Longrightarrow> Suc i < length ls \<Longrightarrow>
   trailing_loop cs ls p q ! Suc i =
     map_option (\<lambda>l. trailing_value (cs ! Suc i) l (Some (cs ! i))
        (case trailing_loop cs ls p q ! i of None \<Rightarrow> 0 | Some b \<Rightarrow> b)) (ls ! Suc i)"
proof (induction cs ls p q arbitrary: i rule: trailing_loop.induct)
  case (1 close closes loss losses previous_close previous)
  show ?case
  proof (cases i)
    case 0
    then show ?thesis using 1(2,3) by (cases closes; cases losses) (simp_all add: Let_def)
  next
    case (Suc k)
    then show ?thesis using 1 by (simp add: Let_def)
  qed
qed auto

lemma trailing_value_sides:
  assumes "base \<noteq> FNan"
  shows "base < close \<Longrightarrow> base < p \<Longrightarrow> base \<le> trailing_value close loss (Some p) base"
    and "close < base \<Longrightarrow> p < base \<Longrightarrow> trailing_value close loss (Some p) base \<le> base"
    and "base < close \<Longrightarrow> \<not> base < p \<Longrightarrow> trailing_value close loss (Some p) base = close - loss"
    and "\<not> base < close \<Longrightarrow> \<not> (close < base \<and> p < base) \<Longrightarrow>
      trailing_value close loss (Some p) base = close + loss"
  using assms fless_not_le by (auto simp: trailing_value_def pymax_def pymin_def fle_key fless_key)

text \<open>Without a downward cross the price stays above the stop, unless it meets it.\<close>

definition meets :: "bar list \<Rightarrow> series \<Rightarrow> nat \<Rightarrow> bool" where
  "meets bars ts k \<longleftrightarrow> (\<exists>t. ts ! k = Some t \<and> feq (closes_of bars ! k) t)"

lemma above_stays:
  assumes ts: "trailing_series c bars = Inr ts" "\<forall>t. Some t \<in> set ts \<longrightarrow> t \<noteq> FNan" "length ts = length bars"
    and quiet: "\<And>k. i < k \<Longrightarrow> k \<le> m \<Longrightarrow>
      \<not> cross_at (map Some (closes_of bars)) ts False k \<and> \<not> meets bars ts k"
    and "i \<le> m" "m < length bars" "ts ! i = Some t" "t < closes_of bars ! i"
  shows "\<exists>t. ts ! m = Some t \<and> t < closes_of bars ! m"
  using \<open>i \<le> m\<close> \<open>m < length bars\<close> quiet
proof (induction m rule: dec_induct)
  case base
  then show ?case using assms(7,8) by simp
next
  case (step m)
  then obtain u where u: "ts ! m = Some u" "u < closes_of bars ! m" by auto
  obtain v where v: "ts ! Suc m = Some v"
    using trailing_series_persists [OF ts(1) step.prems(1)] u(1) by auto
  have "v \<noteq> FNan" using v ts(2,3) step.prems(1) by (metis nth_mem)
  moreover have "closes_of bars ! Suc m \<noteq> FNan"
    using step.prems(1) float_of_dec_not_nan by (simp add: closes_of_def)
  moreover have "\<not> closes_of bars ! Suc m < v"
    using step.prems(2) [of "Suc m"] step.hyps step.prems(1) u v fless_not_le(3)
    by (auto simp: cross_at_down closes_of_def)
  moreover have "\<not> feq (closes_of bars ! Suc m) v"
    using step.prems(2) [of "Suc m"] step.hyps v by (auto simp: meets_def)
  ultimately show ?case using v fnot_less by (auto simp: feq_def)
qed

lemma below_stays:
  assumes ts: "trailing_series c bars = Inr ts" "\<forall>t. Some t \<in> set ts \<longrightarrow> t \<noteq> FNan" "length ts = length bars"
    and quiet: "\<And>k. i < k \<Longrightarrow> k \<le> m \<Longrightarrow>
      \<not> cross_at (map Some (closes_of bars)) ts True k \<and> \<not> meets bars ts k"
    and "i \<le> m" "m < length bars" "ts ! i = Some t" "closes_of bars ! i < t"
  shows "\<exists>t. ts ! m = Some t \<and> closes_of bars ! m < t"
  using \<open>i \<le> m\<close> \<open>m < length bars\<close> quiet
proof (induction m rule: dec_induct)
  case base
  then show ?case using assms(7,8) by simp
next
  case (step m)
  then obtain u where u: "ts ! m = Some u" "closes_of bars ! m < u" by auto
  obtain v where v: "ts ! Suc m = Some v"
    using trailing_series_persists [OF ts(1) step.prems(1)] u(1) by auto
  have "v \<noteq> FNan" using v ts(2,3) step.prems(1) by (metis nth_mem)
  moreover have "closes_of bars ! Suc m \<noteq> FNan"
    using step.prems(1) float_of_dec_not_nan by (simp add: closes_of_def)
  moreover have "\<not> v < closes_of bars ! Suc m"
    using step.prems(2) [of "Suc m"] step.hyps step.prems(1) u v fless_not_le(3)
    by (auto simp: cross_at_up closes_of_def)
  moreover have "\<not> feq (closes_of bars ! Suc m) v"
    using step.prems(2) [of "Suc m"] step.hyps v by (auto simp: meets_def)
  ultimately show ?case using v fnot_less by (auto simp: feq_def)
qed


section \<open>A run\<close>

definition quick_config :: ut_config where
  "quick_config = default_ut_config\<lparr>uc_ut_key := Dec 1 (- 1), uc_ut_atr := 1, uc_sl_len := 2,
     uc_hull_len := 1, uc_hull_mult := dint 1\<rparr>"

definition point_bar :: "int \<Rightarrow> int \<Rightarrow> bar" where
  "point_bar t p = \<lparr>ba_symbol = ''XAUUSD'', ba_timeframe = ''H1'', ba_open_time = Aware t 0,
     ba_open = dint p, ba_high = dint p, ba_low = dint p, ba_close = dint p, ba_tick_volume = 1,
     ba_spread = 0\<rparr>"

definition zigzag :: "bar list" where
  "zigzag = [point_bar 0 100, point_bar 1 90, point_bar 2 110, point_bar 3 90, point_bar 4 110]"

definition zigzag_series :: signal_series where
  "zigzag_series =
     \<lparr>sg_trailing =
        [Some (FBin 7036874417766400 (- 46)), Some (FBin 6403555720167424 (- 46)),
         Some (FBin 7599824371187712 (- 46)), Some (FBin 6473924464345088 (- 46)),
         Some (FBin 7599824371187712 (- 46))],
      sg_buys = [False, False, True, False, True], sg_sells = [False, True, False, True, False],
      sg_colors = [None, None, Some True, Some False, Some False],
      sg_stop_lows = None # replicate 4 (Some (FBin 6333186975989760 (- 46))),
      sg_stop_highs = None # Some (FBin 7036874417766400 (- 46)) #
        replicate 3 (Some (FBin 7740561859543040 (- 46)))\<rparr>"

definition point :: "int \<Rightarrow> dec" where
  "point p = Dec (p * 10 ^ 10) (- 10)"

definition zigzag_signal ::
  "int \<Rightarrow> bool \<Rightarrow> bool \<Rightarrow> bool option \<Rightarrow> bool \<Rightarrow> int \<Rightarrow> int option \<Rightarrow> int option \<Rightarrow> bar_signal" where
  "zigzag_signal i buy sell green down stop low high =
     \<lparr>bs_index = i, bs_open_time = Aware i 0, bs_buy = buy, bs_sell = sell, bs_hull_green = green,
      bs_hull_flip_down = down, bs_hull_flip_up = False, bs_trailing_stop = Some (point stop),
      bs_stop_low = map_option point low, bs_stop_high = map_option point high\<rparr>"

definition zigzag_signals :: "bar_signal list" where
  "zigzag_signals =
     [zigzag_signal 0 False False None False 100 None None,
      zigzag_signal 1 False True None False 91 (Some 90) (Some 100),
      zigzag_signal 2 True False (Some True) False 108 (Some 90) (Some 110),
      zigzag_signal 3 False True (Some False) True 92 (Some 90) (Some 110),
      zigzag_signal 4 True False (Some False) False 108 (Some 90) (Some 110)]"

lemma zigzag_inputs: "signal_inputs quick_config zigzag = Inr zigzag_series"
  by code_simp

lemma zigzag_converted:
  "to_order_decimal (FBin 7036874417766400 (- 46)) = Inr (point 100)"
  "to_order_decimal (FBin 6403555720167424 (- 46)) = Inr (point 91)"
  "to_order_decimal (FBin 7599824371187712 (- 46)) = Inr (point 108)"
  "to_order_decimal (FBin 6473924464345088 (- 46)) = Inr (point 92)"
  "to_order_decimal (FBin 6333186975989760 (- 46)) = Inr (point 90)"
  "to_order_decimal (FBin 7740561859543040 (- 46)) = Inr (point 110)"
  by code_simp+

lemma zigzag_length: "length zigzag = 5"
  by (simp add: zigzag_def)

lemma zigzag_run: "compute_signals zigzag quick_config = Inr zigzag_signals"
proof -
  have "length zigzag = 5" "zigzag \<noteq> []" by (simp_all add: zigzag_def)
  moreover have "[0..<5] = [0, 1, 2, 3, 4::nat]" by (simp add: upt_rec)
  ultimately have "compute_signals zigzag quick_config = mapr (signal_at zigzag zigzag_series) [0, 1, 2, 3, 4]"
    by (simp add: compute_signals_def zigzag_inputs)
  then show ?thesis
    by (simp add: signal_at_def zigzag_series_def optional_decimal_def zigzag_converted zigzag_signals_def
        zigzag_signal_def zigzag_def point_bar_def)
qed

section \<open>Properties\<close>

lemma compute_signals_at:
  assumes "compute_signals bars c = Inr sigs" "i < length bars"
  obtains g where "signal_inputs c bars = Inr g" "length sigs = length bars"
    "\<And>k. k < length bars \<Longrightarrow> signal_at bars g k = Inr (sigs ! k)"
  using compute_signals_Inr [OF assms(1)] assms(2) by (metis length_0_conv not_less_zero)

text \<open>C22: The signals of the closed bars are final: adding later bars does not change any signal
  that was computed before, and computing on the earlier bars alone gives exactly the first
  signals, without raising.\<close>

theorem signals_never_repaint:
  assumes "compute_signals (bars @ later) c = Inr sigs"
  shows "compute_signals bars c = Inr (take (length bars) sigs)"
  using compute_signals_take [OF assms, of "length bars"] by simp

theorem signals_never_repaint_witness:
  "compute_signals (take 4 zigzag) quick_config = Inr (take 4 zigzag_signals)"
proof -
  have "compute_signals (take 4 zigzag @ drop 4 zigzag) quick_config = Inr zigzag_signals"
    by (simp only: append_take_drop_id zigzag_run)
  from signals_never_repaint [OF this] show ?thesis by (simp add: zigzag_length)
qed

text \<open>A signal says what its bar saw: index and time are the bar's, a bar never buys and
  sells at once, a signal needs the trailing stop of its bar and of the bar before, a flip of
  the Hull colour is a change of the colour from the bar before, and the protective stops are
  the extreme low and high of the last bars, absent while there are too few.\<close>

lemma signal_snapshot:
  assumes "compute_signals bars c = Inr sigs" "i < length bars"
  shows "bs_index (sigs ! i) = int i \<and> bs_open_time (sigs ! i) = ba_open_time (bars ! i) \<and>
    \<not> (bs_buy (sigs ! i) \<and> bs_sell (sigs ! i)) \<and>
    (bs_buy (sigs ! i) \<or> bs_sell (sigs ! i) \<longrightarrow> 0 < i \<and> bs_trailing_stop (sigs ! i) \<noteq> None \<and>
       bs_trailing_stop (sigs ! (i - 1)) \<noteq> None) \<and>
    (bs_hull_flip_down (sigs ! i) \<longleftrightarrow> 0 < i \<and> bs_hull_green (sigs ! i) = Some False \<and>
       bs_hull_green (sigs ! (i - 1)) = Some True) \<and>
    (bs_hull_flip_up (sigs ! i) \<longleftrightarrow> 0 < i \<and> bs_hull_green (sigs ! i) = Some True \<and>
       bs_hull_green (sigs ! (i - 1)) = Some False) \<and>
    (int i + 1 < uc_sl_len c \<longrightarrow> bs_stop_low (sigs ! i) = None \<and> bs_stop_high (sigs ! i) = None) \<and>
    (uc_sl_len c \<le> int i + 1 \<longrightarrow>
       (\<exists>x d. x \<in> set (window (lows_of bars) (nat (uc_sl_len c)) i) \<and>
          (\<forall>y \<in> set (window (lows_of bars) (nat (uc_sl_len c)) i). x \<le> y) \<and>
          to_order_decimal x = Inr d \<and> bs_stop_low (sigs ! i) = Some d) \<and>
       (\<exists>x d. x \<in> set (window (highs_of bars) (nat (uc_sl_len c)) i) \<and>
          (\<forall>y \<in> set (window (highs_of bars) (nat (uc_sl_len c)) i). y \<le> x) \<and>
          to_order_decimal x = Inr d \<and> bs_stop_high (sigs ! i) = Some d))"
proof -
  obtain g where g: "signal_inputs c bars = Inr g"
    and at: "\<And>k. k < length bars \<Longrightarrow> signal_at bars g k = Inr (sigs ! k)"
    using compute_signals_at [OF assms] by metis
  note f = signal_at_fields [OF at [OF assms(2)]]
  note f' = signal_at_fields(5,8) [OF at [of "i - 1"]]
  obtain r h where p: "lowest (lows_of bars) (uc_sl_len c) = Inr (sg_stop_lows g)"
    "highest (highs_of bars) (uc_sl_len c) = Inr (sg_stop_highs g)"
    "sg_buys g = crossover (map Some (closes_of bars)) (sg_trailing g)"
    "sg_sells g = crossunder (map Some (closes_of bars)) (sg_trailing g)"
    by (rule signal_inputs_parts [OF g])
  have len: "i < length (lows_of bars)" "i < length (highs_of bars)" "i < length (map Some (closes_of bars))"
    using assms(2) by (simp_all add: lows_of_def highs_of_def closes_of_def)
  note lo = lowest_nth [OF p(1) len(1) prices_not_nan(3)]
  note hi = highest_nth [OF p(2) len(2) prices_not_nan(2)]
  have cross: "bs_buy (sigs ! i) = cross_at (map Some (closes_of bars)) (sg_trailing g) True i"
    "bs_sell (sigs ! i) = cross_at (map Some (closes_of bars)) (sg_trailing g) False i"
    using f(3,4) p(3,4) cross_nth [OF len(3)] by simp_all
  have some: "bs_trailing_stop (sigs ! k) \<noteq> None" if "sg_trailing g ! k = Some x" "k < length bars" for k x
    using signal_at_fields(8) [OF at [OF that(2)]] that(1) by (auto simp: optional_decimal_Inr)
  have less: "i - 1 < length bars" using assms(2) by simp
  show ?thesis
  proof (intro conjI)
    show "\<not> (bs_buy (sigs ! i) \<and> bs_sell (sigs ! i))"
      using fless_not_le unfolding cross cross_at_up cross_at_down by fastforce
    show "bs_buy (sigs ! i) \<or> bs_sell (sigs ! i) \<longrightarrow> 0 < i \<and> bs_trailing_stop (sigs ! i) \<noteq> None \<and>
       bs_trailing_stop (sigs ! (i - 1)) \<noteq> None"
      unfolding cross cross_at_up cross_at_down using some less assms(2) by meson
    show "int i + 1 < uc_sl_len c \<longrightarrow> bs_stop_low (sigs ! i) = None \<and> bs_stop_high (sigs ! i) = None"
      using lo hi f(9,10) by (auto simp: optional_decimal_Inr)
    show "uc_sl_len c \<le> int i + 1 \<longrightarrow>
       (\<exists>x d. x \<in> set (window (lows_of bars) (nat (uc_sl_len c)) i) \<and>
          (\<forall>y \<in> set (window (lows_of bars) (nat (uc_sl_len c)) i). x \<le> y) \<and>
          to_order_decimal x = Inr d \<and> bs_stop_low (sigs ! i) = Some d) \<and>
       (\<exists>x d. x \<in> set (window (highs_of bars) (nat (uc_sl_len c)) i) \<and>
          (\<forall>y \<in> set (window (highs_of bars) (nat (uc_sl_len c)) i). y \<le> x) \<and>
          to_order_decimal x = Inr d \<and> bs_stop_high (sigs ! i) = Some d)"
      using lo hi f(9,10) by (auto simp: optional_decimal_Inr)
  qed (use f f' less in auto)
qed


text \<open>C23: Buys and sells alternate as long as no close meets the trailing stop exactly: between two
  buys lies a sell or a bar whose close equals its stop, and between two sells a buy or such
  a bar.\<close>

theorem signals_alternate:
  assumes "compute_signals bars c = Inr sigs" "i < j" "j < length bars"
  shows "\<exists>ts. trailing_series c bars = Inr ts \<and>
    (bs_buy (sigs ! i) \<and> bs_buy (sigs ! j) \<longrightarrow>
       (\<exists>k. i < k \<and> k < j \<and> (bs_sell (sigs ! k) \<or> meets bars ts k))) \<and>
    (bs_sell (sigs ! i) \<and> bs_sell (sigs ! j) \<longrightarrow>
       (\<exists>k. i < k \<and> k < j \<and> (bs_buy (sigs ! k) \<or> meets bars ts k)))"
proof -
  have "i < length bars" using assms by simp
  then obtain g where g: "signal_inputs c bars = Inr g"
    and at: "\<And>k. k < length bars \<Longrightarrow> signal_at bars g k = Inr (sigs ! k)"
    using compute_signals_at [OF assms(1)] by metis
  let ?ts = "sg_trailing g" and ?cs = "map Some (closes_of bars)"
  have len: "length ?cs = length bars" by (simp add: closes_of_def)
  have ts: "trailing_series c bars = Inr ?ts" "length ?ts = length bars"
    and bs: "sg_buys g = crossover ?cs ?ts" "sg_sells g = crossunder ?cs ?ts"
    by (rule signal_inputs_parts [OF g]; simp add: trailing_series_def)+
  have buy: "bs_buy (sigs ! k) = cross_at ?cs ?ts True k" and sell: "bs_sell (sigs ! k) = cross_at ?cs ?ts False k"
    if "k < length bars" for k
    using signal_at_fields(3,4) [OF at [OF that]] bs cross_nth [of k ?cs] that len by simp_all
  have nan: "\<forall>t. Some t \<in> set ?ts \<longrightarrow> t \<noteq> FNan"
  proof (intro allI impI)
    fix t assume "Some t \<in> set ?ts"
    then obtain k where k: "k < length bars" "?ts ! k = Some t" using ts(2) by (metis in_set_conv_nth)
    show "t \<noteq> FNan" using signal_at_fields(8) [OF at [OF k(1)]] k(2) by (auto simp: optional_decimal_Inr)
  qed
  have up: "\<exists>k. i < k \<and> k < j \<and> (bs_sell (sigs ! k) \<or> meets bars ?ts k)"
    if b: "bs_buy (sigs ! i)" "bs_buy (sigs ! j)"
  proof (rule ccontr)
    assume "\<not> ?thesis"
    then have quiet: "\<not> cross_at ?cs ?ts False k \<and> \<not> meets bars ?ts k" if "i < k" "k \<le> j - 1" for k
      using that sell [of k] assms(2,3) by auto
    obtain t where t: "?ts ! i = Some t" "t < closes_of bars ! i"
      using b(1) buy [of i] assms(2,3) len by (auto simp: cross_at_up)
    have "i \<le> j - 1" "j - 1 < length bars" using assms(2,3) by simp_all
    from above_stays [OF ts(1) nan ts(2) quiet this t] obtain u where
      "?ts ! (j - 1) = Some u" "u < closes_of bars ! (j - 1)" by blast
    then show False
      using b(2) buy [of j] assms(2,3) len fless_not_le(1) by (auto simp: cross_at_up)
  qed
  have down: "\<exists>k. i < k \<and> k < j \<and> (bs_buy (sigs ! k) \<or> meets bars ?ts k)"
    if b: "bs_sell (sigs ! i)" "bs_sell (sigs ! j)"
  proof (rule ccontr)
    assume "\<not> ?thesis"
    then have quiet: "\<not> cross_at ?cs ?ts True k \<and> \<not> meets bars ?ts k" if "i < k" "k \<le> j - 1" for k
      using that buy [of k] assms(2,3) by auto
    obtain t where t: "?ts ! i = Some t" "closes_of bars ! i < t"
      using b(1) sell [of i] assms(2,3) len by (auto simp: cross_at_down)
    have "i \<le> j - 1" "j - 1 < length bars" using assms(2,3) by simp_all
    from below_stays [OF ts(1) nan ts(2) quiet this t] obtain u where
      "?ts ! (j - 1) = Some u" "closes_of bars ! (j - 1) < u" by blast
    then show False
      using b(2) sell [of j] assms(2,3) len fless_not_le(1) by (auto simp: cross_at_down)
  qed
  show ?thesis using ts(1) up down by blast
qed

theorem signals_alternate_witness:
  "\<exists>k ts. 2 < k \<and> k < 4 \<and> (bs_sell (zigzag_signals ! k) \<or> meets zigzag ts k)"
proof -
  have "bs_buy (zigzag_signals ! 2)" "bs_buy (zigzag_signals ! 4)"
    by (simp_all add: zigzag_signals_def zigzag_signal_def)
  then show ?thesis using signals_alternate [OF zigzag_run, of 2 4] zigzag_length by auto
qed

text \<open>C24: The trailing stop ratchets: while two closes in a row lie above the stop of the bar before
  it does not fall, while they lie below it does not rise, and in all other cases it restarts
  at the distance of the loss (the key value times the average true range) below a close that
  is above the old stop, and above any other close.\<close>

theorem trailing_stop_ratchets:
  assumes "atr (highs_of bars) (lows_of bars) (closes_of bars) (uc_ut_atr c) = Inr r"
    and "trailing_series c bars = Inr ts" "Suc i < length bars"
    and "ts ! i = Some base" "base \<noteq> FNan" "r ! Suc i = Some width"
  shows "\<exists>stop. ts ! Suc i = Some stop \<and>
    (let close = closes_of bars ! Suc i; before = closes_of bars ! i; loss = float_of_dec (uc_ut_key c) * width
     in if base < close \<and> base < before then base \<le> stop
        else if close < base \<and> before < base then stop \<le> base
        else if base < close then stop = close - loss else stop = close + loss)"
proof -
  have ts: "ts = trailing_stop (closes_of bars) (nloss_of c r)"
    using assms(1,2) by (simp add: trailing_series_def)
  have len: "length r = length bars"
    using causal_result_take [OF causal_atr [OF causal_prices(2,3,1)] assms(1)] by simp
  have "ts ! Suc i = Some (trailing_value (closes_of bars ! Suc i) (float_of_dec (uc_ut_key c) * width)
      (Some (closes_of bars ! i)) base)"
    using trailing_loop_Suc [of i "closes_of bars" "nloss_of c r" None None] assms(3,4,6) len
    by (simp add: ts trailing_stop_def nloss_of_def closes_of_def)
  then show ?thesis using trailing_value_sides [OF assms(5)] fless_not_le(2) by (auto simp: Let_def)
qed

theorem trailing_stop_ratchets_witness:
  "\<exists>stop. sg_trailing zigzag_series ! 2 = Some stop \<and>
     stop = closes_of zigzag ! 2 - float_of_dec (Dec 1 (- 1)) * FBin 5629499534213120 (- 48)"
proof -
  have r: "atr (highs_of zigzag) (lows_of zigzag) (closes_of zigzag) (uc_ut_atr quick_config) =
      Inr [Some (FZero False), Some (FBin 5629499534213120 (- 49)), Some (FBin 5629499534213120 (- 48)),
           Some (FBin 5629499534213120 (- 48)), Some (FBin 5629499534213120 (- 48))]"
    by code_simp
  obtain g where "signal_inputs quick_config zigzag = Inr g" "g = zigzag_series" using zigzag_inputs by simp
  then have t: "trailing_series quick_config zigzag = Inr (sg_trailing zigzag_series)"
    by (metis (no_types, lifting) signal_inputs_parts trailing_series_def bindr.simps(2))
  have c: "FBin 6403555720167424 (- 46) < closes_of zigzag ! Suc 1"
    "\<not> FBin 6403555720167424 (- 46) < closes_of zigzag ! 1" "\<not> closes_of zigzag ! Suc 1 < FBin 6403555720167424 (- 46)"
    by code_simp+
  have k: "uc_ut_key quick_config = Dec 1 (- 1)" by (simp add: quick_config_def)
  show ?thesis
    using trailing_stop_ratchets [OF r t, of 1 "FBin 6403555720167424 (- 46)" "FBin 5629499534213120 (- 48)"]
      zigzag_length c k
    by (simp add: zigzag_series_def eval_nat_numeral Let_def)
qed

end
