(* ===== verification/Backtest.thy ===== *)
theory Backtest
  imports Sizing Trade_Manager Ut_Signals
begin

text \<open>
  \<open>strategies/ut_bot/backtest.py\<close>: the simulation of the Pine order timing over the bars of a
  strategy. A bar fills the queued market orders at its open, then judges the brackets that were
  active before it, then runs the trade manager at its close. The variables of \<open>run_backtest\<close>
  (and of the nested \<open>record_exit\<close>) are the fields of the record \<open>sim\<close>.
\<close>

section \<open>Data\<close>

datatype fill_kind = ENTRY | EXIT

text \<open>Two reasons share their names with those of the sizing, hence the suffix.\<close>

datatype skip_reason =
    AWAITING_CONFIRMATION | BELOW_BROKER_MINIMUM_SKIP | NON_POSITIVE_RISK_SKIP | ACCOUNT_RUINED

record backtest_fill =
  bf_bar_index :: int
  bf_open_time :: pydatetime
  bf_kind :: fill_kind
  bf_role :: tranche_role
  bf_side :: order_side
  bf_price :: dec
  bf_quantity :: dec
  bf_reason :: "close_reason option"

record backtest_skip =
  bk_bar_index :: int
  bk_open_time :: pydatetime
  bk_side :: order_side
  bk_reason :: skip_reason
  bk_stop_distance :: dec
  bk_budget :: dec
  bk_equity :: dec

record backtest_trade =
  bt_role :: tranche_role
  bt_side :: order_side
  bt_quantity :: dec
  bt_entry_bar_index :: int
  bt_entry_time :: pydatetime
  bt_entry_price :: dec
  bt_exit_bar_index :: int
  bt_exit_time :: pydatetime
  bt_exit_price :: dec
  bt_reason :: close_reason

definition points :: "backtest_trade \<Rightarrow> dec" where
  "points t =
     (if bt_side t = BUY then bt_exit_price t - bt_entry_price t
      else bt_entry_price t - bt_exit_price t)"

record backtest_result =
  rs_fills :: "backtest_fill list"
  rs_trades :: "backtest_trade list"
  rs_skips :: "backtest_skip list"
  rs_final_state :: trade_state
  rs_initial_equity :: dec
  rs_final_equity :: dec
  rs_peak_equity :: dec
  rs_max_drawdown :: dec
  rs_ruined :: bool

definition max_drawdown_pct :: "backtest_result \<Rightarrow> dec result" where
  "max_drawdown_pct r =
     (if rs_peak_equity r \<le> 0 then Inr 0
      else bindr (ddiv (rs_max_drawdown r) (rs_peak_equity r)) (\<lambda>q. Inr (q * dint 100)))"

definition confirmation_rate :: "backtest_result \<Rightarrow> dec result" where
  "confirmation_rate r =
     (let gated = length (filter (\<lambda>k. bk_reason k = AWAITING_CONFIRMATION) (rs_skips r));
          attempts = card (bf_bar_index ` set (rs_fills r)) + length (rs_skips r)
      in if attempts = 0 then Inr 0
         else bindr (ddiv (dint (int gated)) (dint (int attempts))) (\<lambda>q. Inr (q * dint 100)))"

record bracket =
  bc_role :: tranche_role
  bc_side :: order_side
  bc_quantity :: dec
  bc_stop_loss :: dec
  bc_take_profit :: "dec option"
  bc_active_from :: int
  bc_breakeven :: bool

section \<open>The brackets\<close>

definition reaches :: "bool \<Rightarrow> dec \<Rightarrow> dec \<Rightarrow> bool" where
  "reaches upward price level = (if upward then price \<ge> level else price \<le> level)"

text \<open>
  \<open>_bracket_exit\<close>. For a long position the stop is reached downwards by the low and the target
  upwards by the high; a short position mirrors this.
\<close>

definition bracket_exit :: "bracket \<Rightarrow> bar \<Rightarrow> (dec \<times> close_reason) option" where
  "bracket_exit k b =
     (let long = (bc_side k = BUY); stop = bc_stop_loss k; target = bc_take_profit k;
          hit_stop = reaches (\<not> long) (if long then ba_low b else ba_high b) stop;
          hit_target = (case target of None \<Rightarrow> False
                        | Some t \<Rightarrow> reaches long (if long then ba_high b else ba_low b) t);
          stop_price = (if reaches (\<not> long) (ba_open b) stop then ba_open b else stop);
          target_price = map_option (\<lambda>t. if reaches long (ba_open b) t then ba_open b else t) target
      in if hit_stop then
           Some (stop_price, if bc_breakeven k then BREAKEVEN_STOP else STOP_LOSS)
         else if hit_target then map_option (\<lambda>p. (p, TAKE_PROFIT)) target_price
         else None)"

type_synonym brackets = "(tranche_role \<times> bracket) list"

definition register_bracket ::
  "trade_state \<Rightarrow> int \<Rightarrow> brackets \<times> trade_action list \<Rightarrow> trade_action \<Rightarrow> brackets \<times> trade_action list" where
  "register_bracket s index acc a =
     (case acc of (bs, deferred) \<Rightarrow>
        case ta_kind a of
          SET_BRACKETS \<Rightarrow>
            (case (tranche_of s (ta_role a), ta_stop_loss a) of
               (Some t, Some stop) \<Rightarrow>
                 (case tr_quantity t of
                    None \<Rightarrow> (bs, deferred)
                  | Some q \<Rightarrow>
                      (dict_set (ta_role a)
                         \<lparr>bc_role = ta_role a, bc_side = tr_side t, bc_quantity = q, bc_stop_loss = stop,
                          bc_take_profit = ta_take_profit a, bc_active_from = index + 1,
                          bc_breakeven = False\<rparr> bs, deferred))
             | _ \<Rightarrow> (bs, deferred))
        | MOVE_STOP \<Rightarrow>
            (case (dict_get bs (ta_role a), ta_stop_loss a) of
               (Some existing, Some stop) \<Rightarrow>
                 (dict_set (ta_role a)
                    (existing\<lparr>bc_stop_loss := stop, bc_breakeven := True, bc_active_from := index + 1\<rparr>) bs,
                  deferred)
             | _ \<Rightarrow> (bs, deferred))
        | CLOSE_MARKET \<Rightarrow> (dict_del (ta_role a) bs, deferred @ [a])
        | OPEN_MARKET \<Rightarrow> (bs, deferred @ [a]))"

text \<open>\<open>_register_brackets\<close>: the new brackets and the orders left for the next bar.\<close>

definition register_brackets ::
  "trade_action list \<Rightarrow> trade_state \<Rightarrow> brackets \<Rightarrow> int \<Rightarrow> brackets \<times> trade_action list" where
  "register_brackets actions s bs index = foldl (register_bracket s index) (bs, []) actions"

definition skip_reason_of ::
  "ut_config \<Rightarrow> dec \<Rightarrow> symbol_spec \<Rightarrow> dec \<Rightarrow> dec \<Rightarrow> bool \<Rightarrow> bool \<Rightarrow> (skip_reason \<times> dec) option result" where
  "skip_reason_of config stop_distance spec equity rate confirm_over_budget ruined =
     (let budget = equity * uc_risk_pct config
      in if ruined \<or> equity \<le> 0 then Inr (Some (ACCOUNT_RUINED, budget))
         else
           bindr (size_entry config stop_distance spec equity rate) (\<lambda>outcome.
           Inr (if so_rejection outcome = Some NON_POSITIVE_RISK then
                  Some (NON_POSITIVE_RISK_SKIP, so_budget outcome)
                else if so_rejection outcome = Some BELOW_BROKER_MINIMUM \<or> so_lots outcome = None then
                  Some (BELOW_BROKER_MINIMUM_SKIP, so_budget outcome)
                else if so_requires_confirmation outcome \<and> \<not> confirm_over_budget then
                  Some (AWAITING_CONFIRMATION, so_budget outcome)
                else None)))"

section \<open>The simulation\<close>

record sim =
  sm_state :: trade_state
  sm_brackets :: brackets
  sm_queued :: "trade_action list"
  sm_fills :: "backtest_fill list"
  sm_skips :: "backtest_skip list"
  sm_open_entries :: "(tranche_role \<times> backtest_fill) list"
  sm_trades :: "backtest_trade list"
  sm_equity :: dec
  sm_peak_equity :: dec
  sm_max_drawdown :: dec
  sm_ruined :: bool

text \<open>What \<open>run_backtest\<close> is called with, besides the bars.\<close>

record backtest_setup =
  su_config :: ut_config
  su_spec :: symbol_spec
  su_rate :: dec
  su_confirm :: bool

definition initial_sim :: "dec \<Rightarrow> sim" where
  "initial_sim equity =
     \<lparr>sm_state = TradeState, sm_brackets = [], sm_queued = [], sm_fills = [], sm_skips = [],
      sm_open_entries = [], sm_trades = [], sm_equity = equity, sm_peak_equity = equity,
      sm_max_drawdown = 0, sm_ruined = False\<rparr>"

definition exit_fill :: "int \<Rightarrow> bar \<Rightarrow> tranche_role \<Rightarrow> dec \<Rightarrow> close_reason \<Rightarrow> backtest_fill \<Rightarrow> backtest_fill" where
  "exit_fill index b role price reason entry =
     \<lparr>bf_bar_index = index, bf_open_time = ba_open_time b, bf_kind = EXIT, bf_role = role,
      bf_side = bf_side entry, bf_price = price, bf_quantity = bf_quantity entry,
      bf_reason = Some reason\<rparr>"

definition exit_trade :: "int \<Rightarrow> bar \<Rightarrow> tranche_role \<Rightarrow> dec \<Rightarrow> close_reason \<Rightarrow> backtest_fill \<Rightarrow> backtest_trade" where
  "exit_trade index b role price reason entry =
     \<lparr>bt_role = role, bt_side = bf_side entry, bt_quantity = bf_quantity entry,
      bt_entry_bar_index = bf_bar_index entry, bt_entry_time = bf_open_time entry,
      bt_entry_price = bf_price entry, bt_exit_bar_index = index, bt_exit_time = ba_open_time b,
      bt_exit_price = price, bt_reason = reason\<rparr>"

text \<open>The end of \<open>record_exit\<close>: the account after a trade.\<close>

definition book_trade :: "dec \<Rightarrow> sim \<Rightarrow> backtest_trade \<Rightarrow> sim" where
  "book_trade rate s t =
     (let equity = sm_equity s + points t * bt_quantity t * rate;
          peak = pymax (sm_peak_equity s) equity
      in s\<lparr>sm_trades := sm_trades s @ [t], sm_equity := equity, sm_peak_equity := peak,
           sm_max_drawdown := pymax (sm_max_drawdown s) (peak - equity),
           sm_ruined := (if equity \<le> 0 then True else sm_ruined s)\<rparr>)"

definition record_exit :: "dec \<Rightarrow> int \<Rightarrow> bar \<Rightarrow> tranche_role \<Rightarrow> dec \<Rightarrow> close_reason \<Rightarrow> sim \<Rightarrow> sim" where
  "record_exit rate index b role price reason s =
     (case dict_get (sm_open_entries s) role of
        None \<Rightarrow> s
      | Some entry \<Rightarrow>
          book_trade rate
            (s\<lparr>sm_open_entries := dict_del role (sm_open_entries s),
               sm_fills := sm_fills s @ [exit_fill index b role price reason entry]\<rparr>)
            (exit_trade index b role price reason entry))"

text \<open>1) the queued market orders: exits are filled, entries collected.\<close>

definition take_order :: "dec \<Rightarrow> int \<Rightarrow> bar \<Rightarrow> sim \<times> trade_action list \<Rightarrow> trade_action \<Rightarrow> sim \<times> trade_action list" where
  "take_order rate index b acc a =
     (case acc of (s, entered) \<Rightarrow>
        if ta_kind a = CLOSE_MARKET then
          (record_exit rate index b (ta_role a) (ba_open b)
             (case ta_reason a of None \<Rightarrow> REVERSAL | Some r \<Rightarrow> r)
             (s\<lparr>sm_brackets := dict_del (ta_role a) (sm_brackets s)\<rparr>), entered)
        else if ta_kind a = OPEN_MARKET then (s, entered @ [a])
        else (s, entered))"

definition take_orders :: "dec \<Rightarrow> int \<Rightarrow> bar \<Rightarrow> sim \<Rightarrow> sim \<times> trade_action list" where
  "take_orders rate index b s =
     (case foldl (take_order rate index b) (s, []) (sm_queued s) of
        (s', entered) \<Rightarrow> (s'\<lparr>sm_queued := []\<rparr>, entered))"

text \<open>The size of the entries, or the skip of the signal.\<close>

definition size_or_skip ::
  "backtest_setup \<Rightarrow> int \<Rightarrow> bar \<Rightarrow> sim \<times> trade_action list \<Rightarrow> (sim \<times> trade_action list \<times> dec option) result" where
  "size_or_skip u index b acc =
     (case acc of (s, entered) \<Rightarrow>
        case (ts_side (sm_state s), ts_pending_stop (sm_state s)) of
          (Some side, Some stop) \<Rightarrow>
            if entered = [] then Inr (s, entered, None)
            else
              let stop_distance = dabs (ba_open b - stop)
              in bindr (skip_reason_of (su_config u) stop_distance (su_spec u) (sm_equity s) (su_rate u)
                          (su_confirm u) (sm_ruined s)) (\<lambda>skip.
                 case skip of
                   Some (reason, budget) \<Rightarrow>
                     Inr (s\<lparr>sm_skips := sm_skips s @
                              [\<lparr>bk_bar_index = index, bk_open_time = ba_open_time b, bk_side = side,
                                bk_reason = reason, bk_stop_distance = stop_distance, bk_budget = budget,
                                bk_equity = sm_equity s\<rparr>],
                            sm_state := TradeState\<rparr>, [], None)
                 | None \<Rightarrow>
                     bindr (size_entry (su_config u) stop_distance (su_spec u) (sm_equity s) (su_rate u))
                       (\<lambda>outcome. Inr (s, entered, so_quantity outcome)))
        | _ \<Rightarrow> Inr (s, entered, None))"

definition entry_fill :: "int \<Rightarrow> bar \<Rightarrow> tranche_role \<Rightarrow> order_side \<Rightarrow> dec \<Rightarrow> backtest_fill" where
  "entry_fill index b role side quantity =
     \<lparr>bf_bar_index = index, bf_open_time = ba_open_time b, bf_kind = ENTRY, bf_role = role,
      bf_side = side, bf_price = ba_open b, bf_quantity = quantity, bf_reason = None\<rparr>"

fun fill_entries :: "int \<Rightarrow> bar \<Rightarrow> dec option \<Rightarrow> trade_action list \<Rightarrow> sim \<Rightarrow> sim result" where
  "fill_entries index b quantity [] s = Inr s"
| "fill_entries index b quantity (a # as) s =
     (case (ta_side a, quantity) of
        (Some side, Some q) \<Rightarrow>
          (let fill = entry_fill index b (ta_role a) side q
           in fill_entries index b quantity as
                (s\<lparr>sm_fills := sm_fills s @ [fill],
                   sm_open_entries := dict_set (ta_role a) fill (sm_open_entries s)\<rparr>))
      | _ \<Rightarrow> Inl AssertionError)"

text \<open>
  2) the brackets. The loop runs over a copy of the dict and deletes its own key only, so the
  bracket of a role is still the one of the copy when its turn comes.
\<close>

definition judge_bracket :: "dec \<Rightarrow> int \<Rightarrow> bar \<Rightarrow> sim \<Rightarrow> tranche_role \<times> bracket \<Rightarrow> sim" where
  "judge_bracket rate index b s rk =
     (case rk of (role, k) \<Rightarrow>
        if bc_active_from k > index then s
        else case bracket_exit k b of
          None \<Rightarrow> s
        | Some (price, reason) \<Rightarrow>
            let s' = record_exit rate index b role price reason
                       (s\<lparr>sm_brackets := dict_del role (sm_brackets s)\<rparr>)
            in s'\<lparr>sm_state := td_state (on_tranche_closed (sm_state s') role reason)\<rparr>)"

definition judge_brackets :: "dec \<Rightarrow> int \<Rightarrow> bar \<Rightarrow> sim \<Rightarrow> sim" where
  "judge_brackets rate index b s = foldl (judge_bracket rate index b) s (sm_brackets s)"

text \<open>3) the script at the close: a decision of the trade manager is taken over.\<close>

definition adopt :: "int \<Rightarrow> trade_decision \<Rightarrow> sim \<Rightarrow> sim" where
  "adopt index d s =
     (case register_brackets (td_actions d) (td_state d) (sm_brackets s) index of
        (bs, deferred) \<Rightarrow>
          s\<lparr>sm_state := td_state d, sm_brackets := bs, sm_queued := sm_queued s @ deferred\<rparr>)"

definition confirm_entry :: "backtest_setup \<Rightarrow> int \<Rightarrow> bar \<Rightarrow> trade_action list \<Rightarrow> dec option \<Rightarrow> sim \<Rightarrow> sim result" where
  "confirm_entry u index b entered quantity s =
     (if entered = [] then Inr s
      else bindr (on_entry_filled (sm_state s) (ba_open b) index (su_config u) quantity
                    (ts_reference_close (sm_state s))) (\<lambda>d. Inr (adopt index d s)))"

definition bar_step :: "backtest_setup \<Rightarrow> int \<Rightarrow> bar \<Rightarrow> bar_signal \<Rightarrow> sim \<Rightarrow> sim result" where
  "bar_step u index b sig s =
     bindr (size_or_skip u index b (take_orders (su_rate u) index b s)) (\<lambda>(s1, entered, quantity).
     bindr (fill_entries index b quantity entered s1) (\<lambda>s2.
     bindr (confirm_entry u index b entered quantity (judge_brackets (su_rate u) index b s2)) (\<lambda>s3.
     Inr (adopt index (on_bar_close (sm_state s3) b sig (su_config u)) s3))))"

fun run_bars :: "backtest_setup \<Rightarrow> int \<Rightarrow> (bar \<times> bar_signal) list \<Rightarrow> sim \<Rightarrow> sim result" where
  "run_bars u index [] s = Inr s"
| "run_bars u index ((b, sig) # rest) s = bindr (bar_step u index b sig s) (run_bars u (index + 1) rest)"

definition result_of :: "dec \<Rightarrow> sim \<Rightarrow> backtest_result" where
  "result_of initial_equity s =
     \<lparr>rs_fills = sm_fills s, rs_trades = sm_trades s, rs_skips = sm_skips s, rs_final_state = sm_state s,
      rs_initial_equity = initial_equity, rs_final_equity = sm_equity s,
      rs_peak_equity = sm_peak_equity s, rs_max_drawdown = sm_max_drawdown s, rs_ruined = sm_ruined s\<rparr>"

definition run_backtest :: "bar list \<Rightarrow> backtest_setup \<Rightarrow> dec \<Rightarrow> backtest_result result" where
  "run_backtest bars u initial_equity =
     bindr (compute_signals bars (su_config u)) (\<lambda>signals.
     bindr (run_bars u 0 (zip bars signals) (initial_sim initial_equity)) (\<lambda>s.
     Inr (result_of initial_equity s)))"

end
