(* ===== verification/Trade_Safety.thy ===== *)
theory Trade_Safety
  imports Trade_Manager
begin

text \<open>
  The trade manager as a state machine: its invariant, the agreement of its actions with an
  abstract position book, and what each rule of the strategy may do.
\<close>

section \<open>The invariant\<close>

definition tranche_ok :: "tranche \<Rightarrow> bool" where
  "tranche_ok t \<longleftrightarrow>
     (tr_state t = PENDING_ENTRY \<longrightarrow>
        tr_entry_price t = None \<and> tr_stop_loss t = None \<and> tr_take_profit t = None \<and>
        \<not> tr_breakeven_moved t) \<and>
     (tr_state t = OPEN \<longrightarrow>
        (\<exists>e st i. tr_entry_price t = Some e \<and> tr_stop_loss t = Some st \<and> tr_entry_bar_index t = Some i \<and>
           (if tr_breakeven_moved t then st = e
            else if tr_side t = BUY then st < e else e < st)) \<and>
        (tr_role t = T1 \<longrightarrow> tr_take_profit t \<noteq> None)) \<and>
     (tr_role t = T1 \<longrightarrow> \<not> tr_breakeven_moved t) \<and>
     (tr_role t = T2 \<longrightarrow> tr_take_profit t = None) \<and>
     (tr_state t = CLOSED \<longleftrightarrow> tr_close_reason t \<noteq> None)"

definition two_tranches :: "trade_state \<Rightarrow> bool" where
  "two_tranches s \<longleftrightarrow> ts_tranches s = [] \<or>
     (\<exists>a b. ts_tranches s = [a, b] \<and> tr_role a = T1 \<and> tr_role b = T2)"

definition tranche_fits :: "trade_state \<Rightarrow> tranche \<Rightarrow> bool" where
  "tranche_fits s t \<longleftrightarrow> tranche_ok t \<and>
     (tr_state t \<noteq> CLOSED \<longrightarrow> ts_side s = Some (tr_side t)) \<and>
     (tr_state t = PENDING_ENTRY \<longrightarrow> ts_pending_stop s \<noteq> None)"

definition manager_inv :: "trade_state \<Rightarrow> bool" where
  "manager_inv s \<longleftrightarrow> two_tranches s \<and> (\<forall>t \<in> set (ts_tranches s). tranche_fits s t)"

lemma manager_inv_cases:
  assumes "manager_inv s"
  obtains (none) "ts_tranches s = []"
  | (two) a b where "ts_tranches s = [a, b]" "tr_role a = T1" "tr_role b = T2"
      "tranche_fits s a" "tranche_fits s b"
  using assms by (auto simp: manager_inv_def two_tranches_def)

lemma manager_inv_two:
  "ts_tranches s = [a, b] \<Longrightarrow> manager_inv s \<longleftrightarrow>
     tr_role a = T1 \<and> tr_role b = T2 \<and> tranche_fits s a \<and> tranche_fits s b"
  by (simp add: manager_inv_def two_tranches_def)

lemma manager_inv_initial: "manager_inv TradeState"
  by (simp add: manager_inv_def two_tranches_def TradeState_def)

lemmas tranche_lookup = tranche_of_def live_tranches_def is_flat_def pending_tranches_def

lemma fits_replace [simp]: "tranche_fits (replace_tranche s u) t \<longleftrightarrow> tranche_fits s t"
  by (simp add: tranche_fits_def replace_tranche_def)

lemma role_kept [simp]:
  "tr_role (closed_as t r) = tr_role t" "tr_side (closed_as t r) = tr_side t"
  "tr_state (closed_as t r) = CLOSED"
  by (simp_all add: closed_as_def)

lemma fits_closed: "tranche_fits s t \<Longrightarrow> tranche_fits s (closed_as t r)"
  by (auto simp: tranche_fits_def tranche_ok_def closed_as_def)

lemma replace_inv:
  assumes "manager_inv s" "tranche_fits s u"
  shows "manager_inv (replace_tranche s u)"
  using assms(1)
proof (cases rule: manager_inv_cases)
  case none
  with assms show ?thesis by (simp add: manager_inv_def two_tranches_def replace_tranche_def)
next
  case (two a b)
  have "tranche_fits s u \<Longrightarrow> tranche_fits (s\<lparr>ts_tranches := ts\<rparr>) u" for ts u
    by (simp add: tranche_fits_def)
  with two assms(2) show ?thesis
    by (cases "tr_role u") (simp_all add: manager_inv_def two_tranches_def replace_tranche_def)
qed

lemma find_SomeD: "find P xs = Some x \<Longrightarrow> x \<in> set xs \<and> P x"
  by (auto simp: find_Some_iff)

lemma tranche_of_SomeD: "tranche_of s r = Some t \<Longrightarrow> t \<in> set (ts_tranches s) \<and> tr_role t = r"
  unfolding tranche_of_def by (drule find_SomeD) simp

lemma tranche_of_replace:
  "tranche_of (replace_tranche s u) r =
     (if r = tr_role u \<and> tranche_of s r \<noteq> None then Some u else tranche_of s r)"
proof -
  have "find (\<lambda>t. tr_role t = r) (map (\<lambda>t. if tr_role t = tr_role u then u else t) ts) =
      (if r = tr_role u \<and> find (\<lambda>t. tr_role t = r) ts \<noteq> None then Some u
       else find (\<lambda>t. tr_role t = r) ts)" for ts
    by (induction ts) auto
  then show ?thesis unfolding tranche_of_def replace_tranche_def by simp
qed

lemma inv_fits: "manager_inv s \<Longrightarrow> tranche_of s r = Some t \<Longrightarrow> tranche_fits s t"
  by (auto simp: manager_inv_def dest!: tranche_of_SomeD)

lemma flatten_inv: "manager_inv s \<Longrightarrow> manager_inv (flatten_if_done s)"
  by (simp add: flatten_if_done_def manager_inv_initial)

section \<open>Every operation keeps it\<close>

lemma apply_breakeven_inv:
  assumes "manager_inv s"
  shows "manager_inv (fst (apply_breakeven s b sig))"
proof -
  have "tranche_fits s (t\<lparr>tr_stop_loss := Some e, tr_breakeven_moved := True\<rparr>)"
    if "tranche_of s T2 = Some t" "tr_state t = OPEN" "tr_entry_price t = Some e" for t e
    using inv_fits [OF assms that(1)] tranche_of_SomeD [OF that(1)] that(2,3)
    by (auto simp: tranche_fits_def tranche_ok_def)
  with assms show ?thesis
    by (auto simp: apply_breakeven_def intro: replace_inv split: option.splits)
qed

lemma apply_hull_exit_inv:
  assumes "manager_inv s"
  shows "manager_inv (fst (apply_hull_exit s sig c))"
  using assms
  by (auto simp: apply_hull_exit_def Let_def intro!: replace_inv fits_closed
      intro: inv_fits split: option.splits)

text \<open>
  The loops of the manager replace, one after another, the tranches of a selection. On a
  state with one tranche per role they are a single map over the tranches.
\<close>

definition revise :: "(tranche \<Rightarrow> bool) \<Rightarrow> (tranche \<Rightarrow> tranche) \<Rightarrow> trade_state \<Rightarrow> trade_state" where
  "revise P g s = s\<lparr>ts_tranches := map (\<lambda>t. if P t then g t else t) (ts_tranches s)\<rparr>"

lemma foldl_replace:
  assumes "two_tranches s" "\<And>t. tr_role (g t) = tr_role t"
  shows "foldl (\<lambda>u t. replace_tranche u (g t)) s (filter P (ts_tranches s)) = revise P g s"
proof (cases "ts_tranches s = []")
  case True
  then show ?thesis by (cases s) (simp add: revise_def)
next
  case False
  with assms(1) obtain a b where "ts_tranches s = [a, b]" "tr_role a = T1" "tr_role b = T2"
    by (auto simp: two_tranches_def)
  with assms(2) show ?thesis by (cases s) (simp add: revise_def replace_tranche_def)
qed

lemma foldl_pair:
  "foldl (\<lambda>(u, acts) t. (f u t, acts @ h t)) (s, acts) ts = (foldl f s ts, acts @ concat (map h ts))"
  by (induction ts arbitrary: s acts) simp_all

lemma close_opposite_fold:
  "foldl (close_opposite side) acc ts =
     foldl (\<lambda>(u, acts) t. (replace_tranche u (closed_as t REVERSAL), acts @ [close_action t REVERSAL]))
       acc (filter (\<lambda>t. tr_side t \<noteq> side) ts)"
  by (induction ts arbitrary: acc) (auto simp: close_opposite_def)

definition live :: "tranche \<Rightarrow> bool" where
  "live t \<longleftrightarrow> tr_state t \<noteq> CLOSED"

lemma live_tranches_eq: "live_tranches s = filter live (ts_tranches s)"
  by (simp add: live_tranches_def live_def [abs_def])

lemma close_opposite_all:
  assumes "two_tranches s"
  shows "foldl (close_opposite side) (s, []) (live_tranches s) =
    (revise (\<lambda>t. live t \<and> tr_side t \<noteq> side) (\<lambda>t. closed_as t REVERSAL) s,
     map (\<lambda>t. close_action t REVERSAL) (filter (\<lambda>t. live t \<and> tr_side t \<noteq> side) (ts_tranches s)))"
  unfolding close_opposite_fold live_tranches_eq filter_filter foldl_pair
  by (simp add: foldl_replace [OF assms] conj_commute concat_map_singleton)

lemma abort_entry_eq:
  assumes "two_tranches s"
  shows "abort_entry s r =
    \<lparr>td_state = flatten_if_done (revise live (\<lambda>t. closed_as t r) s),
     td_actions = map (\<lambda>t. close_action t r) (live_tranches s)\<rparr>"
  unfolding abort_entry_def Let_def foldl_pair live_tranches_eq
  by (simp add: foldl_replace [OF assms] concat_map_singleton)

lemma record_quantity_eq:
  assumes "two_tranches s"
  shows "record_quantity s (Some q) = revise (\<lambda>t. tr_state t = PENDING_ENTRY) (\<lambda>t. t\<lparr>tr_quantity := Some q\<rparr>) s"
  by (simp add: record_quantity_def pending_tranches_def foldl_replace [OF assms])

definition filled_tranche :: "dec \<Rightarrow> int \<Rightarrow> dec \<Rightarrow> dec \<Rightarrow> tranche \<Rightarrow> tranche" where
  "filled_tranche entry_price bar_index stop_loss target t =
     t\<lparr>tr_state := OPEN, tr_entry_price := Some entry_price, tr_entry_bar_index := Some bar_index,
       tr_stop_loss := Some stop_loss, tr_take_profit := (if tr_role t = T1 then Some target else None)\<rparr>"

definition bracket_action :: "dec \<Rightarrow> dec \<Rightarrow> tranche \<Rightarrow> trade_action" where
  "bracket_action stop_loss target t =
     (TradeAction SET_BRACKETS (tr_role t))\<lparr>ta_stop_loss := Some stop_loss,
        ta_take_profit := (if tr_role t = T1 then Some target else None)\<rparr>"

lemma fill_all:
  assumes "two_tranches s"
  shows "foldl (fill_tranche e i st tp) (s, []) (pending_tranches s) =
    (revise (\<lambda>t. tr_state t = PENDING_ENTRY) (filled_tranche e i st tp) s,
     map (bracket_action st tp) (pending_tranches s))"
proof -
  have eq: "fill_tranche e i st tp =
      (\<lambda>(u, acts) t. (replace_tranche u (filled_tranche e i st tp t), acts @ [bracket_action st tp t]))"
    by (auto simp: fun_eq_iff fill_tranche_def Let_def filled_tranche_def bracket_action_def)
  have role: "tr_role (filled_tranche e i st tp t) = tr_role t" for t
    by (simp add: filled_tranche_def)
  show ?thesis
    unfolding eq foldl_pair pending_tranches_def
    by (simp add: foldl_replace [OF assms role] concat_map_singleton)
qed

lemma revise_two [simp]:
  "(\<And>t. tr_role (g t) = tr_role t) \<Longrightarrow> two_tranches s \<Longrightarrow> two_tranches (revise P g s)"
  by (auto simp: two_tranches_def revise_def split: if_splits)

lemma revise_fits [simp]: "tranche_fits (revise P g s) t \<longleftrightarrow> tranche_fits s t"
  by (simp add: tranche_fits_def revise_def)

lemma revise_inv:
  assumes "manager_inv s" "\<And>t. tr_role (g t) = tr_role t"
    and "\<And>t. P t \<Longrightarrow> tranche_fits s t \<Longrightarrow> tranche_fits s (g t)"
  shows "manager_inv (revise P g s)"
  unfolding manager_inv_def revise_fits
  using assms(1) revise_two [OF assms(2), of s P] assms(3)
  by (auto simp: manager_inv_def) (auto simp: revise_def)

lemma inv_two: "manager_inv s \<Longrightarrow> two_tranches s"
  by (simp add: manager_inv_def)

lemma enter_side_eq:
  assumes "two_tranches s"
  shows "enter_side s b side stop =
    (let s' = revise (\<lambda>t. live t \<and> tr_side t \<noteq> side) (\<lambda>t. closed_as t REVERSAL) s;
         closes = map (\<lambda>t. close_action t REVERSAL) (filter (\<lambda>t. live t \<and> tr_side t \<noteq> side) (ts_tranches s));
         entries = map (\<lambda>role. Tranche role side PENDING_ENTRY) [T1, T2]
     in if is_flat s' \<and> stop \<noteq> None
        then (\<lparr>ts_side = Some side, ts_pending_stop = stop, ts_reference_close = Some (ba_close b),
               ts_tranches = entries\<rparr>, closes @ map (open_action side) entries)
        else (s', closes))"
  by (simp add: enter_side_def close_opposite_all [OF assms] Let_def split: option.split)

lemma new_entry_inv:
  "manager_inv \<lparr>ts_side = Some side, ts_pending_stop = Some st, ts_reference_close = rc,
      ts_tranches = map (\<lambda>role. Tranche role side PENDING_ENTRY) [T1, T2]\<rparr>"
  by (simp add: manager_inv_def two_tranches_def tranche_fits_def tranche_ok_def Tranche_def)

lemma enter_side_inv:
  assumes "manager_inv s"
  shows "manager_inv (fst (enter_side s b side stop))"
  using revise_inv [OF assms, of "\<lambda>t. closed_as t REVERSAL"] new_entry_inv
  by (auto simp: enter_side_eq [OF inv_two [OF assms]] Let_def fits_closed simp del: list.map)

lemma on_bar_close_inv:
  assumes "manager_inv s"
  shows "manager_inv (td_state (on_bar_close s b sig c))"
proof -
  obtain s1 a1 where 1: "apply_breakeven s b sig = (s1, a1)" by (rule prod.exhaust)
  obtain s2 a2 where 2: "apply_hull_exit s1 sig c = (s2, a2)" by (rule prod.exhaust)
  obtain s3 a3 where 3: "apply_signal s2 b sig = (s3, a3)" by (rule prod.exhaust)
  have "manager_inv s1" using apply_breakeven_inv [OF assms, of b sig] 1 by simp
  then have "manager_inv s2" using apply_hull_exit_inv [of s1 sig c] 2 by simp
  then have "manager_inv s3" using 3 enter_side_inv [of s2]
    by (metis apply_signal_def fst_conv)
  then show ?thesis by (simp add: on_bar_close_def 1 2 3)
qed

lemma abort_entry_inv: "manager_inv s \<Longrightarrow> manager_inv (td_state (abort_entry s r))"
  by (simp add: abort_entry_eq inv_two flatten_inv revise_inv fits_closed)

lemma on_tranche_closed_inv:
  "manager_inv s \<Longrightarrow> manager_inv (td_state (on_tranche_closed s role r))"
  by (auto simp: on_tranche_closed_def intro!: flatten_inv replace_inv fits_closed
      intro: inv_fits split: option.splits)

lemma record_quantity_inv: "manager_inv s \<Longrightarrow> manager_inv (record_quantity s q)"
  by (cases q) (auto simp: record_quantity_eq inv_two record_quantity_def [of s None]
      tranche_fits_def tranche_ok_def intro!: revise_inv)

lemma record_quantity_kept [simp]:
  "two_tranches s \<Longrightarrow> ts_side (record_quantity s q) = ts_side s"
  "two_tranches s \<Longrightarrow> ts_pending_stop (record_quantity s q) = ts_pending_stop s"
  by (cases q; simp add: record_quantity_eq record_quantity_def [of s None] revise_def)+

lemma entry_gap_total: "\<exists>g. entry_gap_reason e ref c = Inr g"
proof (cases "\<exists>limit r. uc_max_entry_gap_bps c = Some limit \<and> ref = Some r \<and> 0 < r")
  case True
  then obtain limit r where *: "uc_max_entry_gap_bps c = Some limit" "ref = Some r" "0 < r" by blast
  then have "dval r \<noteq> 0" by (simp add: dec_order)
  then obtain z where "ddiv (dabs (e - r)) r = Inr z" using ddiv_total by blast
  with * show ?thesis by (simp add: entry_gap_reason_def not_less_dec [symmetric])
next
  case False
  then show ?thesis by (auto simp: entry_gap_reason_def not_less_dec [symmetric] split: option.split)
qed

text \<open>The target of the first tranche.\<close>

definition entry_risk :: "order_side \<Rightarrow> dec \<Rightarrow> dec \<Rightarrow> dec" where
  "entry_risk side e st = (if side = BUY then e - st else st - e)"

definition entry_target :: "order_side \<Rightarrow> dec \<Rightarrow> dec \<Rightarrow> ut_config \<Rightarrow> dec" where
  "entry_target side e st c =
     (if side = BUY then e + uc_rr_mult c * entry_risk side e st
      else e - uc_rr_mult c * entry_risk side e st)"

lemma entry_risk_sign: "entry_risk side e st \<le> 0 \<longleftrightarrow> \<not> (if side = BUY then st < e else e < st)"
  by (simp add: entry_risk_def dec_simps not_less_dec)

text \<open>The four outcomes of a fill.\<close>

lemma on_entry_filled_cases:
  assumes "two_tranches s"
  obtains (no_signal) "ts_side s = None \<or> ts_pending_stop s = None"
      "on_entry_filled s e i c q ref = Inl (ValueError ''cannot fill an entry without a pending signal'')"
  | (no_entry) "pending_tranches s = []"
      "on_entry_filled s e i c q ref = Inl (ValueError ''no tranche is awaiting entry'')"
  | (gap) side st r where "ts_side s = Some side" "ts_pending_stop s = Some st" "pending_tranches s \<noteq> []"
      "entry_gap_reason e ref c = Inr (Some r)"
      "on_entry_filled s e i c q ref = Inr (abort_entry (record_quantity s q) r)"
  | (invalid) side st where "ts_side s = Some side" "ts_pending_stop s = Some st" "pending_tranches s \<noteq> []"
      "entry_gap_reason e ref c = Inr None" "\<not> (if side = BUY then st < e else e < st)"
      "on_entry_filled s e i c q ref = Inr (abort_entry (record_quantity s q) INVALID_RISK)"
  | (filled) side st where "ts_side s = Some side" "ts_pending_stop s = Some st" "pending_tranches s \<noteq> []"
      "entry_gap_reason e ref c = Inr None" "if side = BUY then st < e else e < st"
      "on_entry_filled s e i c q ref = Inr
         \<lparr>td_state = revise (\<lambda>t. tr_state t = PENDING_ENTRY)
            (filled_tranche e i st (entry_target side e st c)) (record_quantity s q),
          td_actions = map (bracket_action st (entry_target side e st c))
            (pending_tranches (record_quantity s q))\<rparr>"
proof -
  have two: "two_tranches (record_quantity s q)"
    using assms by (cases q) (simp_all add: record_quantity_eq record_quantity_def [of s None])
  obtain g where g: "entry_gap_reason e ref c = Inr g" using entry_gap_total by blast
  show thesis
  proof (cases "ts_side s = None \<or> ts_pending_stop s = None")
    case True
    then show thesis by (intro no_signal) (auto simp: on_entry_filled_def split: option.split)
  next
    case False
    then obtain side st where side: "ts_side s = Some side" "ts_pending_stop s = Some st" by auto
    show thesis
    proof (cases "pending_tranches s = []")
      case True
      with side show thesis by (intro no_entry) (simp_all add: on_entry_filled_def)
    next
      case False
      note run = on_entry_filled_def Let_def side False g fill_all [OF two]
        entry_risk_def [symmetric] entry_target_def [symmetric]
      show thesis
      proof (cases g)
        case (Some r)
        show thesis by (rule gap [OF side False]) (simp_all add: run Some)
      next
        case None
        note sign = entry_risk_sign [of side e st]
        show thesis
        proof (cases "entry_risk side e st \<le> 0")
          case True
          with sign show thesis
            by (intro invalid [OF side False]) (simp_all add: run None)
        next
          case False
          with sign show thesis
            by (intro filled [OF side \<open>pending_tranches s \<noteq> []\<close>]) (simp_all add: run None)
        qed
      qed
    qed
  qed
qed

lemma filled_fits:
  assumes "tranche_fits s t" "tr_state t = PENDING_ENTRY" "ts_side s = Some side"
    "if side = BUY then st < e else e < st"
  shows "tranche_fits s (filled_tranche e i st tp t)"
  using assms by (cases "tr_role t") (auto simp: tranche_fits_def tranche_ok_def filled_tranche_def)

lemma on_entry_filled_inv:
  assumes "manager_inv s" "on_entry_filled s e i c q ref = Inr d"
  shows "manager_inv (td_state d)"
proof -
  have two: "two_tranches s" using assms(1) by (rule inv_two)
  have inv: "manager_inv (record_quantity s q)" using assms(1) by (rule record_quantity_inv)
  show ?thesis
    using two
  proof (cases rule: on_entry_filled_cases [where e = e and i = i and c = c and q = q and ref = ref])
    case (filled side st)
    have "manager_inv (revise (\<lambda>t. tr_state t = PENDING_ENTRY)
        (filled_tranche e i st (entry_target side e st c)) (record_quantity s q))"
      using inv filled two
      by (intro revise_inv filled_fits) (simp_all add: filled_tranche_def)
    with filled assms(2) show ?thesis by simp
  qed (use assms(2) abort_entry_inv [OF inv] in auto)
qed

section \<open>The machine\<close>

inductive manager_step :: "ut_config \<Rightarrow> trade_state \<Rightarrow> trade_state \<Rightarrow> bool" for c where
  bar_closed: "manager_step c s (td_state (on_bar_close s b sig c))"
| entry_filled: "on_entry_filled s e i c q ref = Inr d \<Longrightarrow> manager_step c s (td_state d)"
| tranche_closed: "manager_step c s (td_state (on_tranche_closed s role r))"

inductive_cases manager_stepE: "manager_step c s t"

interpretation manager: safe_machine "\<lambda>s. s = TradeState" "manager_step c" manager_inv for c
proof
  show "s = TradeState \<Longrightarrow> manager_inv s" for s by (simp add: manager_inv_initial)
  show "manager_inv s \<Longrightarrow> manager_step c s t \<Longrightarrow> manager_inv t" for c s t
    by (erule manager_stepE) (auto intro: on_bar_close_inv on_entry_filled_inv on_tranche_closed_inv)
qed

section \<open>The position book\<close>

text \<open>
  What a broker that executes the actions in order holds per role. An action is legal only
  where it makes sense: nothing is opened twice, nothing absent is closed or protected.
\<close>

type_synonym book = "tranche_role \<Rightarrow> order_side option"

definition book_of :: "trade_state \<Rightarrow> book" where
  "book_of s role =
     (case tranche_of s role of None \<Rightarrow> None | Some t \<Rightarrow> if live t then Some (tr_side t) else None)"

definition perform :: "trade_action \<Rightarrow> book \<Rightarrow> book option" where
  "perform a k =
     (case ta_kind a of
        OPEN_MARKET \<Rightarrow>
          (case (ta_side a, k (ta_role a)) of
             (Some side, None) \<Rightarrow> Some (k(ta_role a \<mapsto> side))
           | _ \<Rightarrow> None)
      | CLOSE_MARKET \<Rightarrow>
          if k (ta_role a) \<noteq> None \<and> ta_reason a \<noteq> None then Some (k(ta_role a := None)) else None
      | SET_BRACKETS \<Rightarrow> if k (ta_role a) \<noteq> None \<and> ta_stop_loss a \<noteq> None then Some k else None
      | MOVE_STOP \<Rightarrow> if k (ta_role a) \<noteq> None \<and> ta_stop_loss a \<noteq> None then Some k else None)"

fun perform_all :: "trade_action list \<Rightarrow> book \<Rightarrow> book option" where
  "perform_all [] k = Some k"
| "perform_all (a # as) k = (case perform a k of None \<Rightarrow> None | Some k' \<Rightarrow> perform_all as k')"

lemma perform_all_append:
  "perform_all (as @ bs) k = (case perform_all as k of None \<Rightarrow> None | Some k' \<Rightarrow> perform_all bs k')"
  by (induction as arbitrary: k) (simp_all split: option.split)

lemma two_cases:
  assumes "two_tranches s"
  obtains (none) "ts_tranches s = []" "book_of s = (\<lambda>_. None)"
  | (two) a b where "ts_tranches s = [a, b]" "tr_role a = T1" "tr_role b = T2"
      "tranche_of s T1 = Some a" "tranche_of s T2 = Some b"
      "book_of s = (\<lambda>r. if r = T1 then if live a then Some (tr_side a) else None
                        else if live b then Some (tr_side b) else None)"
proof (cases "ts_tranches s = []")
  case True
  then show thesis by (intro none) (simp_all add: fun_eq_iff book_of_def tranche_of_def)
next
  case False
  then obtain a b where l: "ts_tranches s = [a, b]" "tr_role a = T1" "tr_role b = T2"
    using assms by (auto simp: two_tranches_def)
  have r: "r = T1 \<or> r = T2" for r by (cases r) simp_all
  show thesis
    by (rule two [OF l]) (use l r in \<open>auto simp: fun_eq_iff book_of_def tranche_of_def\<close>)
qed

lemma in_tranches:
  assumes "two_tranches s" "t \<in> set (ts_tranches s)"
  shows "tranche_of s (tr_role t) = Some t"
  using assms(1) by (cases rule: two_cases) (use assms(2) in auto)

lemma role_T2 [simp]: "r \<noteq> T1 \<longleftrightarrow> r = T2"
  by (cases r) simp_all

lemma live_simps [simp]: "\<not> live (closed_as t r)" "live (t\<lparr>tr_quantity := q\<rparr>) = live t"
  "live (t\<lparr>tr_stop_loss := x, tr_breakeven_moved := y\<rparr>) = live t"
  "live (Tranche role side PENDING_ENTRY)"
  by (simp_all add: live_def Tranche_def)

lemma perform_close [simp]:
  "perform (close_action t r) k = (if k (tr_role t) = None then None else Some (k(tr_role t := None)))"
  by (simp add: perform_def close_action_def TradeAction_def)

lemma perform_open [simp]:
  "perform (open_action side t) k = (if k (tr_role t) = None then Some (k(tr_role t \<mapsto> side)) else None)"
  by (simp add: perform_def open_action_def TradeAction_def split: option.split)

lemma perform_bracket [simp]:
  "perform (bracket_action st tp t) k = (if k (tr_role t) = None then None else Some k)"
  by (simp add: perform_def bracket_action_def TradeAction_def)

lemma perform_closes:
  assumes "two_tranches s" "\<And>t. P t \<Longrightarrow> live t"
  shows "perform_all (map (\<lambda>t. close_action t r) (filter P (ts_tranches s))) (book_of s) =
    Some (book_of (revise P (\<lambda>t. closed_as t r) s))"
proof -
  have two: "two_tranches (revise P (\<lambda>t. closed_as t r) s)" using assms(1) by simp
  show ?thesis
    using assms(1)
  proof (cases rule: two_cases)
    case none
    then show ?thesis by (simp add: fun_eq_iff book_of_def tranche_of_def revise_def)
  next
    case (two a b)
    then show ?thesis
      using assms(2) by (auto simp: fun_eq_iff book_of_def tranche_of_def revise_def)
  qed
qed

lemma book_replace_same:
  assumes "tranche_of s (tr_role u) = Some t" "tr_side u = tr_side t" "live u = live t" "two_tranches s"
  shows "book_of (replace_tranche s u) = book_of s"
  using assms(4)
proof (cases rule: two_cases)
  case (two a b)
  then show ?thesis
    using assms(1-3) by (cases "tr_role u") (auto simp: fun_eq_iff book_of_def tranche_of_def replace_tranche_def)
qed (simp add: fun_eq_iff book_of_def tranche_of_def replace_tranche_def)

lemma book_replace_closed:
  assumes "tranche_of s role = Some t" "two_tranches s"
  shows "book_of (replace_tranche s (closed_as t r)) = (book_of s)(role := None)"
  using assms(2)
proof (cases rule: two_cases)
  case (two a b)
  then show ?thesis
    using assms(1) by (cases role) (auto simp: fun_eq_iff book_of_def tranche_of_def replace_tranche_def)
qed (use assms(1) in \<open>simp add: tranche_of_def\<close>)

lemma book_initial [simp]: "book_of TradeState = (\<lambda>_. None)"
  by (simp add: fun_eq_iff book_of_def tranche_of_def TradeState_def)

lemma book_flatten [simp]: "book_of (flatten_if_done s) = book_of s"
proof (cases "is_flat s")
  case True
  have "book_of s r = None" for r
  proof (cases "tranche_of s r")
    case (Some t)
    then have "t \<in> set (ts_tranches s)" by (simp add: tranche_of_SomeD)
    then have "\<not> live t" using True by (auto simp: is_flat_def live_tranches_eq filter_empty_conv)
    with Some show ?thesis by (simp add: book_of_def)
  qed (simp add: book_of_def)
  with True show ?thesis
    by (simp add: fun_eq_iff flatten_if_done_def)
qed (simp add: flatten_if_done_def)

lemma book_live: "tranche_of s role = Some t \<Longrightarrow> live t \<Longrightarrow> book_of s role = Some (tr_side t)"
  by (simp add: book_of_def)

lemma apply_breakeven_book:
  assumes "two_tranches s"
  shows "perform_all (snd (apply_breakeven s b sig)) (book_of s) = Some (book_of (fst (apply_breakeven s b sig)))"
proof (cases "snd (apply_breakeven s b sig) = []")
  case True
  then have "fst (apply_breakeven s b sig) = s"
    by (auto simp: apply_breakeven_def split: option.splits)
  with True show ?thesis by simp
next
  case False
  then obtain t e where "tranche_of s T2 = Some t" "tr_state t = OPEN"
    "apply_breakeven s b sig = (replace_tranche s (t\<lparr>tr_stop_loss := Some e, tr_breakeven_moved := True\<rparr>),
       [(TradeAction MOVE_STOP T2)\<lparr>ta_stop_loss := Some e\<rparr>])"
    by (auto simp: apply_breakeven_def split: option.splits if_splits)
  moreover from this have "live t" "tr_role t = T2" by (auto simp: live_def dest: tranche_of_SomeD)
  ultimately show ?thesis
    using book_replace_same [of s "t\<lparr>tr_stop_loss := Some e, tr_breakeven_moved := True\<rparr>" t] assms
    by (simp add: perform_def TradeAction_def book_live)
qed

lemma apply_hull_exit_book:
  assumes "two_tranches s"
  shows "perform_all (snd (apply_hull_exit s sig c)) (book_of s) = Some (book_of (fst (apply_hull_exit s sig c)))"
proof (cases "snd (apply_hull_exit s sig c) = []")
  case True
  then have "fst (apply_hull_exit s sig c) = s"
    by (auto simp: apply_hull_exit_def Let_def split: option.splits)
  with True show ?thesis by simp
next
  case False
  then obtain t where "tranche_of s T2 = Some t" "tr_state t = OPEN"
    "apply_hull_exit s sig c = (replace_tranche s (closed_as t HULL_FLIP),
       [(TradeAction CLOSE_MARKET T2)\<lparr>ta_quantity := tr_quantity t, ta_reason := Some HULL_FLIP\<rparr>])"
    by (auto simp: apply_hull_exit_def Let_def split: option.splits if_splits)
  with assms show ?thesis
    by (simp add: perform_def TradeAction_def book_live live_def book_replace_closed)
qed

lemma is_flat_book:
  assumes "two_tranches s"
  shows "is_flat s \<longleftrightarrow> book_of s = (\<lambda>_. None)"
  using assms
  by (cases rule: two_cases) (auto simp: is_flat_def live_tranches_eq fun_eq_iff)

lemma enter_side_book:
  assumes "two_tranches s"
  shows "perform_all (snd (enter_side s b side stop)) (book_of s) = Some (book_of (fst (enter_side s b side stop)))"
proof -
  let ?P = "\<lambda>t. live t \<and> tr_side t \<noteq> side"
  let ?s = "revise ?P (\<lambda>t. closed_as t REVERSAL) s"
  have closes: "perform_all (map (\<lambda>t. close_action t REVERSAL) (filter ?P (ts_tranches s))) (book_of s) =
      Some (book_of ?s)"
    by (rule perform_closes) (simp_all add: assms)
  show ?thesis
  proof (cases "is_flat ?s \<and> stop \<noteq> None")
    case True
    then have "book_of ?s = (\<lambda>_. None)" using is_flat_book [of ?s] assms by simp
    with True closes show ?thesis
      by (auto simp: enter_side_eq [OF assms] Let_def perform_all_append fun_eq_iff book_of_def
          tranche_of_def Tranche_def live_def)
  next
    case False
    with closes show ?thesis by (auto simp: enter_side_eq [OF assms] Let_def)
  qed
qed

lemma apply_signal_book:
  assumes "two_tranches s"
  shows "perform_all (snd (apply_signal s b sig)) (book_of s) = Some (book_of (fst (apply_signal s b sig)))"
  using enter_side_book [OF assms] by (simp add: apply_signal_def)

lemma on_bar_close_book:
  assumes "manager_inv s"
  shows "perform_all (td_actions (on_bar_close s b sig c)) (book_of s) =
    Some (book_of (td_state (on_bar_close s b sig c)))"
proof -
  obtain s1 a1 where 1: "apply_breakeven s b sig = (s1, a1)" by (rule prod.exhaust)
  obtain s2 a2 where 2: "apply_hull_exit s1 sig c = (s2, a2)" by (rule prod.exhaust)
  obtain s3 a3 where 3: "apply_signal s2 b sig = (s3, a3)" by (rule prod.exhaust)
  have "manager_inv s1" using apply_breakeven_inv [OF assms, of b sig] 1 by simp
  moreover from this have "manager_inv s2" using apply_hull_exit_inv [of s1 sig c] 2 by simp
  ultimately show ?thesis
    using apply_breakeven_book [of s b sig] apply_hull_exit_book [of s1 sig c]
      apply_signal_book [of s2 b sig] assms 1 2 3
    by (simp add: on_bar_close_def perform_all_append inv_two)
qed

lemma perform_brackets:
  "(\<forall>t \<in> set ts. k (tr_role t) \<noteq> None) \<Longrightarrow> perform_all (map (bracket_action st tp) ts) k = Some k"
  by (induction ts) auto

lemma book_revise_same:
  assumes "two_tranches s" "\<And>t. P t \<Longrightarrow> tr_role (g t) = tr_role t \<and> tr_side (g t) = tr_side t \<and> live (g t) = live t"
  shows "book_of (revise P g s) = book_of s"
  using assms(1)
proof (cases rule: two_cases)
  case (two a b)
  then show ?thesis
    using assms(2) by (auto simp: fun_eq_iff book_of_def tranche_of_def revise_def)
qed (simp add: fun_eq_iff book_of_def tranche_of_def revise_def)

lemma record_quantity_book: "two_tranches s \<Longrightarrow> book_of (record_quantity s q) = book_of s"
  by (cases q) (simp_all add: record_quantity_eq record_quantity_def [of s None] book_revise_same)

lemma in_book: "two_tranches s \<Longrightarrow> t \<in> set (ts_tranches s) \<Longrightarrow> live t \<Longrightarrow> book_of s (tr_role t) = Some (tr_side t)"
  by (cases rule: two_cases [of s]) auto

lemma on_entry_filled_book:
  assumes "manager_inv s" "on_entry_filled s e i c q ref = Inr d"
  shows "perform_all (td_actions d) (book_of s) = Some (book_of (td_state d))"
proof -
  have two: "two_tranches s" using assms(1) by (rule inv_two)
  have two': "two_tranches (record_quantity s q)" using record_quantity_inv [OF assms(1)] by (rule inv_two)
  have abort: "perform_all (td_actions (abort_entry (record_quantity s q) r)) (book_of s) =
      Some (book_of (td_state (abort_entry (record_quantity s q) r)))" for r
    using perform_closes [OF two', of live r]
    by (simp add: abort_entry_eq [OF two'] live_tranches_eq record_quantity_book [OF two])
  show ?thesis
    using two
  proof (cases rule: on_entry_filled_cases [where e = e and i = i and c = c and q = q and ref = ref])
    case (filled side st)
    have p: "\<forall>t \<in> set (pending_tranches (record_quantity s q)). book_of s (tr_role t) \<noteq> None"
      using in_book [OF two'] by (auto simp: pending_tranches_def live_def record_quantity_book [OF two])
    have "book_of (revise (\<lambda>t. tr_state t = PENDING_ENTRY)
        (filled_tranche e i st (entry_target side e st c)) (record_quantity s q)) = book_of s"
      by (subst book_revise_same [OF two']) (simp_all add: filled_tranche_def live_def record_quantity_book [OF two])
    with filled assms(2) perform_brackets [OF p] show ?thesis by auto
  qed (use assms(2) abort in auto)
qed

lemma on_tranche_closed_book:
  assumes "manager_inv s"
  shows "book_of (td_state (on_tranche_closed s role r)) = (book_of s)(role := None)"
proof (cases "tranche_of s role")
  case None
  then show ?thesis by (auto simp: on_tranche_closed_def fun_eq_iff book_of_def)
next
  case (Some t)
  then show ?thesis
    using book_replace_closed [OF Some inv_two [OF assms]]
    by (auto simp: on_tranche_closed_def fun_eq_iff book_of_def [of s] live_def)
qed

section \<open>The rules of a bar close\<close>

lemma signal_action_kinds:
  assumes "two_tranches s"
  shows "a \<in> set (snd (apply_signal s b sig)) \<Longrightarrow>
    ta_kind a = OPEN_MARKET \<or>
    (\<exists>t. a = close_action t REVERSAL \<and> t \<in> set (ts_tranches s) \<and> live t \<and>
       (bs_buy sig \<and> tr_side t \<noteq> BUY \<or> \<not> bs_buy sig \<and> bs_sell sig \<and> tr_side t \<noteq> SELL))"
  by (auto simp: apply_signal_def enter_side_eq [OF assms] Let_def open_action_def TradeAction_def
      split: if_splits)

lemma hull_actions:
  "a \<in> set (snd (apply_hull_exit s sig c)) \<longleftrightarrow>
    (\<exists>t. tranche_of s T2 = Some t \<and> tr_state t = OPEN \<and> uc_use_hull_exit c \<and>
       (uc_only_after_be c \<longrightarrow> tr_breakeven_moved t) \<and>
       (if tr_side t = BUY then bs_hull_flip_down sig else bs_hull_flip_up sig) \<and>
       a = close_action t HULL_FLIP)"
proof (cases "tranche_of s T2")
  case (Some t)
  then have "tr_role t = T2" by (simp add: tranche_of_SomeD)
  with Some show ?thesis by (auto simp: apply_hull_exit_def Let_def close_action_def)
qed (simp add: apply_hull_exit_def)

definition breakeven_due :: "trade_state \<Rightarrow> bar \<Rightarrow> bar_signal \<Rightarrow> dec \<Rightarrow> bool" where
  "breakeven_due s b sig entry \<longleftrightarrow>
     (\<exists>fixed runner target i. tranche_of s T1 = Some fixed \<and> tranche_of s T2 = Some runner \<and>
        tr_state runner = OPEN \<and> \<not> tr_breakeven_moved runner \<and> tr_take_profit fixed = Some target \<and>
        tr_entry_price runner = Some entry \<and> tr_entry_bar_index runner = Some i \<and> i < bs_index sig \<and>
        (if tr_side runner = BUY then target \<le> ba_high b else ba_low b \<le> target))"

lemma apply_breakeven_due:
  assumes "breakeven_due s b sig e"
  shows "\<exists>t. tranche_of s T2 = Some t \<and> tr_state t = OPEN \<and>
    apply_breakeven s b sig = (replace_tranche s (t\<lparr>tr_stop_loss := Some e, tr_breakeven_moved := True\<rparr>),
      [(TradeAction MOVE_STOP T2)\<lparr>ta_stop_loss := Some e\<rparr>])"
proof -
  from assms obtain f t g i where "tranche_of s T1 = Some f" "tranche_of s T2 = Some t" "tr_state t = OPEN"
    "\<not> tr_breakeven_moved t" "tr_take_profit f = Some g" "tr_entry_price t = Some e"
    "tr_entry_bar_index t = Some i" "i < bs_index sig"
    "if tr_side t = BUY then g \<le> ba_high b else ba_low b \<le> g"
    unfolding breakeven_due_def by blast
  then show ?thesis by (simp add: apply_breakeven_def touched_def split: if_splits)
qed

lemma apply_breakeven_not_due:
  assumes "\<And>e. \<not> breakeven_due s b sig e"
  shows "apply_breakeven s b sig = (s, [])"
proof (rule ccontr)
  assume "apply_breakeven s b sig \<noteq> (s, [])"
  then obtain f t g e i where "tranche_of s T1 = Some f" "tranche_of s T2 = Some t" "tr_state t = OPEN"
    "\<not> tr_breakeven_moved t" "tr_take_profit f = Some g" "tr_entry_price t = Some e"
    "tr_entry_bar_index t = Some i" "i < bs_index sig" "touched (tr_side t) g b"
    by (auto simp: apply_breakeven_def not_le split: option.splits if_splits)
  then have "breakeven_due s b sig e" by (auto simp: breakeven_due_def touched_def)
  with assms show False by blast
qed

lemma breakeven_due_unique: "breakeven_due s b sig e \<Longrightarrow> breakeven_due s b sig e' \<Longrightarrow> e = e'"
  by (auto simp: breakeven_due_def)

lemma breakeven_actions:
  "a \<in> set (snd (apply_breakeven s b sig)) \<longleftrightarrow>
     (\<exists>e. breakeven_due s b sig e \<and> a = (TradeAction MOVE_STOP T2)\<lparr>ta_stop_loss := Some e\<rparr>)"
proof (cases "\<exists>e. breakeven_due s b sig e")
  case True
  then obtain e where e: "breakeven_due s b sig e" ..
  then have "snd (apply_breakeven s b sig) = [(TradeAction MOVE_STOP T2)\<lparr>ta_stop_loss := Some e\<rparr>]"
    using apply_breakeven_due [OF e] by auto
  then show ?thesis using e breakeven_due_unique by (metis empty_iff empty_set set_ConsD list.set_intros(1))
qed (simp add: apply_breakeven_not_due)

lemma breakeven_state:
  "fst (apply_breakeven s b sig) = s \<or>
    (\<exists>t e. tranche_of s T2 = Some t \<and> tr_role t = T2 \<and> tr_state t = OPEN \<and> breakeven_due s b sig e \<and>
      fst (apply_breakeven s b sig) =
        replace_tranche s (t\<lparr>tr_stop_loss := Some e, tr_breakeven_moved := True\<rparr>))"
proof (cases "\<exists>e. breakeven_due s b sig e")
  case True
  then obtain e where e: "breakeven_due s b sig e" ..
  from apply_breakeven_due [OF e] e show ?thesis by (metis fst_conv tranche_of_SomeD)
qed (simp add: apply_breakeven_not_due)

lemma on_bar_close_actions:
  "td_actions (on_bar_close s b sig c) = snd (apply_breakeven s b sig) @
     snd (apply_hull_exit (fst (apply_breakeven s b sig)) sig c) @
     snd (apply_signal (fst (apply_hull_exit (fst (apply_breakeven s b sig)) sig c)) b sig)"
  by (simp add: on_bar_close_def split: prod.split)

section \<open>The outcome of a fill\<close>

lemma revise_flat: "is_flat (revise live (\<lambda>t. closed_as t r) s)"
  by (auto simp: is_flat_def live_tranches_eq filter_empty_conv revise_def)

lemma abort_flattens: "two_tranches s \<Longrightarrow> td_state (abort_entry s r) = TradeState"
  by (simp add: abort_entry_eq flatten_if_done_def revise_flat)

lemma tranche_of_revise:
  assumes "two_tranches s" "\<And>t. tr_role (g t) = tr_role t" "t \<in> set (ts_tranches s)"
  shows "tranche_of (revise P g s) (tr_role t) = Some (if P t then g t else t)"
  using in_tranches [OF revise_two [OF assms(2,1)], of "if P t then g t else t" P] assms(2,3)
  by (auto simp: revise_def split: if_splits)

lemma in_record_quantity:
  assumes "two_tranches s" "t \<in> set (pending_tranches s)"
  shows "(case q of None \<Rightarrow> t | Some x \<Rightarrow> t\<lparr>tr_quantity := Some x\<rparr>) \<in> set (pending_tranches (record_quantity s q))"
  using assms(2)
  by (cases q) (auto simp: record_quantity_eq [OF assms(1)] record_quantity_def [of s None]
      pending_tranches_def revise_def)

definition sample_bar :: bar where
  "sample_bar = \<lparr>ba_symbol = ''XAUUSD'', ba_timeframe = ''H1'', ba_open_time = Aware 0 0,
     ba_open = dint 2000, ba_high = dint 2012, ba_low = dint 1999, ba_close = dint 2010,
     ba_tick_volume = 10, ba_spread = 1\<rparr>"

definition quiet_signal :: "int \<Rightarrow> bar_signal" where
  "quiet_signal n = \<lparr>bs_index = n, bs_open_time = Aware 0 0, bs_buy = False, bs_sell = False,
     bs_hull_green = None, bs_hull_flip_down = False, bs_hull_flip_up = False,
     bs_trailing_stop = None, bs_stop_low = Some (dint 1990), bs_stop_high = Some (dint 2015)\<rparr>"

text \<open>A long entry announced at bar 3 and filled at bar 4 at 2001: the target is 2012.\<close>

definition entered :: trade_state where
  "entered = td_state (on_bar_close TradeState sample_bar ((quiet_signal 3)\<lparr>bs_buy := True\<rparr>) default_ut_config)"

definition filled_long :: trade_state where
  "filled_long =
     (case on_entry_filled entered (dint 2001) 4 default_ut_config (Some (dint 1)) None of
        Inr d \<Rightarrow> td_state d | Inl _ \<Rightarrow> TradeState)"

lemma entered_reachable: "(manager_step default_ut_config)\<^sup>*\<^sup>* TradeState entered"
  unfolding entered_def by (rule r_into_rtranclp, rule bar_closed)

lemma filled_long_reachable: "(manager_step default_ut_config)\<^sup>*\<^sup>* TradeState filled_long"
proof (cases "on_entry_filled entered (dint 2001) 4 default_ut_config (Some (dint 1)) None")
  case (Inr d)
  show ?thesis
    unfolding filled_long_def Inr sum.case
    by (rule rtranclp.rtrancl_into_rtrancl [OF entered_reachable entry_filled [OF Inr]])
qed (simp add: filled_long_def)

lemma filled_long_inv: "manager_inv filled_long"
  by (rule manager.inv_reachable [OF refl filled_long_reachable])

lemma filled_long_eq:
  "map (\<lambda>t. (tr_role t, tr_state t, tr_entry_price t, tr_stop_loss t)) (ts_tranches filled_long) =
     [(T1, OPEN, Some (dint 2001), Some (dint 1990)), (T2, OPEN, Some (dint 2001), Some (dint 1990))]"
  by code_simp

section \<open>Properties\<close>

text \<open>C18: In every state the manager can reach, from the empty state and by any sequence of closed
  bars, fills and closings with any prices: there is at most one tranche per role, every live
  tranche is on the side of the state, and every open tranche has a stop loss strictly on the
  losing side of its entry price, or exactly at the entry price when it is the runner after its
  break-even move; only the first tranche has a take profit, and it has one as long as it is open.\<close>

theorem reachable_trades_protected:
  assumes "(manager_step c)\<^sup>*\<^sup>* TradeState s"
  shows "distinct (map tr_role (ts_tranches s)) \<and>
    (\<forall>t \<in> set (ts_tranches s).
       (tr_state t \<noteq> CLOSED \<longrightarrow> ts_side s = Some (tr_side t)) \<and>
       (tr_state t = OPEN \<longrightarrow>
          (\<exists>e st. tr_entry_price t = Some e \<and> tr_stop_loss t = Some st \<and>
             (if tr_breakeven_moved t then tr_role t = T2 \<and> st = e
              else if tr_side t = BUY then st < e else e < st)) \<and>
          (tr_take_profit t \<noteq> None \<longleftrightarrow> tr_role t = T1)))"
proof -
  have inv: "manager_inv s" using assms by (rule manager.inv_reachable [OF refl])
  then have "distinct (map tr_role (ts_tranches s))"
    by (cases rule: manager_inv_cases) simp_all
  moreover have "tranche_fits s t" if "t \<in> set (ts_tranches s)" for t
    using inv that by (simp add: manager_inv_def)
  moreover have "tr_role t = T1 \<or> tr_role t = T2" for t by (cases "tr_role t") simp_all
  ultimately show ?thesis
    unfolding tranche_fits_def tranche_ok_def by fastforce
qed

theorem reachable_trades_protected_witness:
  "distinct (map tr_role (ts_tranches filled_long)) \<and>
   (\<exists>t \<in> set (ts_tranches filled_long). tr_state t = OPEN)"
  using reachable_trades_protected [OF filled_long_reachable] filled_long_eq by auto

text \<open>C19: The actions of the manager and its state never drift apart: executed in order by a broker
  that holds the positions of the state, the actions of a bar close or of a fill are all legal (no
  second position is opened for a role, no absent one is closed or given levels) and leave exactly
  the positions of the new state; a confirmed closing removes the position of its role.\<close>

theorem actions_track_positions:
  assumes "manager_inv s"
  shows "perform_all (td_actions (on_bar_close s b sig c)) (book_of s) =
      Some (book_of (td_state (on_bar_close s b sig c))) \<and>
    (\<forall>d. on_entry_filled s e i c q ref = Inr d \<longrightarrow>
      perform_all (td_actions d) (book_of s) = Some (book_of (td_state d))) \<and>
    book_of (td_state (on_tranche_closed s role r)) = (book_of s)(role := None)"
  using on_bar_close_book on_entry_filled_book on_tranche_closed_book assms by blast

theorem actions_track_positions_witness:
  "perform_all (td_actions (on_bar_close filled_long sample_bar (quiet_signal 5) default_ut_config))
     (book_of filled_long) =
   Some (book_of (td_state (on_bar_close filled_long sample_bar (quiet_signal 5) default_ut_config)))"
  using actions_track_positions [OF filled_long_inv] by blast

text \<open>C20: The break-even rule: a bar close asks to move a stop exactly when the runner is open and was
  not moved before, the bar comes after its entry bar, and the bar reaches the take profit of the
  first tranche (its high for a long, its low for a short); the stop asked for is the runner's entry
  price.\<close>

theorem breakeven_rule:
  assumes "manager_inv s"
  shows "a \<in> set (td_actions (on_bar_close s b sig c)) \<and> ta_kind a = MOVE_STOP \<longleftrightarrow>
    (\<exists>entry. breakeven_due s b sig entry \<and> a = (TradeAction MOVE_STOP T2)\<lparr>ta_stop_loss := Some entry\<rparr>)"
proof -
  let ?s1 = "fst (apply_breakeven s b sig)"
  let ?s2 = "fst (apply_hull_exit ?s1 sig c)"
  have "two_tranches ?s2" using assms by (intro inv_two apply_hull_exit_inv apply_breakeven_inv)
  then have 3: "a \<in> set (snd (apply_signal ?s2 b sig)) \<Longrightarrow> ta_kind a \<noteq> MOVE_STOP"
    by (auto dest!: signal_action_kinds simp: close_action_def TradeAction_def)
  have 2: "a \<in> set (snd (apply_hull_exit ?s1 sig c)) \<Longrightarrow> ta_kind a \<noteq> MOVE_STOP"
    by (auto simp: hull_actions close_action_def TradeAction_def)
  show ?thesis
    unfolding on_bar_close_actions set_append Un_iff breakeven_actions [symmetric]
    using 2 3 by (auto simp: breakeven_actions TradeAction_def)
qed

theorem breakeven_rule_witness:
  "breakeven_due filled_long sample_bar (quiet_signal 5) (dint 2001) \<and>
   (\<forall>e. \<not> breakeven_due filled_long sample_bar (quiet_signal 4) e)"
proof -
  have "td_actions (on_bar_close filled_long sample_bar (quiet_signal 5) default_ut_config) =
      [(TradeAction MOVE_STOP T2)\<lparr>ta_stop_loss := Some (dint 2001)\<rparr>]"
    and "td_actions (on_bar_close filled_long sample_bar (quiet_signal 4) default_ut_config) = []"
    by code_simp+
  then show ?thesis
    using breakeven_rule [OF filled_long_inv, of "(TradeAction MOVE_STOP T2)\<lparr>ta_stop_loss := Some (dint 2001)\<rparr>"
        sample_bar "quiet_signal 5" default_ut_config]
      breakeven_rule [OF filled_long_inv, of _ sample_bar "quiet_signal 4" default_ut_config]
    by (auto simp: TradeAction_def)
qed

text \<open>A bar close closes positions for two reasons only. The Hull exit closes the runner, never
  the first tranche: it must be enabled, the colour must flip against the position, and where it
  is restricted to the time after break-even the stop was moved before or in this very bar. A
  reversal closes live tranches of the side opposite to the signal. The quantity is the tranche's.\<close>

lemma bar_close_closings:
  assumes "manager_inv s" "a \<in> set (td_actions (on_bar_close s b sig c))" "ta_kind a = CLOSE_MARKET"
  shows "\<exists>t. tranche_of s (ta_role a) = Some t \<and> live t \<and> ta_quantity a = tr_quantity t \<and>
    (ta_reason a = Some HULL_FLIP \<and> ta_role a = T2 \<and> tr_state t = OPEN \<and> uc_use_hull_exit c \<and>
       (uc_only_after_be c \<longrightarrow> tr_breakeven_moved t \<or> (\<exists>e. breakeven_due s b sig e)) \<and>
       (if tr_side t = BUY then bs_hull_flip_down sig else bs_hull_flip_up sig) \<or>
     ta_reason a = Some REVERSAL \<and>
       (if bs_buy sig then tr_side t = SELL else bs_sell sig \<and> tr_side t = BUY))"
proof -
  let ?s1 = "fst (apply_breakeven s b sig)"
  let ?s2 = "fst (apply_hull_exit ?s1 sig c)"
  have inv: "manager_inv ?s1" "manager_inv ?s2"
    using assms(1) by (simp_all add: apply_hull_exit_inv apply_breakeven_inv)
  have orig: "\<exists>t'. tranche_of s role = Some t' \<and> tr_state t' = tr_state t \<and> tr_side t' = tr_side t \<and>
      tr_quantity t' = tr_quantity t \<and>
      (tr_breakeven_moved t \<longrightarrow> tr_breakeven_moved t' \<or> (\<exists>e. breakeven_due s b sig e))"
    if "tranche_of ?s1 role = Some t" for role t
    using that breakeven_state [of s b sig]
    by (auto simp: tranche_of_replace split: if_splits)
  have orig2: "tranche_of ?s1 role = Some t" if "tranche_of ?s2 role = Some t" "live t" for role t
    using that by (auto simp: apply_hull_exit_def Let_def tranche_of_replace split: option.splits if_splits)
  from assms(2,3) consider "a \<in> set (snd (apply_hull_exit ?s1 sig c))"
    | "a \<in> set (snd (apply_signal ?s2 b sig))"
    by (auto simp: on_bar_close_actions breakeven_actions TradeAction_def)
  then show ?thesis
  proof cases
    case 1
    then obtain t where t: "tranche_of ?s1 T2 = Some t" "tr_state t = OPEN" "uc_use_hull_exit c"
      "uc_only_after_be c \<longrightarrow> tr_breakeven_moved t"
      "if tr_side t = BUY then bs_hull_flip_down sig else bs_hull_flip_up sig" "a = close_action t HULL_FLIP"
      by (auto simp: hull_actions)
    then have "tr_role t = T2" by (simp add: tranche_of_SomeD)
    with orig [OF t(1)] t(2-6) show ?thesis
      by (auto simp: close_action_def TradeAction_def live_def)
  next
    case 2
    from signal_action_kinds [OF inv_two [OF inv(2)] this] assms(3)
    obtain t where t: "a = close_action t REVERSAL" "t \<in> set (ts_tranches ?s2)" "live t"
      "bs_buy sig \<and> tr_side t \<noteq> BUY \<or> \<not> bs_buy sig \<and> bs_sell sig \<and> tr_side t \<noteq> SELL"
      by auto
    have "tranche_of ?s2 (tr_role t) = Some t"
      using in_tranches [OF inv_two [OF inv(2)] t(2)] .
    from orig [OF orig2 [OF this t(3)]] t show ?thesis
      by (cases "tr_side t") (auto simp: close_action_def TradeAction_def live_def)
  qed
qed

text \<open>C21: A fill has four outcomes. It raises exactly when no signal or no tranche is waiting. When the
  gap guard trips or the entry price is not on the winning side of the stop, every live tranche is
  closed, with the filled quantity, and the manager starts afresh. Otherwise no tranche waits any
  longer: each waiting one is open at the entry price with the filled quantity, the pending stop and,
  for the first tranche only, the target; and the same levels are ordered from the broker.\<close>

theorem entry_fill_outcome:
  assumes "manager_inv s"
  shows "case on_entry_filled s e i c q ref of
      Inl err \<Rightarrow> is_value_error err \<and>
        (ts_side s = None \<or> ts_pending_stop s = None \<or> pending_tranches s = [])
    | Inr d \<Rightarrow> \<exists>side st. ts_side s = Some side \<and> ts_pending_stop s = Some st \<and> pending_tranches s \<noteq> [] \<and>
        (if entry_gap_reason e ref c = Inr None \<and> (if side = BUY then st < e else e < st)
         then pending_tranches (td_state d) = [] \<and>
           (\<forall>t \<in> set (pending_tranches s). \<exists>t'. tranche_of (td_state d) (tr_role t) = Some t' \<and>
              tr_state t' = OPEN \<and> tr_entry_price t' = Some e \<and> tr_entry_bar_index t' = Some i \<and>
              tr_stop_loss t' = Some st \<and> (q \<noteq> None \<longrightarrow> tr_quantity t' = q) \<and>
              tr_take_profit t' = (if tr_role t = T1 then Some (entry_target side e st c) else None) \<and>
              (TradeAction SET_BRACKETS (tr_role t))\<lparr>ta_stop_loss := Some st,
                ta_take_profit := tr_take_profit t'\<rparr> \<in> set (td_actions d))
         else td_state d = TradeState \<and>
           (\<exists>r. td_actions d = map (\<lambda>t. close_action t r) (live_tranches (record_quantity s q))))"
proof -
  have two: "two_tranches s" using assms by (rule inv_two)
  have two': "two_tranches (record_quantity s q)" using record_quantity_inv [OF assms] by (rule inv_two)
  show ?thesis
    using two
  proof (cases rule: on_entry_filled_cases [where e = e and i = i and c = c and q = q and ref = ref])
    case (filled side st)
    let ?g = "filled_tranche e i st (entry_target side e st c)"
    let ?P = "\<lambda>t. tr_state t = PENDING_ENTRY"
    let ?s = "revise ?P ?g (record_quantity s q)"
    have none: "pending_tranches ?s = []"
      by (auto simp: pending_tranches_def filter_empty_conv revise_def filled_tranche_def)
    have one: "\<exists>t'. tranche_of ?s (tr_role t) = Some t' \<and>
              tr_state t' = OPEN \<and> tr_entry_price t' = Some e \<and> tr_entry_bar_index t' = Some i \<and>
              tr_stop_loss t' = Some st \<and> (q \<noteq> None \<longrightarrow> tr_quantity t' = q) \<and>
              tr_take_profit t' = (if tr_role t = T1 then Some (entry_target side e st c) else None) \<and>
              (TradeAction SET_BRACKETS (tr_role t))\<lparr>ta_stop_loss := Some st, ta_take_profit := tr_take_profit t'\<rparr>
                \<in> bracket_action st (entry_target side e st c) ` set (pending_tranches (record_quantity s q))"
      if "t \<in> set (pending_tranches s)" for t
    proof -
      let ?t = "case q of None \<Rightarrow> t | Some x \<Rightarrow> t\<lparr>tr_quantity := Some x\<rparr>"
      have t: "?t \<in> set (pending_tranches (record_quantity s q))" using in_record_quantity [OF two that] .
      then have "?t \<in> set (ts_tranches (record_quantity s q))" "?P ?t" by (simp_all add: pending_tranches_def)
      then have "tranche_of ?s (tr_role ?t) = Some (?g ?t)"
        using tranche_of_revise [OF two', of ?g ?t ?P] by (simp add: filled_tranche_def)
      moreover have "tr_role ?t = tr_role t" by (simp split: option.split)
      moreover have "bracket_action st (entry_target side e st c) ?t =
          (TradeAction SET_BRACKETS (tr_role t))\<lparr>ta_stop_loss := Some st, ta_take_profit := tr_take_profit (?g ?t)\<rparr>"
        by (simp add: bracket_action_def filled_tranche_def split: option.split)
      ultimately show ?thesis
        using imageI [OF t, of "bracket_action st (entry_target side e st c)"]
        by (intro exI [of _ "?g ?t"]) (auto simp: filled_tranche_def split: option.split)
    qed
    show ?thesis using filled none one by simp
  qed (use abort_flattens [OF two'] abort_entry_eq [OF two'] in \<open>auto simp: not_less\<close>)
qed

theorem entry_fill_outcome_witness:
  "\<exists>d. on_entry_filled entered (dint 1980) 4 default_ut_config None None = Inr d \<and> td_state d = TradeState"
proof -
  have inv: "manager_inv entered" by (rule manager.inv_reachable [OF refl entered_reachable])
  have "case on_entry_filled entered (dint 1980) 4 default_ut_config None None of Inl _ \<Rightarrow> False | Inr _ \<Rightarrow> True"
    and "ts_side entered = Some BUY" "ts_pending_stop entered = Some (dint 1990)"
    and "\<not> dint 1990 < dint 1980"
    by code_simp+
  then show ?thesis
    using entry_fill_outcome [OF inv, where e = "dint 1980" and i = 4 and c = default_ut_config and q = None and ref = None]
    by (auto split: sum.splits)
qed

end
