(* ===== verification/Backtest_Safety.thy ===== *)
theory Backtest_Safety
  imports Backtest Trade_Safety
begin

text \<open>
  What the simulation keeps: brackets, queued orders and open entries agree with the state of
  the trade manager at every bar, so that no run ends in an assertion; the account figures
  are those of the list of trades; exits come after their entries.
\<close>

declare map_of_eq_Some_iff [simp del] Some_eq_map_of_iff [simp del]

section \<open>One bracket on one bar\<close>

definition stop_touched :: "bracket \<Rightarrow> bar \<Rightarrow> bool" where
  "stop_touched k b \<longleftrightarrow>
     (if bc_side k = BUY then ba_low b \<le> bc_stop_loss k else bc_stop_loss k \<le> ba_high b)"

definition target_touched :: "bracket \<Rightarrow> bar \<Rightarrow> dec \<Rightarrow> bool" where
  "target_touched k b t \<longleftrightarrow> bc_take_profit k = Some t \<and>
     (if bc_side k = BUY then t \<le> ba_high b else ba_low b \<le> t)"

lemma bracket_exit_stop:
  assumes "stop_touched k b" "ba_low b \<le> ba_open b" "ba_open b \<le> ba_high b"
  obtains p where "bracket_exit k b = Some (p, if bc_breakeven k then BREAKEVEN_STOP else STOP_LOSS)"
    "ba_low b \<le> p" "p \<le> ba_high b" "p = bc_stop_loss k \<or> p = ba_open b"
    "if bc_side k = BUY then p \<le> bc_stop_loss k else bc_stop_loss k \<le> p"
proof -
  let ?p = "if reaches (bc_side k \<noteq> BUY) (ba_open b) (bc_stop_loss k) then ba_open b else bc_stop_loss k"
  have "bracket_exit k b = Some (?p, if bc_breakeven k then BREAKEVEN_STOP else STOP_LOSS)"
    using assms(1) by (simp add: bracket_exit_def stop_touched_def reaches_def Let_def)
  moreover have "ba_low b \<le> ?p \<and> ?p \<le> ba_high b \<and>
      (if bc_side k = BUY then ?p \<le> bc_stop_loss k else bc_stop_loss k \<le> ?p)"
    using assms by (cases "bc_side k = BUY") (auto simp: stop_touched_def reaches_def dec_order)
  ultimately show thesis using that [of ?p] by auto
qed

lemma bracket_exit_target:
  assumes "\<not> stop_touched k b" "bc_take_profit k = Some t" "ba_low b \<le> ba_open b" "ba_open b \<le> ba_high b"
  shows "if target_touched k b t
    then \<exists>p. bracket_exit k b = Some (p, TAKE_PROFIT) \<and> ba_low b \<le> p \<and> p \<le> ba_high b \<and>
      (p = t \<or> p = ba_open b) \<and> (if bc_side k = BUY then t \<le> p else p \<le> t)
    else bracket_exit k b = None"
proof -
  let ?p = "if reaches (bc_side k = BUY) (ba_open b) t then ba_open b else t"
  have "bracket_exit k b = (if target_touched k b t then Some (?p, TAKE_PROFIT) else None)"
    using assms(1,2)
    by (cases "bc_side k = BUY")
      (simp_all add: bracket_exit_def stop_touched_def target_touched_def reaches_def Let_def)
  moreover have "target_touched k b t \<Longrightarrow> ba_low b \<le> ?p \<and> ?p \<le> ba_high b \<and>
      (if bc_side k = BUY then t \<le> ?p else ?p \<le> t)"
    using assms by (cases "bc_side k = BUY") (auto simp: target_touched_def reaches_def dec_order)
  ultimately show ?thesis by auto
qed

lemma bracket_exit_untouched:
  "\<not> stop_touched k b \<Longrightarrow> bc_take_profit k = None \<Longrightarrow> bracket_exit k b = None"
  by (cases "bc_side k = BUY") (simp_all add: bracket_exit_def stop_touched_def reaches_def Let_def)

section \<open>The account\<close>

text \<open>Equity, its peak, the drawdown and the ruin are a function of the trades.\<close>

definition account :: "dec \<Rightarrow> dec \<Rightarrow> backtest_trade list \<Rightarrow> sim" where
  "account rate e0 trades = foldl (book_trade rate) (initial_sim e0) trades"

definition equity_after :: "dec \<Rightarrow> dec \<Rightarrow> backtest_trade list \<Rightarrow> dec" where
  "equity_after rate e0 trades = foldl (\<lambda>e t. e + points t * bt_quantity t * rate) e0 trades"

definition peak_after :: "dec \<Rightarrow> dec \<Rightarrow> backtest_trade list \<Rightarrow> dec" where
  "peak_after rate e0 trades = sm_peak_equity (account rate e0 trades)"

definition books :: "dec \<Rightarrow> dec \<Rightarrow> sim \<Rightarrow> bool" where
  "books rate e0 s \<longleftrightarrow> (let a = account rate e0 (sm_trades s) in
     sm_equity s = sm_equity a \<and> sm_peak_equity s = sm_peak_equity a \<and>
     sm_max_drawdown s = sm_max_drawdown a \<and> sm_ruined s = sm_ruined a)"

lemma account_snoc: "account rate e0 (ts @ [t]) = book_trade rate (account rate e0 ts) t"
  by (simp add: account_def)

lemma account_equity: "sm_equity (account rate e0 ts) = equity_after rate e0 ts"
  by (induction ts rule: rev_induct)
    (simp_all add: account_snoc book_trade_def Let_def equity_after_def account_def initial_sim_def)

lemma books_trade: "books rate e0 s \<Longrightarrow> books rate e0 (book_trade rate s t)"
  by (simp add: books_def Let_def account_snoc book_trade_def)

lemma books_initial: "books rate e0 (initial_sim e0)"
  by (simp add: books_def account_def initial_sim_def)

text \<open>The figures in terms of the equities after each trade.\<close>

lemma account_ruined:
  "sm_ruined (account rate e0 ts) \<longleftrightarrow> (\<exists>n < length ts. equity_after rate e0 (take (Suc n) ts) \<le> 0)"
proof (induction ts rule: rev_induct)
  case Nil
  then show ?case by (simp add: account_def initial_sim_def)
next
  case (snoc t ts)
  have "sm_equity (book_trade rate (account rate e0 ts) t) = equity_after rate e0 (ts @ [t])"
    by (simp flip: account_snoc add: account_equity)
  then have "sm_ruined (account rate e0 (ts @ [t])) \<longleftrightarrow>
      equity_after rate e0 (ts @ [t]) \<le> 0 \<or> sm_ruined (account rate e0 ts)"
    by (simp add: account_snoc) (simp add: book_trade_def Let_def)
  then show ?case using snoc by (auto simp: less_Suc_eq)
qed

lemma account_peak:
  "(\<forall>n \<le> length ts. equity_after rate e0 (take n ts) \<le> sm_peak_equity (account rate e0 ts)) \<and>
   (\<exists>n \<le> length ts. sm_peak_equity (account rate e0 ts) = equity_after rate e0 (take n ts))"
proof (induction ts rule: rev_induct)
  case Nil
  then show ?case by (simp add: account_def initial_sim_def equity_after_def dec_order)
next
  case (snoc t ts)
  let ?a = "account rate e0 ts" and ?e = "equity_after rate e0 (ts @ [t])"
  have peak: "sm_peak_equity (account rate e0 (ts @ [t])) = pymax (sm_peak_equity ?a) ?e"
    using account_equity [of rate e0 ts]
    by (simp add: account_snoc book_trade_def Let_def equity_after_def)
  have le: "equity_after rate e0 (take n (ts @ [t])) \<le> pymax (sm_peak_equity ?a) ?e"
    if "n \<le> length (ts @ [t])" for n
  proof (cases "n \<le> length ts")
    case True
    then show ?thesis using snoc by (auto simp: dec_order dec_simps)
  next
    case False
    then show ?thesis using that by (simp add: pymax_dec_ge le_Suc_eq)
  qed
  have "\<exists>n \<le> length (ts @ [t]). pymax (sm_peak_equity ?a) ?e = equity_after rate e0 (take n (ts @ [t]))"
  proof (cases "pymax (sm_peak_equity ?a) ?e = ?e")
    case True
    then show ?thesis by (intro exI [of _ "Suc (length ts)"]) simp
  next
    case False
    then have "pymax (sm_peak_equity ?a) ?e = sm_peak_equity ?a" by (auto simp: pymax_def split: if_splits)
    then show ?thesis using snoc by (metis le_SucI length_append_singleton take_append diff_is_0_eq' append_Nil2 take_0)
  qed
  with le peak show ?case by simp
qed

lemma account_drawdown:
  "0 \<le> sm_max_drawdown (account rate e0 ts) \<and>
   (\<forall>n < length ts. peak_after rate e0 (take (Suc n) ts) - equity_after rate e0 (take (Suc n) ts)
      \<le> sm_max_drawdown (account rate e0 ts)) \<and>
   (sm_max_drawdown (account rate e0 ts) = 0 \<or>
    (\<exists>n < length ts. sm_max_drawdown (account rate e0 ts) =
       peak_after rate e0 (take (Suc n) ts) - equity_after rate e0 (take (Suc n) ts)))"
proof (induction ts rule: rev_induct)
  case Nil
  then show ?case by (simp add: account_def initial_sim_def dec_order)
next
  case (snoc t ts)
  let ?d = "peak_after rate e0 (ts @ [t]) - equity_after rate e0 (ts @ [t])"
  let ?m = "sm_max_drawdown (account rate e0 ts)"
  have new: "sm_max_drawdown (account rate e0 (ts @ [t])) = pymax ?m ?d"
    using account_equity [of rate e0 ts]
    by (simp add: account_snoc peak_after_def book_trade_def Let_def equity_after_def)
  have nonneg: "0 \<le> pymax ?m ?d" using snoc by (auto simp: dec_order dec_simps)
  have le: "peak_after rate e0 (take (Suc n) (ts @ [t])) - equity_after rate e0 (take (Suc n) (ts @ [t]))
      \<le> pymax ?m ?d" if "n < length (ts @ [t])" for n
  proof (cases "n < length ts")
    case True
    then have "peak_after rate e0 (take (Suc n) ts) - equity_after rate e0 (take (Suc n) ts) \<le> ?m"
      using snoc by blast
    then show ?thesis using True by (simp add: dec_order dec_simps)
  next
    case False
    then show ?thesis using that by (simp add: pymax_dec_ge less_Suc_eq)
  qed
  have "pymax ?m ?d = 0 \<or> (\<exists>n < length (ts @ [t]). pymax ?m ?d =
      peak_after rate e0 (take (Suc n) (ts @ [t])) - equity_after rate e0 (take (Suc n) (ts @ [t])))"
  proof (cases "pymax ?m ?d = ?d")
    case True
    then show ?thesis by (intro disjI2 exI [of _ "length ts"]) simp
  next
    case False
    then have m: "pymax ?m ?d = ?m" by (auto simp: pymax_def split: if_splits)
    show ?thesis
    proof (cases "?m = 0")
      case False
      then obtain n where "n < length ts"
        "?m = peak_after rate e0 (take (Suc n) ts) - equity_after rate e0 (take (Suc n) ts)"
        using snoc by blast
      then show ?thesis unfolding m by (intro disjI2 exI [of _ n]) simp
    qed (use m in simp)
  qed
  with nonneg le new show ?case by simp
qed


section \<open>Agreement with the trade manager\<close>

lemma record_exit_frame [simp]:
  "sm_state (record_exit rate i b r p z s) = sm_state s"
  "sm_brackets (record_exit rate i b r p z s) = sm_brackets s"
  "sm_queued (record_exit rate i b r p z s) = sm_queued s"
  "sm_skips (record_exit rate i b r p z s) = sm_skips s"
  by (simp_all add: record_exit_def book_trade_def Let_def split: option.split)

lemma record_exit_entries [simp]:
  "sm_open_entries (record_exit rate i b r p z s) = dict_del r (sm_open_entries s)"
  by (auto simp: record_exit_def book_trade_def Let_def map_of_eq_None_iff delete_id split: option.split)

lemma record_exit_ruined: "sm_ruined s \<Longrightarrow> sm_ruined (record_exit rate i b r p z s)"
  by (simp add: record_exit_def book_trade_def Let_def split: option.split)

text \<open>A bracket carries the levels of its tranche.\<close>

definition mirrors :: "bracket \<Rightarrow> tranche \<Rightarrow> bool" where
  "mirrors k t \<longleftrightarrow> bc_role k = tr_role t \<and> bc_side k = tr_side t \<and> tr_quantity t = Some (bc_quantity k) \<and>
     tr_stop_loss t = Some (bc_stop_loss k) \<and> tr_take_profit t = bc_take_profit k \<and>
     tr_breakeven_moved t = bc_breakeven k"

definition covered :: "bracket option \<Rightarrow> tranche option \<Rightarrow> bool" where
  "covered k t \<longleftrightarrow>
     (case t of
        None \<Rightarrow> k = None
      | Some t \<Rightarrow> if tr_state t = OPEN then \<exists>x. k = Some x \<and> mirrors x t else k = None)"

definition matched :: "trade_state \<Rightarrow> brackets \<Rightarrow> bool" where
  "matched st bs \<longleftrightarrow> distinct (map fst bs) \<and> (\<forall>r. covered (dict_get bs r) (tranche_of st r))"

lemma matchedD: "matched st bs \<Longrightarrow> covered (dict_get bs r) (tranche_of st r)"
  by (simp add: matched_def)

lemma matched_open:
  "matched st bs \<Longrightarrow> dict_get bs r = Some k \<Longrightarrow>
     \<exists>t. tranche_of st r = Some t \<and> tr_state t = OPEN \<and> mirrors k t"
  using matchedD [of st bs r] by (auto simp: covered_def split: option.splits if_splits)

lemma matched_none: "bs = [] \<Longrightarrow> (\<And>t. t \<in> set (ts_tranches st) \<Longrightarrow> tr_state t \<noteq> OPEN) \<Longrightarrow> matched st bs"
  by (auto simp: matched_def covered_def dest!: tranche_of_SomeD split: option.splits)

lemma distinct_dict [simp]:
  "distinct (map fst d) \<Longrightarrow> distinct (map fst (dict_set k v d))"
  "distinct (map fst d) \<Longrightarrow> distinct (map fst (dict_del k d))"
  by (simp_all add: distinct_update distinct_delete)

text \<open>Closing the tranche of a role and dropping its bracket.\<close>

lemma matched_close:
  assumes "matched st bs" "tranche_of st r = Some t"
  shows "matched (replace_tranche st (closed_as t z)) (dict_del r bs)"
proof -
  have "tr_role t = r" using tranche_of_SomeD [OF assms(2)] by simp
  then show ?thesis
    using assms matchedD [OF assms(1)]
    by (auto simp: matched_def tranche_of_replace dict_get_del covered_def closed_as_def)
qed

lemma matched_flatten:
  assumes "matched st bs"
  shows "matched (flatten_if_done st) bs"
proof (cases "is_flat st")
  case True
  have closed: "covered k (tranche_of st r) \<Longrightarrow> k = None" for r and k :: "bracket option"
    using True tranche_of_SomeD [of st r]
    by (force simp: covered_def is_flat_def live_tranches_eq filter_empty_conv live_def split: option.splits)
  then show ?thesis
    using assms True by (auto simp: matched_def flatten_if_done_def covered_def tranche_of_def TradeState_def)
qed (simp add: flatten_if_done_def assms)

lemma matched_tranche_closed:
  assumes "matched st bs"
  shows "matched (td_state (on_tranche_closed st r z)) (dict_del r bs)"
proof (cases "tranche_of st r")
  case None
  then show ?thesis
    using assms by (auto simp: on_tranche_closed_def matched_def dict_get_del covered_def)
next
  case (Some t)
  show ?thesis
  proof (cases "tr_state t = CLOSED")
    case True
    then show ?thesis using Some assms
      by (auto simp: on_tranche_closed_def matched_def dict_get_del covered_def)
  next
    case False
    then show ?thesis using Some matched_flatten [OF matched_close [OF assms Some]]
      by (simp add: on_tranche_closed_def)
  qed
qed

text \<open>No tranche starts waiting because another one is closed.\<close>

lemma pending_replace:
  "pending_tranches st = [] \<Longrightarrow> tr_state u \<noteq> PENDING_ENTRY \<Longrightarrow> pending_tranches (replace_tranche st u) = []"
  by (auto simp: pending_tranches_def replace_tranche_def filter_empty_conv)

lemma pending_flatten: "pending_tranches st = [] \<Longrightarrow> pending_tranches (flatten_if_done st) = []"
  by (simp add: flatten_if_done_def pending_tranches_def TradeState_def)

lemma pending_tranche_closed:
  "pending_tranches st = [] \<Longrightarrow> pending_tranches (td_state (on_tranche_closed st r z)) = []"
  by (auto simp: on_tranche_closed_def pending_flatten pending_replace split: option.split)

text \<open>The loop over the brackets.\<close>

lemma judge_bracket_keeps:
  assumes "manager_inv (sm_state s)" "matched (sm_state s) (sm_brackets s)"
    and "pending_tranches (sm_state s) = []"
  shows "manager_inv (sm_state (judge_bracket rate i b s rk)) \<and>
    matched (sm_state (judge_bracket rate i b s rk)) (sm_brackets (judge_bracket rate i b s rk)) \<and>
    pending_tranches (sm_state (judge_bracket rate i b s rk)) = []"
  using assms on_tranche_closed_inv matched_tranche_closed pending_tranche_closed
  by (auto simp: judge_bracket_def Let_def split: prod.split option.split)

lemma foldl_keeps:
  assumes "\<And>s x. P s \<Longrightarrow> P (f s x)" "P s"
  shows "P (foldl f s xs)"
  using assms(2) by (induction xs arbitrary: s) (simp_all add: assms(1))

lemma judge_brackets_keeps:
  assumes "manager_inv (sm_state s)" "matched (sm_state s) (sm_brackets s)"
    and "pending_tranches (sm_state s) = []"
  shows "manager_inv (sm_state (judge_brackets rate i b s)) \<and>
    matched (sm_state (judge_brackets rate i b s)) (sm_brackets (judge_brackets rate i b s)) \<and>
    pending_tranches (sm_state (judge_brackets rate i b s)) = []"
  unfolding judge_brackets_def
  by (rule foldl_keeps) (use judge_bracket_keeps assms in blast)+


section \<open>Registering actions\<close>

definition market :: "trade_action \<Rightarrow> bool" where
  "market a \<longleftrightarrow> ta_kind a = OPEN_MARKET \<or> ta_kind a = CLOSE_MARKET"

definition closing :: "trade_action list \<Rightarrow> tranche_role set" where
  "closing as = ta_role ` {a \<in> set as. ta_kind a = CLOSE_MARKET}"

definition opens :: "trade_action list \<Rightarrow> trade_action list" where
  "opens as = filter (\<lambda>a. ta_kind a = OPEN_MARKET) as"

definition set_bracket :: "trade_state \<Rightarrow> int \<Rightarrow> brackets \<Rightarrow> trade_action \<Rightarrow> brackets" where
  "set_bracket st i bs a = fst (register_bracket st i (bs, []) a)"

lemma closing_simps [simp]:
  "closing [] = {}" "closing (as @ as') = closing as \<union> closing as'"
  "closing (filter market as) = closing as"
  by (auto simp: closing_def market_def)

lemma opens_simps [simp]:
  "opens [] = []" "opens (as @ as') = opens as @ opens as'" "opens (filter market as) = opens as"
  by (auto simp: opens_def market_def intro: filter_cong)

lemma register_one:
  "register_bracket st i (bs, ds) a = (set_bracket st i bs a, ds @ (if market a then [a] else []))"
  by (cases "ta_kind a")
    (auto simp: register_bracket_def set_bracket_def market_def split: option.splits)

lemma register_fold:
  "foldl (register_bracket st i) (bs, ds) as = (foldl (set_bracket st i) bs as, ds @ filter market as)"
  by (induction as arbitrary: bs ds) (simp_all add: register_one)

lemma register_brackets_eq:
  "register_brackets as st bs i = (foldl (set_bracket st i) bs as, filter market as)"
  by (simp add: register_brackets_def register_fold)

lemma set_bracket_simps [simp]:
  "set_bracket st i bs (close_action t r) = dict_del (tr_role t) bs"
  "set_bracket st i bs (open_action side t) = bs"
  "market (close_action t r)" "market (open_action side t)"
  by (simp_all add: set_bracket_def register_bracket_def close_action_def open_action_def TradeAction_def
      market_def)

lemma kinds_simps [simp]:
  "ta_kind (close_action t r) = CLOSE_MARKET" "ta_role (close_action t r) = tr_role t"
  "ta_kind (open_action side t) = OPEN_MARKET" "ta_role (open_action side t) = tr_role t"
  "ta_side (open_action side t) = Some side"
  by (simp_all add: close_action_def open_action_def TradeAction_def)

text \<open>Without new brackets the roles covered afterwards are those not closed.\<close>

lemma set_bracket_held:
  "ta_kind a \<noteq> SET_BRACKETS \<Longrightarrow>
   dict_get (set_bracket st i bs a) r \<noteq> None \<longleftrightarrow> dict_get bs r \<noteq> None \<and> r \<notin> closing [a]"
  by (cases "ta_kind a")
    (auto simp: set_bracket_def register_bracket_def closing_def dict_get_set dict_get_del
      split: option.splits)

lemma closing_Cons: "closing (a # as) = closing [a] \<union> closing as"
  by (auto simp: closing_def)

lemma set_brackets_held:
  "\<forall>a \<in> set as. ta_kind a \<noteq> SET_BRACKETS \<Longrightarrow>
   dict_get (foldl (set_bracket st i) bs as) r \<noteq> None \<longleftrightarrow> dict_get bs r \<noteq> None \<and> r \<notin> closing as"
proof (induction as arbitrary: bs)
  case (Cons a as)
  then show ?case using set_bracket_held [of a st i bs r] by (auto simp: closing_Cons [of a as])
qed simp

section \<open>The bar close in the simulation\<close>

definition fresh_entry :: "order_side \<Rightarrow> dec \<Rightarrow> dec option \<Rightarrow> trade_state" where
  "fresh_entry side stop rc =
     \<lparr>ts_side = Some side, ts_pending_stop = Some stop, ts_reference_close = rc,
      ts_tranches = [Tranche T1 side PENDING_ENTRY, Tranche T2 side PENDING_ENTRY]\<rparr>"

text \<open>One part of \<open>on_bar_close\<close>: it closes covered tranches only and keeps the agreement.\<close>

definition part_ok :: "trade_state \<Rightarrow> int \<Rightarrow> trade_state \<Rightarrow> brackets \<Rightarrow> trade_action list \<Rightarrow> trade_state \<Rightarrow> bool" where
  "part_ok st i s bs as s' \<longleftrightarrow>
     matched s' (foldl (set_bracket st i) bs as) \<and> closing as \<subseteq> {r. dict_get bs r \<noteq> None} \<and>
     (\<forall>a \<in> set as. ta_kind a \<noteq> SET_BRACKETS)"

lemma breakeven_part:
  assumes "manager_inv s" "matched s bs" "pending_tranches s = []"
  shows "part_ok st i s bs (snd (apply_breakeven s b sig)) (fst (apply_breakeven s b sig)) \<and>
    pending_tranches (fst (apply_breakeven s b sig)) = [] \<and> opens (snd (apply_breakeven s b sig)) = []"
proof (cases "\<exists>e. breakeven_due s b sig e")
  case True
  then obtain e where "breakeven_due s b sig e" ..
  from apply_breakeven_due [OF this] obtain t where t: "tranche_of s T2 = Some t" "tr_state t = OPEN"
    and r: "apply_breakeven s b sig = (replace_tranche s (t\<lparr>tr_stop_loss := Some e, tr_breakeven_moved := True\<rparr>),
      [(TradeAction MOVE_STOP T2)\<lparr>ta_stop_loss := Some e\<rparr>])" by blast
  obtain k where k: "dict_get bs T2 = Some k" "mirrors k t"
    using matchedD [OF assms(2), of T2] t by (auto simp: covered_def)
  have role: "tr_role t = T2" using tranche_of_SomeD [OF t(1)] by simp
  have reg: "set_bracket st i bs ((TradeAction MOVE_STOP T2)\<lparr>ta_stop_loss := Some e\<rparr>) =
      dict_set T2 (k\<lparr>bc_stop_loss := e, bc_breakeven := True, bc_active_from := i + 1\<rparr>) bs"
    using k(1) by (simp add: set_bracket_def register_bracket_def TradeAction_def)
  have "matched (replace_tranche s (t\<lparr>tr_stop_loss := Some e, tr_breakeven_moved := True\<rparr>))
      (dict_set T2 (k\<lparr>bc_stop_loss := e, bc_breakeven := True, bc_active_from := i + 1\<rparr>) bs)"
    using assms(2) t k role
    by (auto simp: matched_def tranche_of_replace dict_get_set covered_def mirrors_def)
  moreover have "ta_kind ((TradeAction MOVE_STOP T2)\<lparr>ta_stop_loss := Some e\<rparr>) = MOVE_STOP"
    by (simp add: TradeAction_def)
  ultimately show ?thesis
    using assms(3) t(2) by (auto simp: r part_ok_def reg pending_replace closing_def opens_def)
next
  case False
  then show ?thesis using assms by (simp add: apply_breakeven_not_due part_ok_def)
qed

lemma hull_part:
  assumes "manager_inv s" "matched s bs" "pending_tranches s = []"
  shows "part_ok st i s bs (snd (apply_hull_exit s sig c)) (fst (apply_hull_exit s sig c)) \<and>
    pending_tranches (fst (apply_hull_exit s sig c)) = [] \<and> opens (snd (apply_hull_exit s sig c)) = []"
proof (cases "snd (apply_hull_exit s sig c) = []")
  case True
  then have "fst (apply_hull_exit s sig c) = s"
    by (auto simp: apply_hull_exit_def Let_def split: option.splits if_splits)
  with True show ?thesis using assms by (simp add: part_ok_def)
next
  case False
  then obtain t where t: "tranche_of s T2 = Some t" "tr_state t = OPEN"
    and r: "apply_hull_exit s sig c = (replace_tranche s (closed_as t HULL_FLIP), [close_action t HULL_FLIP])"
    using tranche_of_SomeD [of s T2]
    by (auto simp: apply_hull_exit_def Let_def close_action_def split: option.splits if_splits)
  have role: "tr_role t = T2" using tranche_of_SomeD [OF t(1)] by simp
  have "dict_get bs T2 \<noteq> None" using matchedD [OF assms(2), of T2] t by (auto simp: covered_def)
  then show ?thesis
    using matched_close [OF assms(2) t(1)] assms(3) role
    by (auto simp: r part_ok_def pending_replace closing_def opens_def)
qed


lemma foldl_set_closes:
  "foldl (set_bracket st i) bs (map (\<lambda>t. close_action t z) ts) = foldl (\<lambda>b t. dict_del (tr_role t) b) bs ts"
  by (induction ts arbitrary: bs) simp_all

lemma dels_get:
  "dict_get (foldl (\<lambda>b t. dict_del (tr_role t) b) bs ts) r =
     (if r \<in> tr_role ` set ts then None else dict_get bs r)"
  by (induction ts arbitrary: bs) (auto simp: dict_get_del)

lemma dels_distinct:
  "distinct (map fst bs) \<Longrightarrow> distinct (map fst (foldl (\<lambda>b t. dict_del (tr_role t) b) bs ts))"
  by (induction ts arbitrary: bs) simp_all

lemma matched_closes:
  assumes "two_tranches s" "matched s bs"
  shows "matched (revise P (\<lambda>t. closed_as t z) s)
    (foldl (\<lambda>b t. dict_del (tr_role t) b) bs (filter P (ts_tranches s)))"
proof -
  have "covered (dict_get (foldl (\<lambda>b t. dict_del (tr_role t) b) bs (filter P (ts_tranches s))) r)
      (tranche_of (revise P (\<lambda>t. closed_as t z) s) r)" for r
    using assms(1)
  proof (cases rule: two_cases)
    case none
    then show ?thesis using matchedD [OF assms(2), of r]
      by (simp add: tranche_of_def revise_def)
  next
    case (two a b)
    then have "ts_tranches (revise P (\<lambda>t. closed_as t z) s) =
        [if P a then closed_as a z else a, if P b then closed_as b z else b]"
      by (simp add: revise_def)
    then have of: "tranche_of (revise P (\<lambda>t. closed_as t z) s) T1 = Some (if P a then closed_as a z else a)"
      "tranche_of (revise P (\<lambda>t. closed_as t z) s) T2 = Some (if P b then closed_as b z else b)"
      using two(2,3) by (auto simp: tranche_of_def)
    show ?thesis
    proof (cases r)
      case T1
      then show ?thesis using of(1) two matchedD [OF assms(2), of T1] by (auto simp: dels_get covered_def)
    next
      case T2
      then show ?thesis using of(2) two matchedD [OF assms(2), of T2] by (auto simp: dels_get covered_def)
    qed
  qed
  then show ?thesis using assms(2) by (simp add: matched_def dels_distinct)
qed

lemma matched_flat_empty:
  assumes "matched s bs" "is_flat s"
  shows "bs = []"
proof -
  have n: "dict_get bs r = None" for r
    using matchedD [OF assms(1), of r] assms(2) tranche_of_SomeD [of s r]
    by (force simp: covered_def is_flat_def live_tranches_eq filter_empty_conv live_def split: option.splits)
  show ?thesis using n [of "fst (hd bs)"] by (cases bs) auto
qed

lemma matched_live:
  assumes "two_tranches s" "matched s bs" "pending_tranches s = []" "t \<in> set (ts_tranches s)" "live t"
  shows "dict_get bs (tr_role t) \<noteq> None"
proof -
  have "tr_state t \<noteq> PENDING_ENTRY" using assms(3,4) by (auto simp: pending_tranches_def filter_empty_conv)
  then have "tr_state t = OPEN" using assms(5) by (cases "tr_state t") (simp_all add: live_def)
  then show ?thesis
    using in_tranches [OF assms(1,4)] matchedD [OF assms(2), of "tr_role t"] by (auto simp: covered_def)
qed

lemma enter_part:
  assumes "manager_inv s" "matched s bs" "pending_tranches s = []"
  shows "part_ok st i s bs (snd (enter_side s b side stop)) (fst (enter_side s b side stop)) \<and>
    (pending_tranches (fst (enter_side s b side stop)) = [] \<and> opens (snd (enter_side s b side stop)) = [] \<or>
     (\<exists>x rc. stop = Some x \<and> fst (enter_side s b side stop) = fresh_entry side x rc \<and>
        opens (snd (enter_side s b side stop)) =
          map (open_action side) (ts_tranches (fresh_entry side x rc)) \<and>
        foldl (set_bracket st i) bs (snd (enter_side s b side stop)) = []))"
proof -
  note two = inv_two [OF assms(1)]
  let ?P = "\<lambda>t. live t \<and> tr_side t \<noteq> side"
  let ?s = "revise ?P (\<lambda>t. closed_as t REVERSAL) s"
  let ?ts = "filter ?P (ts_tranches s)"
  let ?cl = "map (\<lambda>t. close_action t REVERSAL) ?ts"
  let ?bs = "foldl (\<lambda>b t. dict_del (tr_role t) b) bs ?ts"
  have m: "matched ?s ?bs" by (rule matched_closes [OF two assms(2)])
  have cl: "closing ?cl \<subseteq> {r. dict_get bs r \<noteq> None}"
    using matched_live [OF two assms(2,3)] by (auto simp: closing_def)
  have pend: "pending_tranches ?s = []"
    using assms(3) by (auto simp: pending_tranches_def revise_def filter_empty_conv)
  have op: "opens ?cl = []" by (auto simp: opens_def filter_empty_conv)
  show ?thesis
  proof (cases "is_flat ?s \<and> stop \<noteq> None")
    case True
    then obtain x where x: "stop = Some x" by blast
    have empty: "?bs = []" using matched_flat_empty [OF m] True by blast
    let ?new = "fresh_entry side x (Some (ba_close b))"
    have e: "enter_side s b side stop = (?new, ?cl @ map (open_action side) (ts_tranches ?new))"
      using True x by (simp add: enter_side_eq [OF two] Let_def fresh_entry_def)
    have "matched ?new []"
      by (rule matched_none) (auto simp: fresh_entry_def Tranche_def)
    moreover have "foldl (set_bracket st i) [] (map (open_action side) (ts_tranches ?new)) = []"
      by (simp add: fresh_entry_def)
    ultimately have "part_ok st i s bs (?cl @ map (open_action side) (ts_tranches ?new)) ?new \<and>
        foldl (set_bracket st i) bs (?cl @ map (open_action side) (ts_tranches ?new)) = []"
      using cl empty by (auto simp: part_ok_def foldl_set_closes closing_def fresh_entry_def)
    moreover have "opens (map (open_action side) (ts_tranches ?new)) = map (open_action side) (ts_tranches ?new)"
      by (simp add: opens_def fresh_entry_def)
    ultimately show ?thesis unfolding e using op x by (intro conjI disjI2 exI) simp_all
  next
    case False
    then have e: "enter_side s b side stop = (?s, ?cl)"
      by (simp add: enter_side_eq [OF two] Let_def)
    show ?thesis unfolding e using m cl pend op by (auto simp: part_ok_def foldl_set_closes)
  qed
qed


lemma part_compose:
  assumes "part_ok st i s bs as s'" "part_ok st i s' (foldl (set_bracket st i) bs as) as' s''"
  shows "part_ok st i s bs (as @ as') s''"
  using assms set_brackets_held [of as st i bs] by (auto simp: part_ok_def)

text \<open>The side and the stop a signal asks for.\<close>

definition wanted :: "bar_signal \<Rightarrow> order_side \<Rightarrow> dec \<Rightarrow> bool" where
  "wanted sig side x \<longleftrightarrow>
     (if side = BUY then bs_buy sig \<and> bs_stop_low sig = Some x
      else bs_sell sig \<and> \<not> bs_buy sig \<and> bs_stop_high sig = Some x)"

lemma apply_signal_enter:
  "apply_signal s b sig = (s, []) \<or>
   (\<exists>side stop. apply_signal s b sig = enter_side s b side stop \<and> (\<forall>x. stop = Some x \<longrightarrow> wanted sig side x))"
  by (auto simp: apply_signal_def wanted_def)

lemma on_bar_close_part:
  assumes "manager_inv s" "matched s bs" "pending_tranches s = []" "d = on_bar_close s b sig c"
  shows "part_ok st i s bs (td_actions d) (td_state d) \<and>
    (pending_tranches (td_state d) = [] \<and> opens (td_actions d) = [] \<or>
     (\<exists>side x rc. td_state d = fresh_entry side x rc \<and> wanted sig side x \<and>
        opens (td_actions d) = map (open_action side) (ts_tranches (td_state d)) \<and>
        foldl (set_bracket st i) bs (td_actions d) = []))"
proof -
  obtain s1 a1 where 1: "apply_breakeven s b sig = (s1, a1)" by (rule prod.exhaust)
  obtain s2 a2 where 2: "apply_hull_exit s1 sig c = (s2, a2)" by (rule prod.exhaust)
  obtain s3 a3 where 3: "apply_signal s2 b sig = (s3, a3)" by (rule prod.exhaust)
  have d: "td_state d = s3" "td_actions d = (a1 @ a2) @ a3" by (simp_all add: assms(4) on_bar_close_def 1 2 3)
  let ?b1 = "foldl (set_bracket st i) bs a1"
  let ?b2 = "foldl (set_bracket st i) ?b1 a2"
  have i1: "manager_inv s1" using apply_breakeven_inv [OF assms(1), of b sig] 1 by simp
  have i2: "manager_inv s2" using apply_hull_exit_inv [OF i1, of sig c] 2 by simp
  have p1: "part_ok st i s bs a1 s1" "pending_tranches s1 = []" "opens a1 = []"
    using breakeven_part [OF assms(1-3), of st i b sig] 1 by simp_all
  have m1: "matched s1 ?b1" using p1(1) by (simp add: part_ok_def)
  have p2: "part_ok st i s1 ?b1 a2 s2" "pending_tranches s2 = []" "opens a2 = []"
    using hull_part [OF i1 m1 p1(2), of st i sig c] 2 by simp_all
  have m2: "matched s2 ?b2" using p2(1) by (simp add: part_ok_def)
  have p12: "part_ok st i s bs (a1 @ a2) s2" by (rule part_compose [OF p1(1) p2(1)])
  show ?thesis
  proof (cases "apply_signal s2 b sig = (s2, [])")
    case True
    then show ?thesis using p12 p2(2) p1(3) p2(3) 3 by (simp add: d)
  next
    case False
    then obtain side stop where "enter_side s2 b side stop = (s3, a3)"
      and "\<forall>x. stop = Some x \<longrightarrow> wanted sig side x"
      using apply_signal_enter [of s2 b sig] 3 by auto
    with enter_part [OF i2 m2 p2(2), of st i b side stop] part_compose [OF p12, of a3 s3] p1(3) p2(3)
    show ?thesis by (auto simp: d)
  qed
qed

section \<open>The invariant of the simulation\<close>

definition shape :: "trade_state \<Rightarrow> brackets \<Rightarrow> trade_action list \<Rightarrow> bool" where
  "shape st bs queue \<longleftrightarrow>
     pending_tranches st = [] \<and> opens queue = [] \<or>
     (\<exists>side x rc. st = fresh_entry side x rc \<and> bs = [] \<and>
        opens queue = map (open_action side) (ts_tranches st))"

text \<open>Between two bars.\<close>

definition agrees :: "sim \<Rightarrow> bool" where
  "agrees s \<longleftrightarrow>
     manager_inv (sm_state s) \<and> matched (sm_state s) (sm_brackets s) \<and>
     shape (sm_state s) (sm_brackets s) (sm_queued s) \<and>
     distinct (map fst (sm_open_entries s)) \<and>
     (\<forall>r \<in> closing (sm_queued s). dict_get (sm_brackets s) r = None) \<and>
     (\<forall>r. dict_get (sm_open_entries s) r \<noteq> None \<longleftrightarrow>
        dict_get (sm_brackets s) r \<noteq> None \<or> r \<in> closing (sm_queued s))"

lemma agrees_initial: "agrees (initial_sim e0)"
  using manager_inv_initial
  by (simp add: agrees_def initial_sim_def shape_def pending_tranches_def TradeState_def
      matched_def covered_def tranche_of_def)

text \<open>The queue is emptied: exits drop their entries, entries are collected.\<close>

lemma take_order_fold:
  "foldl (take_order rate i b) (s, ent) q =
     (foldl (\<lambda>s a. if ta_kind a = CLOSE_MARKET then fst (take_order rate i b (s, []) a) else s) s q,
      ent @ opens q)"
proof (induction q arbitrary: s ent)
  case (Cons a q)
  then show ?case
    by (cases "ta_kind a") (simp_all add: take_order_def opens_def)
qed simp

lemma take_orders_state:
  assumes "take_orders rate i b s = (s', ent)"
  shows "sm_state s' = sm_state s" "ent = opens (sm_queued s)" "sm_queued s' = []"
    "sm_skips s' = sm_skips s"
    "sm_brackets s' = foldl (\<lambda>bs r. dict_del r bs) (sm_brackets s)
       (map ta_role (filter (\<lambda>a. ta_kind a = CLOSE_MARKET) (sm_queued s)))"
    "sm_open_entries s' = foldl (\<lambda>bs r. dict_del r bs) (sm_open_entries s)
       (map ta_role (filter (\<lambda>a. ta_kind a = CLOSE_MARKET) (sm_queued s)))"
proof -
  let ?f = "\<lambda>s a. if ta_kind a = CLOSE_MARKET then fst (take_order rate i b (s, []) a) else s"
  have s': "s' = (foldl ?f s (sm_queued s))\<lparr>sm_queued := []\<rparr>" and ent: "ent = opens (sm_queued s)"
    using assms by (simp_all add: take_orders_def take_order_fold)
  have fr: "sm_state (foldl ?f s q) = sm_state s \<and> sm_skips (foldl ?f s q) = sm_skips s \<and>
      sm_brackets (foldl ?f s q) = foldl (\<lambda>bs r. dict_del r bs) (sm_brackets s)
        (map ta_role (filter (\<lambda>a. ta_kind a = CLOSE_MARKET) q)) \<and>
      sm_open_entries (foldl ?f s q) = foldl (\<lambda>bs r. dict_del r bs) (sm_open_entries s)
        (map ta_role (filter (\<lambda>a. ta_kind a = CLOSE_MARKET) q))" for q s
    by (induction q arbitrary: s) (simp_all add: take_order_def)
  show "sm_state s' = sm_state s" "ent = opens (sm_queued s)" "sm_queued s' = []"
    "sm_skips s' = sm_skips s"
    "sm_brackets s' = foldl (\<lambda>bs r. dict_del r bs) (sm_brackets s)
       (map ta_role (filter (\<lambda>a. ta_kind a = CLOSE_MARKET) (sm_queued s)))"
    "sm_open_entries s' = foldl (\<lambda>bs r. dict_del r bs) (sm_open_entries s)
       (map ta_role (filter (\<lambda>a. ta_kind a = CLOSE_MARKET) (sm_queued s)))"
    using fr [of s "sm_queued s"] ent by (simp_all add: s')
qed

lemma roles_del_get:
  "dict_get (foldl (\<lambda>bs r. dict_del r bs) d rs) r = (if r \<in> set rs then None else dict_get d r)"
  by (induction rs arbitrary: d) (auto simp: dict_get_del)

lemma roles_del_distinct:
  "distinct (map fst d) \<Longrightarrow> distinct (map fst (foldl (\<lambda>bs r. dict_del r bs) d rs))"
  by (induction rs arbitrary: d) simp_all

lemma take_orders_agrees:
  assumes "agrees s" "take_orders rate i b s = (s', ent)"
  shows "manager_inv (sm_state s') \<and> matched (sm_state s') (sm_brackets s') \<and>
    distinct (map fst (sm_open_entries s')) \<and>
    (\<forall>r. dict_get (sm_open_entries s') r \<noteq> None \<longleftrightarrow> dict_get (sm_brackets s') r \<noteq> None) \<and>
    (pending_tranches (sm_state s') = [] \<and> ent = [] \<or>
     (\<exists>side x rc. sm_state s' = fresh_entry side x rc \<and> sm_brackets s' = [] \<and> sm_open_entries s' = [] \<and>
        ent = map (open_action side) (ts_tranches (sm_state s'))))"
proof -
  note t = take_orders_state [OF assms(2)]
  let ?rs = "map ta_role (filter (\<lambda>a. ta_kind a = CLOSE_MARKET) (sm_queued s))"
  have rs: "set ?rs = closing (sm_queued s)" by (auto simp: closing_def)
  have b: "dict_get (sm_brackets s') r = dict_get (sm_brackets s) r" for r
    using assms(1) unfolding t(5) roles_del_get rs agrees_def by auto
  have e: "dict_get (sm_open_entries s') r \<noteq> None \<longleftrightarrow> dict_get (sm_brackets s') r \<noteq> None" for r
    using assms(1) unfolding b unfolding t(6) roles_del_get rs agrees_def by auto
  have m: "matched (sm_state s') (sm_brackets s')"
    using assms(1) b roles_del_distinct [of "sm_brackets s" ?rs] by (simp add: agrees_def matched_def t(1,5))
  have "sm_open_entries s' = []" if "sm_brackets s' = []"
    using e [of "fst (hd (sm_open_entries s'))"] that by (cases "sm_open_entries s'") auto
  moreover have "sm_brackets s = [] \<Longrightarrow> sm_brackets s' = []"
    using b [of "fst (hd (sm_brackets s'))"] by (cases "sm_brackets s'") auto
  moreover have d: "distinct (map fst (sm_open_entries s'))"
    using assms(1) roles_del_distinct [of "sm_open_entries s" ?rs] by (simp add: agrees_def t(6))
  moreover have "manager_inv (sm_state s')" using assms(1) by (simp add: agrees_def t(1))
  moreover have "shape (sm_state s) (sm_brackets s) (sm_queued s)" using assms(1) by (simp add: agrees_def)
  then have "pending_tranches (sm_state s') = [] \<and> ent = [] \<or>
     (\<exists>side x rc. sm_state s' = fresh_entry side x rc \<and> sm_brackets s = [] \<and>
        ent = map (open_action side) (ts_tranches (sm_state s')))"
    by (simp only: shape_def t(1,2))
  ultimately show ?thesis using m e by blast
qed


text \<open>Within a bar, when no entry is waiting.\<close>

definition calm :: "sim \<Rightarrow> bool" where
  "calm s \<longleftrightarrow> manager_inv (sm_state s) \<and> matched (sm_state s) (sm_brackets s) \<and>
     pending_tranches (sm_state s) = [] \<and> opens (sm_queued s) = [] \<and>
     distinct (map fst (sm_open_entries s)) \<and>
     (\<forall>r \<in> closing (sm_queued s). dict_get (sm_brackets s) r = None) \<and>
     (\<forall>r. dict_get (sm_open_entries s) r \<noteq> None \<longleftrightarrow>
        dict_get (sm_brackets s) r \<noteq> None \<or> r \<in> closing (sm_queued s))"

lemma calm_held:
  "calm s \<Longrightarrow> dict_get (sm_open_entries s) r \<noteq> None \<longleftrightarrow>
     dict_get (sm_brackets s) r \<noteq> None \<or> r \<in> closing (sm_queued s)"
  by (simp only: calm_def)

lemma judge_bracket_queue [simp]: "sm_queued (judge_bracket rate i b s rk) = sm_queued s"
  by (simp add: judge_bracket_def Let_def split: prod.split option.split)

lemma judge_bracket_calm:
  assumes "calm s \<and> sm_queued s = []"
  shows "calm (judge_bracket rate i b s rk) \<and> sm_queued (judge_bracket rate i b s rk) = []"
proof -
  have k: "manager_inv (sm_state (judge_bracket rate i b s rk)) \<and>
    matched (sm_state (judge_bracket rate i b s rk)) (sm_brackets (judge_bracket rate i b s rk)) \<and>
    pending_tranches (sm_state (judge_bracket rate i b s rk)) = []"
    using assms by (intro judge_bracket_keeps) (simp_all add: calm_def)
  let ?j = "judge_bracket rate i b s rk"
  have d: "distinct (map fst (sm_open_entries s))" using assms by (simp add: calm_def)
  have "closing (sm_queued s) = {}" using assms by simp
  then have e: "dict_get (sm_open_entries s) r \<noteq> None \<longleftrightarrow> dict_get (sm_brackets s) r \<noteq> None" for r
    using calm_held [of s r] assms by blast
  have "sm_open_entries ?j = sm_open_entries s \<and> sm_brackets ?j = sm_brackets s \<or>
      (\<exists>r. sm_open_entries ?j = dict_del r (sm_open_entries s) \<and> sm_brackets ?j = dict_del r (sm_brackets s))"
    by (auto simp: judge_bracket_def Let_def split: prod.split option.split)
  then have "distinct (map fst (sm_open_entries ?j)) \<and>
    (\<forall>r. dict_get (sm_open_entries ?j) r \<noteq> None \<longleftrightarrow> dict_get (sm_brackets ?j) r \<noteq> None)"
    using e d by (elim disjE exE conjE) (simp_all only: dict_get_del distinct_dict, auto)
  with k assms show ?thesis by (simp add: calm_def)
qed

lemma judge_brackets_calm:
  assumes "calm s" "sm_queued s = []"
  shows "calm (judge_brackets rate i b s)" "sm_queued (judge_brackets rate i b s) = []"
proof -
  have "calm (judge_brackets rate i b s) \<and> sm_queued (judge_brackets rate i b s) = []"
    unfolding judge_brackets_def
    by (rule foldl_keeps [where P = "\<lambda>s. calm s \<and> sm_queued s = []"])
      (use judge_bracket_calm assms in blast)+
  then show "calm (judge_brackets rate i b s)" "sm_queued (judge_brackets rate i b s) = []" by simp_all
qed

lemma adopt_fields:
  "sm_state (adopt i d s) = td_state d"
  "sm_brackets (adopt i d s) = foldl (set_bracket (td_state d) i) (sm_brackets s) (td_actions d)"
  "sm_queued (adopt i d s) = sm_queued s @ filter market (td_actions d)"
  "sm_open_entries (adopt i d s) = sm_open_entries s" "sm_trades (adopt i d s) = sm_trades s"
  "sm_fills (adopt i d s) = sm_fills s" "sm_skips (adopt i d s) = sm_skips s"
  "sm_ruined (adopt i d s) = sm_ruined s" "books rate e0 (adopt i d s) = books rate e0 s"
  by (simp_all add: adopt_def register_brackets_eq books_def Let_def)

lemma adopt_bar_close:
  assumes "calm s"
  shows "agrees (adopt i (on_bar_close (sm_state s) b sig c) s)"
proof -
  let ?d = "on_bar_close (sm_state s) b sig c"
  let ?st = "td_state ?d"
  have i: "manager_inv (sm_state s)" and m: "matched (sm_state s) (sm_brackets s)"
    and p: "pending_tranches (sm_state s) = []"
    using assms by (simp_all add: calm_def)
  let ?bs = "foldl (set_bracket ?st i) (sm_brackets s) (td_actions ?d)"
  from on_bar_close_part [OF i m p refl, where st = ?st and i = i and b = b and sig = sig and c = c]
  have part: "part_ok ?st i (sm_state s) (sm_brackets s) (td_actions ?d) ?st"
    and sh: "pending_tranches ?st = [] \<and> opens (td_actions ?d) = [] \<or>
       (\<exists>side x rc. ?st = fresh_entry side x rc \<and> opens (td_actions ?d) = map (open_action side) (ts_tranches ?st) \<and>
          ?bs = [])" by blast+
  have held: "dict_get ?bs r \<noteq> None \<longleftrightarrow> dict_get (sm_brackets s) r \<noteq> None \<and> r \<notin> closing (td_actions ?d)" for r
    using part by (intro set_brackets_held) (simp add: part_ok_def)
  have "shape ?st ?bs (sm_queued s @ filter market (td_actions ?d))"
  proof -
    have "opens (sm_queued s) = []" using assms by (simp add: calm_def)
    then show ?thesis using sh by (simp only: shape_def opens_simps append_Nil) blast
  qed
  moreover have "closing (td_actions ?d) \<subseteq> {r. dict_get (sm_brackets s) r \<noteq> None}"
    using part by (simp add: part_ok_def)
  ultimately have sh: "shape ?st ?bs (sm_queued s @ filter market (td_actions ?d))"
    and cl: "closing (td_actions ?d) \<subseteq> {r. dict_get (sm_brackets s) r \<noteq> None}" by blast+
  have q: "\<forall>r \<in> closing (sm_queued s). dict_get (sm_brackets s) r = None"
    and e: "distinct (map fst (sm_open_entries s))" using assms by (simp_all add: calm_def)
  show ?thesis
    unfolding agrees_def adopt_fields closing_simps
  proof (intro conjI allI ballI)
    show "manager_inv ?st" by (rule on_bar_close_inv [OF i])
    show "matched ?st ?bs" using part by (simp add: part_ok_def)
    show "dict_get ?bs r = None" if "r \<in> closing (sm_queued s) \<union> closing (td_actions ?d)" for r
      using that q held [of r] by auto
    show "dict_get (sm_open_entries s) r \<noteq> None \<longleftrightarrow>
        dict_get ?bs r \<noteq> None \<or> r \<in> closing (sm_queued s) \<union> closing (td_actions ?d)" for r
      unfolding held calm_held [OF assms] using cl by blast
  qed (rule sh e)+
qed

section \<open>Entries\<close>

lemma size_entry_quantity:
  "size_entry c d spec e rate = Inr out \<Longrightarrow> so_quantity out = None \<longleftrightarrow> so_lots out = None"
  by (auto simp: size_entry_def finalise_def Let_def bindr_Inr_iff split: if_splits)

lemma size_entry_returns:
  "spec_contract spec \<Longrightarrow> coeff rate \<noteq> 0 \<Longrightarrow> \<exists>out. size_entry c d spec e rate = Inr out"
  using size_entry_total [of spec c d e rate] by (cases "size_entry c d spec e rate") auto

text \<open>The gate: from a positive equity and the distance of the price to the stop.\<close>

definition sized :: "backtest_setup \<Rightarrow> dec \<Rightarrow> dec \<Rightarrow> dec \<Rightarrow> dec \<Rightarrow> bool" where
  "sized u equity stop price q \<longleftrightarrow> 0 < equity \<and>
     (\<exists>out. size_entry (su_config u) (dabs (price - stop)) (su_spec u) equity (su_rate u) = Inr out \<and>
        so_quantity out = Some q \<and> (so_requires_confirmation out \<longrightarrow> su_confirm u))"

lemma size_or_skip_cases:
  assumes "spec_contract (su_spec u)" "coeff (su_rate u) \<noteq> 0"
    and "ts_side (sm_state s) = Some side" "ts_pending_stop (sm_state s) = Some stop" "ent \<noteq> []"
  obtains (skipped) k where "size_or_skip u i b (s, ent) =
      Inr (s\<lparr>sm_skips := sm_skips s @ [k], sm_state := TradeState\<rparr>, [], None)"
  | (accepted) q where "size_or_skip u i b (s, ent) = Inr (s, ent, Some q)"
      "sized u (sm_equity s) stop (ba_open b) q" "\<not> sm_ruined s"
proof -
  let ?d = "dabs (ba_open b - stop)"
  obtain out where out: "size_entry (su_config u) ?d (su_spec u) (sm_equity s) (su_rate u) = Inr out"
    using size_entry_returns [OF assms(1,2)] by blast
  have "\<exists>sk. skip_reason_of (su_config u) ?d (su_spec u) (sm_equity s) (su_rate u) (su_confirm u)
      (sm_ruined s) = Inr sk"
    unfolding skip_reason_of_def Let_def out by (simp split: if_split)
  then obtain sk where sk: "skip_reason_of (su_config u) ?d (su_spec u) (sm_equity s) (su_rate u)
      (su_confirm u) (sm_ruined s) = Inr sk" ..
  show thesis
  proof (cases sk)
    case (Some rb)
    then show thesis using sk assms(3-5)
      by (intro skipped) (simp add: size_or_skip_def split_beta Let_def)
  next
    case None
    have ok: "\<not> sm_ruined s" "\<not> sm_equity s \<le> 0" "so_lots out \<noteq> None"
      "so_requires_confirmation out \<longrightarrow> su_confirm u"
      using sk None by (auto simp: skip_reason_of_def out Let_def split: if_splits)
    obtain q where q: "so_quantity out = Some q" using ok(3) size_entry_quantity [OF out] by auto
    have "size_or_skip u i b (s, ent) = Inr (s, ent, Some q)"
      using sk None assms(3-5) out q by (simp add: size_or_skip_def Let_def)
    moreover have "sized u (sm_equity s) stop (ba_open b) q"
      using out q ok by (auto simp: sized_def not_le_dec)
    ultimately show thesis using ok by (intro accepted) simp_all
  qed
qed


lemma fresh_pending: "pending_tranches (fresh_entry side x rc) \<noteq> []"
  by (simp add: fresh_entry_def pending_tranches_def Tranche_def)

lemma fresh_entry_eq [simp]:
  "fresh_entry side x rc = fresh_entry side' x' rc' \<longleftrightarrow> side = side' \<and> x = x' \<and> rc = rc'"
  by (auto simp: fresh_entry_def)

lemma fresh_inv: "manager_inv (fresh_entry side x rc)"
  using new_entry_inv [of side x rc] by (simp add: fresh_entry_def)

text \<open>The confirmation of a fresh entry: aborted, or filled with both brackets.\<close>

lemma matched_initial: "matched TradeState []"
  by (rule matched_none) (simp_all add: TradeState_def)

definition sized_entry :: "order_side \<Rightarrow> dec \<Rightarrow> tranche_role \<Rightarrow> tranche" where
  "sized_entry side q role = (Tranche role side PENDING_ENTRY)\<lparr>tr_quantity := Some q\<rparr>"

lemma sized_entry_simps [simp]:
  "tr_role (sized_entry side q role) = role" "tr_side (sized_entry side q role) = side"
  "tr_state (sized_entry side q role) = PENDING_ENTRY" "tr_quantity (sized_entry side q role) = Some q"
  "live (sized_entry side q role)" "\<not> tr_breakeven_moved (sized_entry side q role)"
  by (simp_all add: sized_entry_def Tranche_def live_def)

lemma record_quantity_fresh:
  "record_quantity (fresh_entry side x rc) (Some q) =
     (fresh_entry side x rc)\<lparr>ts_tranches := map (sized_entry side q) [T1, T2]\<rparr>"
  using inv_two [OF fresh_inv]
  by (simp add: record_quantity_eq revise_def fresh_entry_def sized_entry_def Tranche_def)

lemma on_entry_filled_fresh:
  obtains (aborted) z where
      "on_entry_filled (fresh_entry side x rc) e i c (Some q) ref =
         Inr \<lparr>td_state = TradeState, td_actions = map (\<lambda>t. close_action t z) (map (sized_entry side q) [T1, T2])\<rparr>"
  | (filled) tp where
      "on_entry_filled (fresh_entry side x rc) e i c (Some q) ref =
         Inr \<lparr>td_state = (fresh_entry side x rc)\<lparr>ts_tranches :=
                map (filled_tranche e i x tp) (map (sized_entry side q) [T1, T2])\<rparr>,
              td_actions = map (bracket_action x tp) (map (sized_entry side q) [T1, T2])\<rparr>"
proof -
  let ?s = "fresh_entry side x rc" and ?r = "record_quantity (fresh_entry side x rc) (Some q)"
  have two: "two_tranches ?s" by (rule inv_two [OF fresh_inv])
  have two': "two_tranches ?r" by (rule inv_two [OF record_quantity_inv [OF fresh_inv]])
  have ts: "ts_tranches ?r = map (sized_entry side q) [T1, T2]" by (simp add: record_quantity_fresh)
  have ab: "abort_entry ?r z = \<lparr>td_state = TradeState,
      td_actions = map (\<lambda>t. close_action t z) (map (sized_entry side q) [T1, T2])\<rparr>" for z
    using abort_entry_eq [OF two', of z] abort_flattens [OF two', of z] ts
    by (simp add: live_tranches_eq)
  have ps: "pending_tranches ?r = map (sized_entry side q) [T1, T2]"
    by (simp add: pending_tranches_def ts)
  have x: "ts_side ?s = Some side" "ts_pending_stop ?s = Some x" by (simp_all add: fresh_entry_def)
  show thesis
    using two
  proof (cases rule: on_entry_filled_cases [where e = e and i = i and c = c and q = "Some q" and ref = ref])
    case (filled side' st)
    then have "side' = side" "st = x" using x by simp_all
    moreover have "revise (\<lambda>t. tr_state t = PENDING_ENTRY) (filled_tranche e i x tp) ?r =
        ?s\<lparr>ts_tranches := map (filled_tranche e i x tp) (map (sized_entry side q) [T1, T2])\<rparr>" for tp
      by (simp add: revise_def record_quantity_fresh)
    ultimately show thesis using filled(6) ps by (intro that(2)) simp
  next
    case no_signal
    with x show thesis by simp
  next
    case no_entry
    with fresh_pending show thesis by simp
  next
    case (gap side' st z)
    show thesis by (rule that(1) [of z]) (simp only: gap ab)
  next
    case (invalid side' st)
    show thesis by (rule that(1) [of INVALID_RISK]) (simp only: invalid ab)
  qed
qed


lemma bracket_action_simps [simp]:
  "ta_kind (bracket_action x tp t) = SET_BRACKETS" "ta_role (bracket_action x tp t) = tr_role t"
  "ta_stop_loss (bracket_action x tp t) = Some x"
  "ta_take_profit (bracket_action x tp t) = (if tr_role t = T1 then Some tp else None)"
  by (simp_all add: bracket_action_def TradeAction_def)

lemma closing_closes: "closing (map (\<lambda>t. close_action t z) ts) = tr_role ` set ts"
  by (induction ts) (simp_all add: closing_Cons [of "close_action _ z"] closing_def [of "[_]"] Collect_conv_if)

lemma adopt_confirmed:
  assumes st: "sm_state s = fresh_entry side x rc" "sm_brackets s = []" "sm_queued s = []"
    and e: "distinct (map fst (sm_open_entries s))" "\<And>r. dict_get (sm_open_entries s) r \<noteq> None"
    and d: "on_entry_filled (sm_state s) price i c (Some q) ref = Inr d"
  shows "calm (adopt i d s)"
proof -
  have roles: "r = T1 \<or> r = T2" for r by (cases r) simp_all
  have inv: "manager_inv (td_state d)"
    by (rule on_entry_filled_inv [OF _ d]) (simp add: st fresh_inv)
  show ?thesis
  proof (cases rule: on_entry_filled_fresh [of side x rc price i c q ref])
    case (aborted z)
    then have "d = \<lparr>td_state = TradeState,
        td_actions = map (\<lambda>t. close_action t z) (map (sized_entry side q) [T1, T2])\<rparr>"
      using d st(1) by simp
    moreover have "closing (map (\<lambda>t. close_action t z) (map (sized_entry side q) [T1, T2])) = UNIV"
      unfolding closing_closes using roles by auto
    ultimately show ?thesis
      using e inv matched_initial
      by (simp add: calm_def adopt_fields st foldl_set_closes pending_tranches_def TradeState_def opens_def)
  next
    case (filled tp)
    let ?f = "filled_tranche price i x tp"
    let ?st = "(fresh_entry side x rc)\<lparr>ts_tranches := map ?f (map (sized_entry side q) [T1, T2])\<rparr>"
    have d': "d = \<lparr>td_state = ?st, td_actions = map (bracket_action x tp) (map (sized_entry side q) [T1, T2])\<rparr>"
      using d st(1) filled by simp
    have of: "tranche_of ?st T1 = Some (?f (sized_entry side q T1))"
      "tranche_of ?st T2 = Some (?f (sized_entry side q T2))"
      by (simp_all add: tranche_of_def filled_tranche_def)
    let ?k = "\<lambda>r. \<lparr>bc_role = r, bc_side = side, bc_quantity = q, bc_stop_loss = x,
        bc_take_profit = (if r = T1 then Some tp else None), bc_active_from = i + 1, bc_breakeven = False\<rparr>"
    have bs: "foldl (set_bracket ?st i) [] (map (bracket_action x tp) (map (sized_entry side q) [T1, T2])) =
        [(T1, ?k T1), (T2, ?k T2)]"
      using of by (simp add: set_bracket_def register_bracket_def filled_tranche_def)
    have "matched ?st [(T1, ?k T1), (T2, ?k T2)]"
    proof -
      have "covered (dict_get [(T1, ?k T1), (T2, ?k T2)] r) (tranche_of ?st r)" for r
        using roles [of r] of by (elim disjE) (simp_all add: covered_def mirrors_def filled_tranche_def)
      then show ?thesis by (simp add: matched_def)
    qed
    moreover have "pending_tranches ?st = []" by (simp add: pending_tranches_def filled_tranche_def)
    moreover have "dict_get [(T1, ?k T1), (T2, ?k T2)] r \<noteq> None" for r using roles [of r] by auto
    moreover have "filter market (map (bracket_action x tp) (map (sized_entry side q) [T1, T2])) = []"
      by (simp add: market_def)
    ultimately show ?thesis
      using e inv unfolding calm_def adopt_fields st d' trade_decision.simps bs by (simp del: not_None_eq)
  qed
qed


lemma fill_entries_two:
  "fill_entries i b (Some q) (map (open_action side) (ts_tranches (fresh_entry side x rc))) s =
     Inr (s\<lparr>sm_fills := sm_fills s @ [entry_fill i b T1 side q, entry_fill i b T2 side q],
            sm_open_entries := dict_set T2 (entry_fill i b T2 side q)
              (dict_set T1 (entry_fill i b T1 side q) (sm_open_entries s))\<rparr>)"
  by (simp add: fresh_entry_def Tranche_def Let_def)

lemma judge_nothing: "sm_brackets s = [] \<Longrightarrow> judge_brackets rate i b s = s"
  by (simp add: judge_brackets_def)

definition with_entries :: "int \<Rightarrow> bar \<Rightarrow> order_side \<Rightarrow> dec \<Rightarrow> sim \<Rightarrow> sim" where
  "with_entries i b side q s =
     s\<lparr>sm_fills := sm_fills s @ [entry_fill i b T1 side q, entry_fill i b T2 side q],
       sm_open_entries := [(T1, entry_fill i b T1 side q), (T2, entry_fill i b T2 side q)]\<rparr>"

lemma with_entries_state: "sm_state (with_entries i b side q s) = sm_state s"
  by (simp add: with_entries_def)

text \<open>The three courses of a bar.\<close>

lemma bar_step_cases:
  assumes "agrees s" "spec_contract (su_spec u)" "coeff (su_rate u) \<noteq> 0"
  obtains (quiet) s1 s2 where "take_orders (su_rate u) i b s = (s1, [])"
      "s2 = judge_brackets (su_rate u) i b s1" "calm s2"
      "bar_step u i b sig s = Inr (adopt i (on_bar_close (sm_state s2) b sig (su_config u)) s2)"
  | (skipped) s1 s2 ent k where "take_orders (su_rate u) i b s = (s1, ent)" "sm_open_entries s1 = []"
      "s2 = s1\<lparr>sm_skips := sm_skips s1 @ [k], sm_state := TradeState\<rparr>" "calm s2"
      "bar_step u i b sig s = Inr (adopt i (on_bar_close (sm_state s2) b sig (su_config u)) s2)"
  | (entered) s1 s2 ent side x rc q d where "take_orders (su_rate u) i b s = (s1, ent)"
      "sm_open_entries s1 = []" "sm_state s = fresh_entry side x rc" "sized u (sm_equity s1) x (ba_open b) q" "\<not> sm_ruined s1" "s2 = adopt i d (with_entries i b side q s1)" "calm s2"
      "bar_step u i b sig s = Inr (adopt i (on_bar_close (sm_state s2) b sig (su_config u)) s2)"
proof -
  obtain s1 ent where t: "take_orders (su_rate u) i b s = (s1, ent)" by (rule prod.exhaust)
  note st = take_orders_state [OF t]
  from take_orders_agrees [OF assms(1) t]
  have inv: "manager_inv (sm_state s1)" "matched (sm_state s1) (sm_brackets s1)"
      "distinct (map fst (sm_open_entries s1))"
    and held: "\<And>r. dict_get (sm_open_entries s1) r \<noteq> None \<longleftrightarrow> dict_get (sm_brackets s1) r \<noteq> None"
    and sh: "pending_tranches (sm_state s1) = [] \<and> ent = [] \<or>
     (\<exists>side x rc. sm_state s1 = fresh_entry side x rc \<and> sm_brackets s1 = [] \<and> sm_open_entries s1 = [] \<and>
        ent = map (open_action side) (ts_tranches (sm_state s1)))"
    by blast+
  from sh consider (idle) "pending_tranches (sm_state s1) = []" "ent = []"
    | (waiting) side x rc where "sm_state s1 = fresh_entry side x rc" "sm_brackets s1 = []"
        "sm_open_entries s1 = []" "ent = map (open_action side) (ts_tranches (fresh_entry side x rc))"
    by auto
  then show thesis
  proof cases
    case idle
    have "calm s1"
      using inv held idle(1) st(3) unfolding calm_def by (simp del: not_None_eq)
    from judge_brackets_calm [OF this st(3)]
    have "calm (judge_brackets (su_rate u) i b s1)" by blast
    moreover have "size_or_skip u i b (s1, []) = Inr (s1, [], None)"
      by (simp add: size_or_skip_def split: option.split)
    ultimately show thesis using t idle
      by (intro quiet [of s1]) (simp_all add: bar_step_def confirm_entry_def)
  next
    case waiting
    have x: "ts_side (sm_state s1) = Some side" "ts_pending_stop (sm_state s1) = Some x" "ent \<noteq> []"
      using waiting by (simp_all add: fresh_entry_def)
    show thesis
      using assms(2,3) x
    proof (cases rule: size_or_skip_cases [where i = i and b = b])
      case (skipped k)
      let ?s2 = "s1\<lparr>sm_skips := sm_skips s1 @ [k], sm_state := TradeState\<rparr>"
      have "calm ?s2"
        using waiting st(3) manager_inv_initial matched_initial
        by (simp add: calm_def pending_tranches_def TradeState_def)
      then show thesis using t skipped waiting
        by (intro that(2) [of s1 ent ?s2 k]) (simp_all add: bar_step_def confirm_entry_def judge_nothing)
    next
      case (accepted q)
      let ?s2 = "with_entries i b side q s1"
      have f: "fill_entries i b (Some q) ent s1 = Inr ?s2"
        using waiting fill_entries_two [of i b q side x rc s1] by (simp add: with_entries_def)
      have j: "judge_brackets (su_rate u) i b ?s2 = ?s2"
        using waiting by (intro judge_nothing) (simp add: with_entries_def)
      obtain d where d: "on_entry_filled (sm_state ?s2) (ba_open b) i (su_config u) (Some q)
          (ts_reference_close (sm_state ?s2)) = Inr d"
        using on_entry_filled_fresh [of side x rc "ba_open b" i "su_config u" q]
          waiting(1) by (metis with_entries_state)
      have "calm (adopt i d ?s2)"
      proof (rule adopt_confirmed [OF _ _ _ _ _ d])
        show "dict_get (sm_open_entries ?s2) r \<noteq> None" for r
          by (cases r) (simp_all add: with_entries_def)
      qed (use waiting st(3) in \<open>simp_all add: with_entries_def\<close>)
      then show thesis using t accepted waiting(3) f j d x(3)
        by (intro that(3) [of s1 ent side x rc q "adopt i d ?s2" d])
          (simp_all add: bar_step_def confirm_entry_def waiting(1) [unfolded st(1)])
    qed
  qed
qed


section \<open>The history of a run\<close>

text \<open>The two fills a trade was made of, with every field.\<close>

definition entry_fill_of :: "backtest_trade \<Rightarrow> backtest_fill" where
  "entry_fill_of t =
     \<lparr>bf_bar_index = bt_entry_bar_index t, bf_open_time = bt_entry_time t, bf_kind = ENTRY,
      bf_role = bt_role t, bf_side = bt_side t, bf_price = bt_entry_price t, bf_quantity = bt_quantity t,
      bf_reason = None\<rparr>"

definition exit_fill_of :: "backtest_trade \<Rightarrow> backtest_fill" where
  "exit_fill_of t =
     \<lparr>bf_bar_index = bt_exit_bar_index t, bf_open_time = bt_exit_time t, bf_kind = EXIT,
      bf_role = bt_role t, bf_side = bt_side t, bf_price = bt_exit_price t, bf_quantity = bt_quantity t,
      bf_reason = Some (bt_reason t)\<rparr>"

definition entries_in :: "backtest_fill list \<Rightarrow> backtest_fill list" where
  "entries_in fills = filter (\<lambda>f. bf_kind f = ENTRY) fills"

definition exits_in :: "backtest_fill list \<Rightarrow> backtest_fill list" where
  "exits_in fills = filter (\<lambda>f. bf_kind f = EXIT) fills"

definition history :: "backtest_setup \<Rightarrow> dec \<Rightarrow> sim \<Rightarrow> bool" where
  "history u e0 s \<longleftrightarrow>
     books (su_rate u) e0 s \<and> distinct (map fst (sm_open_entries s)) \<and>
     (\<forall>(r, f) \<in> set (sm_open_entries s). bf_role f = r \<and> bf_kind f = ENTRY \<and> bf_reason f = None) \<and>
     (\<forall>g. count_list (entries_in (sm_fills s)) g =
       count_list (map entry_fill_of (sm_trades s)) g + count_list (map snd (sm_open_entries s)) g) \<and>
     exits_in (sm_fills s) = map exit_fill_of (sm_trades s) \<and>
     (\<forall>t \<in> set (sm_trades s). bt_entry_bar_index t < bt_exit_bar_index t) \<and>
     (\<forall>n < length (sm_trades s). equity_after (su_rate u) e0 (take (Suc n) (sm_trades s)) \<le> 0 \<longrightarrow>
        (\<forall>f \<in> set (entries_in (sm_fills s)). bf_bar_index f < bt_exit_bar_index (sm_trades s ! n)))"

definition below :: "int \<Rightarrow> sim \<Rightarrow> bool" where
  "below i s \<longleftrightarrow> (\<forall>f \<in> set (entries_in (sm_fills s)). bf_bar_index f < i) \<and>
     (\<forall>t \<in> set (sm_trades s). bt_exit_bar_index t \<le> i)"

lemma history_initial: "history u e0 (initial_sim e0)" "below i (initial_sim e0)"
  using books_initial [of "su_rate u" e0]
  by (simp_all add: history_def below_def entries_in_def exits_in_def) (simp_all add: initial_sim_def)

lemma entries_in_append [simp]:
  "entries_in (xs @ ys) = entries_in xs @ entries_in ys" "entries_in [] = []"
  "entries_in [exit_fill i b r p z f] = []" "entries_in [entry_fill i b r side q, entry_fill i b r' side q] =
     [entry_fill i b r side q, entry_fill i b r' side q]"
  by (simp_all add: entries_in_def exit_fill_def entry_fill_def)

lemma exits_in_append [simp]:
  "exits_in (xs @ ys) = exits_in xs @ exits_in ys" "exits_in [] = []"
  "exits_in [exit_fill i b r p z f] = [exit_fill i b r p z f]"
  "exits_in [entry_fill i b r side q, entry_fill i b r' side q] = []"
  by (simp_all add: exits_in_def exit_fill_def entry_fill_def)

lemma in_entries: "f \<in> set (entries_in fs) \<longleftrightarrow> f \<in> set fs \<and> bf_kind f = ENTRY"
  by (auto simp: entries_in_def)

lemma count_dict_del:
  "distinct (map fst d) \<Longrightarrow> dict_get d k = Some v \<Longrightarrow>
   count_list (map snd d) g = count_list (map snd (dict_del k d)) g + (if v = g then 1 else 0)"
proof (induction d)
  case (Cons p d)
  then show ?case
    by (cases p) (auto simp: delete_id map_of_eq_None_iff split: if_splits)
qed simp

text \<open>
  The gate an entry passed: it was filled at the open of the bar after a signal, for the side and
  with the stop of that signal, and sized from the equity the trades closed by then had left.
\<close>

definition gated ::
  "backtest_setup \<Rightarrow> dec \<Rightarrow> (bar \<times> bar_signal) list \<Rightarrow> backtest_trade list \<Rightarrow> backtest_fill \<Rightarrow> bool" where
  "gated u e0 xs trades f \<longleftrightarrow> (\<exists>k stop. Suc k < length xs \<and> bf_bar_index f = int (Suc k) \<and>
     bf_price f = ba_open (fst (xs ! Suc k)) \<and> wanted (snd (xs ! k)) (bf_side f) stop \<and>
     sized u (equity_after (su_rate u) e0 (filter (\<lambda>t. bt_exit_bar_index t \<le> bf_bar_index f) trades))
       stop (bf_price f) (bf_quantity f))"

lemma gated_more:
  "bf_bar_index f < bt_exit_bar_index t \<Longrightarrow> gated u e0 xs (ts @ [t]) f = gated u e0 xs ts f"
  by (simp add: gated_def)

definition chronicle :: "backtest_setup \<Rightarrow> dec \<Rightarrow> (bar \<times> bar_signal) list \<Rightarrow> int \<Rightarrow> sim \<Rightarrow> bool" where
  "chronicle u e0 xs i s \<longleftrightarrow> history u e0 s \<and> below i s \<and>
     (\<forall>f \<in> set (entries_in (sm_fills s)). gated u e0 xs (sm_trades s) f)"

lemma open_entry_filled:
  assumes "history u e0 s" "dict_get (sm_open_entries s) r = Some f"
  shows "f \<in> set (entries_in (sm_fills s))"
proof -
  have "f \<in> set (map snd (sm_open_entries s))" using map_of_SomeD [OF assms(2)] by force
  then have "0 < count_list (map snd (sm_open_entries s)) f" by (simp add: count_list_0_iff zero_less_iff_neq_zero)
  then have "count_list (entries_in (sm_fills s)) f \<noteq> 0" using assms(1) by (simp add: history_def)
  then show ?thesis by (simp add: count_list_0_iff)
qed

lemma chronicle_exit:
  assumes "chronicle u e0 xs i s"
  shows "chronicle u e0 xs i (record_exit (su_rate u) i b role p z s)"
proof (cases "dict_get (sm_open_entries s) role")
  case None
  then show ?thesis using assms by (simp add: record_exit_def)
next
  case (Some f)
  let ?t = "exit_trade i b role p z f" and ?x = "exit_fill i b role p z f"
  let ?s = "s\<lparr>sm_open_entries := dict_del role (sm_open_entries s), sm_fills := sm_fills s @ [?x]\<rparr>"
  have h: "history u e0 s" and bl: "below i s"
    and gt: "\<forall>f \<in> set (entries_in (sm_fills s)). gated u e0 xs (sm_trades s) f"
    using assms by (simp_all add: chronicle_def)
  have r: "record_exit (su_rate u) i b role p z s = book_trade (su_rate u) ?s ?t"
    by (simp add: record_exit_def Some)
  have fields: "sm_fills (book_trade (su_rate u) ?s ?t) = sm_fills s @ [?x]"
    "sm_trades (book_trade (su_rate u) ?s ?t) = sm_trades s @ [?t]"
    "sm_open_entries (book_trade (su_rate u) ?s ?t) = dict_del role (sm_open_entries s)"
    by (simp_all add: book_trade_def Let_def)
  have f: "bf_role f = role" "bf_kind f = ENTRY" "bf_reason f = None"
    using h map_of_SomeD [OF Some] by (auto simp: history_def)
  have late: "bf_bar_index f < i" if "f \<in> set (entries_in (sm_fills s))" for f
    using bl that by (simp add: below_def)
  have bars: "bt_exit_bar_index ?t = i" "bt_entry_bar_index ?t < i"
    using late [OF open_entry_filled [OF h Some]] by (simp_all add: exit_trade_def)
  have pair: "entry_fill_of ?t = f" "exit_fill_of ?t = ?x"
    using f by (simp_all add: entry_fill_of_def exit_fill_of_def exit_trade_def exit_fill_def)
  have "books (su_rate u) e0 ?s" using h by (simp add: history_def books_def)
  note bk = books_trade [OF this, of ?t]
  have "distinct (map fst (sm_open_entries s))" using h by (simp add: history_def)
  note del = count_dict_del [OF this Some]
  have old: "(r, g) \<in> set (dict_del role (sm_open_entries s)) \<Longrightarrow> (r, g) \<in> set (sm_open_entries s)" for r g
    by (auto simp: AList.delete_eq)
  have ruin: "\<forall>f \<in> set (entries_in (sm_fills s)). bf_bar_index f < bt_exit_bar_index ((sm_trades s @ [?t]) ! n)"
    if "n < Suc (length (sm_trades s))" "equity_after (su_rate u) e0 (take (Suc n) (sm_trades s @ [?t])) \<le> 0" for n
  proof (cases "n < length (sm_trades s)")
    case True
    then show ?thesis using h that by (simp add: history_def nth_append)
  next
    case False
    then show ?thesis using late that bars(1) by (simp add: less_Suc_eq)
  qed
  have kept: "\<forall>(r, g) \<in> set (dict_del role (sm_open_entries s)). bf_role g = r \<and> bf_kind g = ENTRY \<and> bf_reason g = None"
    using h old unfolding history_def by fast
  have counts: "\<forall>g. count_list (entries_in (sm_fills s @ [?x])) g =
      count_list (map entry_fill_of (sm_trades s @ [?t])) g +
      count_list (map snd (dict_del role (sm_open_entries s))) g"
    using h del pair(1) by (simp add: history_def)
  have "history u e0 (book_trade (su_rate u) ?s ?t)"
    unfolding history_def fields
  proof (intro conjI kept counts bk allI impI ballI)
    show "distinct (map fst (dict_del role (sm_open_entries s)))" using h by (simp add: history_def)
    show "exits_in (sm_fills s @ [?x]) = map exit_fill_of (sm_trades s @ [?t])"
      using h pair(2) by (simp add: history_def)
    show "bt_entry_bar_index t < bt_exit_bar_index t" if "t \<in> set (sm_trades s @ [?t])" for t
      using that h bars by (auto simp: history_def)
    show "bf_bar_index g < bt_exit_bar_index ((sm_trades s @ [?t]) ! n)"
      if "n < length (sm_trades s @ [?t])" "equity_after (su_rate u) e0 (take (Suc n) (sm_trades s @ [?t])) \<le> 0"
        "g \<in> set (entries_in (sm_fills s @ [?x]))" for n g
      using ruin [of n] that by simp
  qed
  moreover have "below i (book_trade (su_rate u) ?s ?t)"
    unfolding below_def fields using bl bars by (simp add: below_def)
  moreover have "\<forall>f \<in> set (entries_in (sm_fills s @ [?x])). gated u e0 xs (sm_trades s @ [?t]) f"
    using gt late bars(1) gated_more by simp
  ultimately show ?thesis unfolding r chronicle_def fields by blast
qed

lemma chronicle_frame [simp]:
  "chronicle u e0 xs i (s\<lparr>sm_brackets := bs\<rparr>) = chronicle u e0 xs i s"
  "chronicle u e0 xs i (s\<lparr>sm_state := st\<rparr>) = chronicle u e0 xs i s"
  "chronicle u e0 xs i (s\<lparr>sm_queued := q\<rparr>) = chronicle u e0 xs i s"
  "chronicle u e0 xs i (s\<lparr>sm_skips := k\<rparr>) = chronicle u e0 xs i s"
  by (simp_all add: chronicle_def history_def below_def books_def)

lemma chronicle_adopt [simp]: "chronicle u e0 xs i (adopt k d s) = chronicle u e0 xs i s"
  by (simp add: chronicle_def history_def below_def adopt_fields)

lemma chronicle_next: "chronicle u e0 xs i s \<Longrightarrow> chronicle u e0 xs (i + 1) s"
  by (force simp: chronicle_def below_def)

lemma chronicle_take_orders:
  assumes "chronicle u e0 xs i s" "take_orders (su_rate u) i b s = (s', ent)"
  shows "chronicle u e0 xs i s'"
proof -
  let ?f = "\<lambda>s a. if ta_kind a = CLOSE_MARKET then fst (take_order (su_rate u) i b (s, []) a) else s"
  have "chronicle u e0 xs i (foldl ?f s (sm_queued s))"
    by (rule foldl_keeps [where P = "chronicle u e0 xs i"])
      (simp_all add: take_order_def chronicle_exit assms(1))
  then show ?thesis using assms(2) by (auto simp: take_orders_def take_order_fold)
qed

lemma chronicle_judge:
  assumes "chronicle u e0 xs i s"
  shows "chronicle u e0 xs i (judge_brackets (su_rate u) i b s)"
  unfolding judge_brackets_def
  by (rule foldl_keeps [where P = "chronicle u e0 xs i"])
    (simp_all add: judge_bracket_def Let_def chronicle_exit assms split: prod.split option.split)

text \<open>Both entries of a signal of the bar before.\<close>

lemma chronicle_entries:
  assumes "chronicle u e0 xs (int (Suc k)) s" "sm_open_entries s = []" "\<not> sm_ruined s"
    and "Suc k < length xs" "b = fst (xs ! Suc k)" "wanted (snd (xs ! k)) side x"
    and "sized u (sm_equity s) x (ba_open b) q"
  shows "chronicle u e0 xs (int (Suc k) + 1) (with_entries (int (Suc k)) b side q s)"
proof -
  let ?i = "int (Suc k)"
  let ?w = "with_entries ?i b side q s"
  have h: "history u e0 s" "below ?i s" and gt: "\<forall>f \<in> set (entries_in (sm_fills s)). gated u e0 xs (sm_trades s) f"
    using assms(1) by (simp_all add: chronicle_def)
  have bk: "books (su_rate u) e0 s" using h by (simp add: history_def)
  then have "\<not> sm_ruined (account (su_rate u) e0 (sm_trades s))" using assms(3) by (simp add: books_def Let_def)
  then have solvent: "\<not> equity_after (su_rate u) e0 (take (Suc n) (sm_trades s)) \<le> 0"
    if "n < length (sm_trades s)" for n using that by (auto simp: account_ruined)
  have equity: "sm_equity s = equity_after (su_rate u) e0 (sm_trades s)"
    using bk by (simp add: books_def Let_def account_equity)
  have all: "filter (\<lambda>t. bt_exit_bar_index t \<le> ?i) (sm_trades s) = sm_trades s"
    using h(2) by (simp add: below_def filter_id_conv)
  have w: "sm_trades ?w = sm_trades s"
    "sm_fills ?w = sm_fills s @ [entry_fill ?i b T1 side q, entry_fill ?i b T2 side q]"
    "sm_open_entries ?w = [(T1, entry_fill ?i b T1 side q), (T2, entry_fill ?i b T2 side q)]"
    by (simp_all add: with_entries_def)
  have e: "bf_bar_index (entry_fill ?i b r side q) = ?i" "bf_price (entry_fill ?i b r side q) = ba_open b"
    "bf_side (entry_fill ?i b r side q) = side" "bf_quantity (entry_fill ?i b r side q) = q"
    "bf_role (entry_fill ?i b r side q) = r" "bf_kind (entry_fill ?i b r side q) = ENTRY"
    "bf_reason (entry_fill ?i b r side q) = None" for r
    by (simp_all add: entry_fill_def)
  have new: "gated u e0 xs (sm_trades s) (entry_fill ?i b r side q)" for r
    unfolding gated_def e all using assms(4-7) equity by (intro exI [of _ k] exI [of _ x]) simp
  have "books (su_rate u) e0 ?w" using bk by (simp add: books_def with_entries_def)
  then have "history u e0 ?w"
    unfolding history_def w using h assms(2) solvent e by (simp add: history_def)
  moreover have "below (?i + 1) ?w" unfolding below_def w using h(2) e by (fastforce simp: below_def)
  ultimately show ?thesis unfolding chronicle_def w using gt new by simp
qed

text \<open>A waiting entry comes from the signal of the bar before.\<close>

definition awaits :: "(bar \<times> bar_signal) list \<Rightarrow> int \<Rightarrow> sim \<Rightarrow> bool" where
  "awaits xs i s \<longleftrightarrow> (\<forall>side x rc. sm_state s = fresh_entry side x rc \<longrightarrow>
     (\<exists>k. i = int (Suc k) \<and> wanted (snd (xs ! k)) side x))"

lemma adopt_awaits:
  assumes "calm s"
  shows "awaits xs (int n + 1) (adopt i (on_bar_close (sm_state s) b (snd (xs ! n)) c) s)"
  unfolding awaits_def adopt_fields
proof (intro allI impI)
  fix side x rc
  assume fresh: "td_state (on_bar_close (sm_state s) b (snd (xs ! n)) c) = fresh_entry side x rc"
  have "manager_inv (sm_state s)" "matched (sm_state s) (sm_brackets s)" "pending_tranches (sm_state s) = []"
    using assms by (simp_all add: calm_def)
  from on_bar_close_part [OF this refl, of "sm_state s" i b "snd (xs ! n)" c] fresh fresh_pending
  have "wanted (snd (xs ! n)) side x" by auto
  then show "\<exists>k. int n + 1 = int (Suc k) \<and> wanted (snd (xs ! k)) side x" by (intro exI [of _ n]) simp
qed

lemma bar_step_keeps:
  assumes "agrees s" "spec_contract (su_spec u)" "coeff (su_rate u) \<noteq> 0"
    and "chronicle u e0 xs (int n) s" "awaits xs (int n) s" "n < length xs" "xs ! n = (b, sig)"
  shows "\<exists>s'. bar_step u (int n) b sig s = Inr s' \<and> agrees s' \<and> chronicle u e0 xs (int n + 1) s' \<and>
    awaits xs (int n + 1) s'"
  using assms(1-3)
proof (cases rule: bar_step_cases [where i = "int n" and b = b and sig = sig])
  case (quiet s1 s2)
  have "chronicle u e0 xs (int n) s1" by (rule chronicle_take_orders [OF assms(4) quiet(1)])
  then have "chronicle u e0 xs (int n + 1) s2" unfolding quiet(2) by (intro chronicle_next chronicle_judge)
  with adopt_bar_close [OF quiet(3)] adopt_awaits [OF quiet(3), of xs n] quiet(4) assms(7) show ?thesis by simp
next
  case (skipped s1 s2 ent k)
  have "chronicle u e0 xs (int n) s1" by (rule chronicle_take_orders [OF assms(4) skipped(1)])
  then have "chronicle u e0 xs (int n + 1) s2" unfolding skipped(3) by (simp add: chronicle_next)
  with adopt_bar_close [OF skipped(4)] adopt_awaits [OF skipped(4), of xs n] skipped(5) assms(7)
  show ?thesis by simp
next
  case (entered s1 s2 ent side x rc q d)
  obtain k where k: "int n = int (Suc k)" "wanted (snd (xs ! k)) side x"
    using assms(5) entered(3) by (auto simp: awaits_def)
  have n: "n = Suc k" using k(1) by simp
  have "chronicle u e0 xs (int n) s1" by (rule chronicle_take_orders [OF assms(4) entered(1)])
  then have "chronicle u e0 xs (int n + 1) s2"
    unfolding entered(6) chronicle_adopt k(1)
    by (rule chronicle_entries) (use entered k n assms(6,7) in simp_all)
  with adopt_bar_close [OF entered(7)] adopt_awaits [OF entered(7), of xs n] entered(8) assms(7)
  show ?thesis by simp
qed

lemma run_bars_keeps:
  assumes "agrees s" "spec_contract (su_spec u)" "coeff (su_rate u) \<noteq> 0"
    and "chronicle u e0 (xs @ ys) (int (length xs)) s" "awaits (xs @ ys) (int (length xs)) s"
  shows "\<exists>s'. run_bars u (int (length xs)) ys s = Inr s' \<and> agrees s' \<and>
    chronicle u e0 (xs @ ys) (int (length (xs @ ys))) s'"
  using assms(1,4,5)
proof (induction ys arbitrary: xs s)
  case (Cons y ys)
  obtain b sig where y: "y = (b, sig)" by fastforce
  obtain s1 where s1: "bar_step u (int (length xs)) b sig s = Inr s1" "agrees s1"
    "chronicle u e0 (xs @ y # ys) (int (length xs) + 1) s1" "awaits (xs @ y # ys) (int (length xs) + 1) s1"
    using bar_step_keeps [OF Cons.prems(1) assms(2,3) Cons.prems(2,3), of b sig] by (auto simp: y nth_append)
  have len: "int (length (xs @ [y])) = int (length xs) + 1" by simp
  have split: "xs @ y # ys = (xs @ [y]) @ ys" by simp
  from Cons.IH [OF s1(2) s1(3) [unfolded split, folded len] s1(4) [unfolded split, folded len]]
  show ?case using s1(1) by (simp add: y add.commute)
qed simp

lemma run_backtest_keeps:
  assumes "spec_contract (su_spec u)" "coeff (su_rate u) \<noteq> 0" "compute_signals bars (su_config u) = Inr sigs"
  shows "\<exists>s. run_backtest bars u e0 = Inr (result_of e0 s) \<and> agrees s \<and>
    chronicle u e0 (zip bars sigs) (int (length (zip bars sigs))) s"
proof -
  have "chronicle u e0 ([] @ zip bars sigs) (int (length [])) (initial_sim e0)"
    "awaits ([] @ zip bars sigs) (int (length [])) (initial_sim e0)"
    using history_initial
    by (simp_all add: chronicle_def awaits_def) (simp_all add: initial_sim_def entries_in_def TradeState_def fresh_entry_def)
  from run_bars_keeps [OF agrees_initial assms(1,2) this] assms(3)
  show ?thesis by (auto simp: run_backtest_def)
qed


section \<open>A run\<close>

text \<open>
  The zigzag bars: the sell of bar 1 is entered above its stop at bar 2 and aborted, which is
  filled at bar 3; the two later signals have no risk at the next open and are skipped.
\<close>

definition quick_setup :: backtest_setup where
  "quick_setup = \<lparr>su_config = quick_config, su_spec = sample_spec, su_rate = dint 1, su_confirm = False\<rparr>"

definition quick_trade :: "tranche_role \<Rightarrow> backtest_trade" where
  "quick_trade role =
     \<lparr>bt_role = role, bt_side = SELL, bt_quantity = dint 2, bt_entry_bar_index = 2,
      bt_entry_time = Aware 2 0, bt_entry_price = dint 110, bt_exit_bar_index = 3,
      bt_exit_time = Aware 3 0, bt_exit_price = dint 90, bt_reason = INVALID_RISK\<rparr>"

lemma quick_run:
  "map_sum id (\<lambda>s. (sm_equity s, sm_max_drawdown s, sm_trades s, map bk_reason (sm_skips s)))
     (run_bars quick_setup 0 (zip zigzag zigzag_signals) (initial_sim (dint 1000))) =
   Inr (dint 1080, 0, map quick_trade [T1, T2], [NON_POSITIVE_RISK_SKIP, NON_POSITIVE_RISK_SKIP])"
  by code_simp

lemma quick_setup_ok:
  "spec_contract (su_spec quick_setup)" "coeff (su_rate quick_setup) \<noteq> 0"
  "compute_signals zigzag (su_config quick_setup) = Inr zigzag_signals"
  using sample_contracts(2) zigzag_run by (simp_all add: quick_setup_def)

lemma quick_result:
  obtains r where "run_backtest zigzag quick_setup (dint 1000) = Inr r" "rs_final_equity r = dint 1080"
    "rs_max_drawdown r = 0" "rs_trades r = map quick_trade [T1, T2]"
proof -
  obtain s where s: "run_bars quick_setup 0 (zip zigzag zigzag_signals) (initial_sim (dint 1000)) = Inr s"
    "sm_equity s = dint 1080" "sm_max_drawdown s = 0" "sm_trades s = map quick_trade [T1, T2]"
    using quick_run by (cases "run_bars quick_setup 0 (zip zigzag zigzag_signals) (initial_sim (dint 1000))")
      simp_all
  then show thesis
    by (intro that [of "result_of (dint 1000) s"])
      (simp_all add: run_backtest_def quick_setup_ok result_of_def)
qed

section \<open>Properties\<close>

text \<open>C29: A bracket on a bar: nothing happens exactly when the bar reaches neither level. When the bar
  reaches the stop, the stop wins even if the target was reached too; it fills at the stop or, after
  a gap, at the open, never better than the stop. Otherwise the target fills at the target or, after
  a gap, at the open, never worse than the target. Every fill price lies within the bar.\<close>

theorem bracket_exit_rule:
  assumes "bar_contract b"
  shows "case bracket_exit k b of
      None \<Rightarrow> \<not> stop_touched k b \<and> (\<forall>t. \<not> target_touched k b t)
    | Some (price, reason) \<Rightarrow> ba_low b \<le> price \<and> price \<le> ba_high b \<and>
        (if stop_touched k b
         then reason = (if bc_breakeven k then BREAKEVEN_STOP else STOP_LOSS) \<and>
           (price = bc_stop_loss k \<or> price = ba_open b) \<and>
           (if bc_side k = BUY then price \<le> bc_stop_loss k else bc_stop_loss k \<le> price)
         else reason = TAKE_PROFIT \<and> (\<exists>t. target_touched k b t \<and> (price = t \<or> price = ba_open b) \<and>
           (if bc_side k = BUY then t \<le> price else price \<le> t)))"
proof (cases "stop_touched k b")
  case True
  then show ?thesis
    by (rule bracket_exit_stop) (use assms True in \<open>auto simp: bar_contract_def\<close>)
next
  case False
  show ?thesis
  proof (cases "bc_take_profit k")
    case None
    then show ?thesis using False by (simp add: bracket_exit_untouched target_touched_def)
  next
    case (Some t)
    have range: "ba_low b \<le> ba_open b" "ba_open b \<le> ba_high b"
      using assms by (simp_all add: bar_contract_def)
    note rule = bracket_exit_target [OF False Some range]
    show ?thesis
    proof (cases "target_touched k b t")
      case True
      with rule obtain p where p: "bracket_exit k b = Some (p, TAKE_PROFIT)" "ba_low b \<le> p" "p \<le> ba_high b"
        "p = t \<or> p = ba_open b" "if bc_side k = BUY then t \<le> p else p \<le> t" by auto
      have "\<exists>t. target_touched k b t \<and> (p = t \<or> p = ba_open b) \<and> (if bc_side k = BUY then t \<le> p else p \<le> t)"
        using True p(4,5) by blast
      then show ?thesis using p(1-3) False by simp
    next
      case no: False
      with rule have "bracket_exit k b = None" by simp
      moreover have "\<not> target_touched k b t'" for t' using no Some by (auto simp: target_touched_def)
      ultimately show ?thesis using False by simp
    qed
  qed
qed

definition both_reached :: bracket where
  "both_reached = \<lparr>bc_role = T1, bc_side = BUY, bc_quantity = dint 1, bc_stop_loss = dint 1999,
     bc_take_profit = Some (dint 2005), bc_active_from = 0, bc_breakeven = False\<rparr>"

theorem bracket_exit_rule_witness:
  "bracket_exit both_reached sample_bar = Some (dint 1999, STOP_LOSS) \<and> ba_low sample_bar \<le> dint 1999"
proof -
  have "bar_contract sample_bar" by (simp add: bar_contract_def sample_bar_def) code_simp
  moreover have "bracket_exit both_reached sample_bar = Some (dint 1999, STOP_LOSS)" by code_simp
  ultimately show ?thesis using bracket_exit_rule [of sample_bar both_reached] by simp
qed

text \<open>C25: A backtest always ends with a result once the signals are computed: with a valid symbol
  and a rate that is not zero, no bar runs into an assertion, a missing pending entry or a
  division by zero, and the only error is one of the signals.\<close>

theorem backtest_completes:
  assumes "spec_contract (su_spec u)" "coeff (su_rate u) \<noteq> 0"
  shows "run_backtest bars u e0 = Inl e \<longleftrightarrow> compute_signals bars (su_config u) = Inl e"
proof (cases "compute_signals bars (su_config u)")
  case (Inr sigs)
  then show ?thesis using run_backtest_keeps [OF assms Inr, of e0] by auto
qed (simp add: run_backtest_def)

theorem backtest_completes_witness:
  "run_backtest zigzag quick_setup (dint 1000) \<noteq> Inl AssertionError"
  using backtest_completes [OF quick_setup_ok(1,2), of zigzag "dint 1000" AssertionError] quick_setup_ok(3)
  by simp

lemma run_backtest_result:
  assumes "run_backtest bars u e0 = Inr r" "spec_contract (su_spec u)" "coeff (su_rate u) \<noteq> 0"
  obtains s sigs where "r = result_of e0 s" "agrees s" "history u e0 s"
    "compute_signals bars (su_config u) = Inr sigs"
    "\<forall>f \<in> set (entries_in (sm_fills s)). gated u e0 (zip bars sigs) (sm_trades s) f"
proof -
  obtain sigs where "compute_signals bars (su_config u) = Inr sigs"
    using assms(1) by (auto simp: run_backtest_def bindr_Inr_iff)
  from run_backtest_keeps [OF assms(2,3) this, of e0] show thesis
    using assms(1) that \<open>compute_signals bars (su_config u) = Inr sigs\<close> by (auto simp: chronicle_def)
qed

text \<open>C28: The account figures are those of the list of trades: the final equity is the initial one
  plus the results of the trades in order, the peak is the greatest equity on the way, the maximal
  drawdown is the greatest distance from the peak so far (zero without one), and the account is
  ruined exactly when some trade left no positive equity.\<close>

theorem backtest_account:
  assumes "run_backtest bars u e0 = Inr r" "spec_contract (su_spec u)" "coeff (su_rate u) \<noteq> 0"
  defines "equity n \<equiv> equity_after (su_rate u) e0 (take n (rs_trades r))"
    and "peak n \<equiv> peak_after (su_rate u) e0 (take n (rs_trades r))"
    and "count \<equiv> length (rs_trades r)"
  shows "rs_final_equity r = equity count \<and>
    (\<forall>n \<le> count. equity n \<le> rs_peak_equity r) \<and> (\<exists>n \<le> count. rs_peak_equity r = equity n) \<and>
    0 \<le> rs_max_drawdown r \<and> (\<forall>n < count. peak (Suc n) - equity (Suc n) \<le> rs_max_drawdown r) \<and>
    (rs_max_drawdown r = 0 \<or> (\<exists>n < count. rs_max_drawdown r = peak (Suc n) - equity (Suc n))) \<and>
    (rs_ruined r \<longleftrightarrow> (\<exists>n < count. equity (Suc n) \<le> 0))"
proof -
  obtain s where r: "r = result_of e0 s" and h: "history u e0 s"
    using run_backtest_result [OF assms(1-3)] .
  let ?a = "account (su_rate u) e0 (sm_trades s)"
  have "rs_trades r = sm_trades s" "rs_final_equity r = sm_equity ?a" "rs_peak_equity r = sm_peak_equity ?a"
    "rs_max_drawdown r = sm_max_drawdown ?a" "rs_ruined r = sm_ruined ?a"
    using h by (simp_all add: r result_of_def history_def books_def Let_def)
  then show ?thesis
    using account_equity [of "su_rate u" e0 "sm_trades s"] account_peak [of "sm_trades s" "su_rate u" e0]
      account_drawdown [of "su_rate u" e0 "sm_trades s"] account_ruined [of "su_rate u" e0 "sm_trades s"]
    by (simp add: equity_def peak_def count_def)
qed

theorem backtest_account_witness:
  "equity_after (dint 1) (dint 1000) (map quick_trade [T1, T2]) = dint 1080"
proof -
  obtain r where r: "run_backtest zigzag quick_setup (dint 1000) = Inr r" "rs_final_equity r = dint 1080"
    "rs_trades r = map quick_trade [T1, T2]" by (rule quick_result)
  from backtest_account [OF r(1) quick_setup_ok(1,2)] r(2,3) show ?thesis
    by (simp add: quick_setup_def)
qed

text \<open>C26: Every position is accounted for, field by field: the entry fills are, each as often as it
  occurs, exactly the entries of the trades (role, side, size, bar, time and price) and one entry for each position
  not closed yet; the exit fills are exactly the exits of the trades, in their order and with their
  reasons; each exit comes in a later bar than its entry. The entries not closed are of different
  roles, so at most two, and every tranche the final state holds open is one of them.\<close>

theorem backtest_trades_recorded:
  assumes "run_backtest bars u e0 = Inr r" "spec_contract (su_spec u)" "coeff (su_rate u) \<noteq> 0"
  shows "\<exists>opened.
    (\<forall>g. count_list (filter (\<lambda>f. bf_kind f = ENTRY) (rs_fills r)) g =
       count_list (map entry_fill_of (rs_trades r)) g + count_list opened g) \<and>
    filter (\<lambda>f. bf_kind f = EXIT) (rs_fills r) = map exit_fill_of (rs_trades r) \<and>
    (\<forall>t \<in> set (rs_trades r). bt_entry_bar_index t < bt_exit_bar_index t) \<and>
    distinct (map bf_role opened) \<and> length opened \<le> 2 \<and>
    (\<forall>t \<in> set (ts_tranches (rs_final_state r)). tr_state t = OPEN \<longrightarrow> tr_role t \<in> bf_role ` set opened)"
proof -
  obtain s sigs where r: "r = result_of e0 s" and h: "history u e0 s" and a: "agrees s"
    using run_backtest_result [OF assms] .
  let ?opened = "map snd (sm_open_entries s)"
  have roles: "map bf_role ?opened = map fst (sm_open_entries s)"
    using h by (auto simp: history_def)
  have d: "distinct (map bf_role ?opened)" unfolding roles using h by (simp add: history_def)
  then have "length ?opened = card (set (map bf_role ?opened))" by (metis distinct_card length_map)
  also have "\<dots> \<le> card {T1, T2}" by (rule card_mono) (use tranche_role.exhaust in auto)
  finally have len: "length ?opened \<le> 2" by simp
  have held: "tr_role t \<in> bf_role ` set ?opened"
    if t: "t \<in> set (ts_tranches (sm_state s))" "tr_state t = OPEN" for t
  proof -
    have inv: "manager_inv (sm_state s)" "matched (sm_state s) (sm_brackets s)"
      using a by (simp_all add: agrees_def)
    have "dict_get (sm_brackets s) (tr_role t) \<noteq> None"
      using in_tranches [OF inv_two [OF inv(1)] t(1)] matchedD [OF inv(2), of "tr_role t"] t(2)
      by (auto simp: covered_def)
    then have "dict_get (sm_open_entries s) (tr_role t) \<noteq> None" using a by (simp only: agrees_def) blast
    then have "tr_role t \<in> set (map fst (sm_open_entries s))" by (simp add: map_of_eq_None_iff)
    then show ?thesis unfolding roles [symmetric] by (simp only: set_map)
  qed
  show ?thesis
    using h d len held
    by (intro exI [of _ ?opened]) (simp add: r result_of_def history_def entries_in_def exits_in_def)
qed

theorem backtest_trades_recorded_witness:
  "\<exists>r. run_backtest zigzag quick_setup (dint 1000) = Inr r \<and>
     entry_fill_of (quick_trade T1) \<in> set (rs_fills r) \<and> exit_fill_of (quick_trade T2) \<in> set (rs_fills r)"
proof -
  obtain r where r: "run_backtest zigzag quick_setup (dint 1000) = Inr r"
    "rs_trades r = map quick_trade [T1, T2]" by (rule quick_result)
  obtain opened where o: "\<And>g. count_list (filter (\<lambda>f. bf_kind f = ENTRY) (rs_fills r)) g =
      count_list (map entry_fill_of (rs_trades r)) g + count_list opened g"
    "filter (\<lambda>f. bf_kind f = EXIT) (rs_fills r) = map exit_fill_of (rs_trades r)"
    using backtest_trades_recorded [OF r(1) quick_setup_ok(1,2)] by blast
  have "entry_fill_of (quick_trade T1) \<in> set (map entry_fill_of (rs_trades r))" using r(2) by simp
  then have "count_list (map entry_fill_of (rs_trades r)) (entry_fill_of (quick_trade T1)) \<noteq> 0"
    by (simp only: count_list_0_iff not_not)
  then have "count_list (filter (\<lambda>f. bf_kind f = ENTRY) (rs_fills r)) (entry_fill_of (quick_trade T1)) \<noteq> 0"
    by (simp only: o(1))
  then have "entry_fill_of (quick_trade T1) \<in> set (filter (\<lambda>f. bf_kind f = ENTRY) (rs_fills r))"
    by (simp only: count_list_0_iff not_not)
  moreover have "set (filter (\<lambda>f. bf_kind f = EXIT) (rs_fills r)) = set (map exit_fill_of (rs_trades r))"
    by (simp only: o(2))
  ultimately have "entry_fill_of (quick_trade T1) \<in> set (rs_fills r)"
    "exit_fill_of (quick_trade T2) \<in> set (rs_fills r)" using r(2) by auto
  then show ?thesis using r(1) by blast
qed

text \<open>C27: Entries pass the gate: every entry fills at the open of the bar right after a signal, on the
  side of that signal; its size is what \<open>size_entry\<close> computes from the distance between that open
  and the stop of the signal and from the equity left by the trades closed so far, which is
  positive; a size that needs a confirmation is taken only where the caller confirms. And once a
  trade leaves no positive equity, no entry is filled in its exit bar or later.\<close>

theorem backtest_entries_gated:
  assumes "run_backtest bars u e0 = Inr r" "spec_contract (su_spec u)" "coeff (su_rate u) \<noteq> 0"
    and "f \<in> set (rs_fills r)" "bf_kind f = ENTRY" "compute_signals bars (su_config u) = Inr sigs"
    and "equity = equity_after (su_rate u) e0
           (filter (\<lambda>t. bt_exit_bar_index t \<le> bf_bar_index f) (rs_trades r))"
  shows "(\<exists>k stop out. Suc k < length bars \<and> k < length sigs \<and> bf_bar_index f = int (Suc k) \<and>
       bf_price f = ba_open (bars ! Suc k) \<and>
       (if bf_side f = BUY then bs_buy (sigs ! k) \<and> bs_stop_low (sigs ! k) = Some stop
        else bs_sell (sigs ! k) \<and> \<not> bs_buy (sigs ! k) \<and> bs_stop_high (sigs ! k) = Some stop) \<and>
       0 < equity \<and>
       size_entry (su_config u) (dabs (ba_open (bars ! Suc k) - stop)) (su_spec u) equity (su_rate u) = Inr out \<and>
       so_quantity out = Some (bf_quantity f) \<and> (so_requires_confirmation out \<longrightarrow> su_confirm u)) \<and>
    (\<forall>n < length (rs_trades r). equity_after (su_rate u) e0 (take (Suc n) (rs_trades r)) \<le> 0 \<longrightarrow>
       bf_bar_index f < bt_exit_bar_index (rs_trades r ! n))"
proof -
  obtain s where r: "r = result_of e0 s" and h: "history u e0 s"
    and g: "\<forall>f \<in> set (entries_in (sm_fills s)). gated u e0 (zip bars sigs) (sm_trades s) f"
    using run_backtest_result [OF assms(1-3)] assms(6) by (metis sum.inject(2))
  have f: "f \<in> set (entries_in (sm_fills s))" using assms(4,5) by (simp add: r result_of_def in_entries)
  then have "gated u e0 (zip bars sigs) (rs_trades r) f" using g by (simp add: r result_of_def)
  then have "\<exists>k stop out. Suc k < length bars \<and> k < length sigs \<and> bf_bar_index f = int (Suc k) \<and>
       bf_price f = ba_open (bars ! Suc k) \<and>
       (if bf_side f = BUY then bs_buy (sigs ! k) \<and> bs_stop_low (sigs ! k) = Some stop
        else bs_sell (sigs ! k) \<and> \<not> bs_buy (sigs ! k) \<and> bs_stop_high (sigs ! k) = Some stop) \<and>
       0 < equity \<and>
       size_entry (su_config u) (dabs (ba_open (bars ! Suc k) - stop)) (su_spec u) equity (su_rate u) = Inr out \<and>
       so_quantity out = Some (bf_quantity f) \<and> (so_requires_confirmation out \<longrightarrow> su_confirm u)"
    unfolding gated_def wanted_def sized_def assms(7) [symmetric] by (elim exE conjE) (auto simp: assms(7))
  then show ?thesis using h f by (simp add: r result_of_def history_def)
qed

theorem backtest_entries_gated_witness:
  "\<exists>stop out. size_entry quick_config (dabs (ba_open (zigzag ! 2) - stop)) sample_spec (dint 1000) (dint 1) = Inr out \<and>
     so_quantity out = Some (dint 2) \<and> bs_sell (zigzag_signals ! 1) \<and> bs_stop_high (zigzag_signals ! 1) = Some stop"
proof -
  obtain r where r: "run_backtest zigzag quick_setup (dint 1000) = Inr r"
    "rs_trades r = map quick_trade [T1, T2]" by (rule quick_result)
  let ?f = "entry_fill_of (quick_trade T1)"
  obtain s where s: "r = result_of (dint 1000) s" "history quick_setup (dint 1000) s"
    by (rule run_backtest_result [OF r(1) quick_setup_ok(1,2)])
  have "?f \<in> set (map entry_fill_of (sm_trades s))" using r(2) s(1) by (simp add: result_of_def)
  then have "count_list (map entry_fill_of (sm_trades s)) ?f \<noteq> 0" by (simp only: count_list_0_iff not_not)
  then have "count_list (entries_in (sm_fills s)) ?f \<noteq> 0" using s(2) by (simp add: history_def)
  then have f: "?f \<in> set (rs_fills r)" using s(1) by (simp add: count_list_0_iff in_entries result_of_def)
  have fields: "bf_kind ?f = ENTRY" "bf_bar_index ?f = 2" "bf_side ?f = SELL" "bf_quantity ?f = dint 2"
    by (simp_all add: entry_fill_of_def quick_trade_def)
  have none: "filter (\<lambda>t. bt_exit_bar_index t \<le> bf_bar_index ?f) (rs_trades r) = []"
    using fields(2) by (simp add: r(2)) (simp add: quick_trade_def)
  have e: "dint 1000 = equity_after (su_rate quick_setup) (dint 1000)
      (filter (\<lambda>t. bt_exit_bar_index t \<le> bf_bar_index ?f) (rs_trades r))"
    by (simp only: none) (simp add: equity_after_def)
  from backtest_entries_gated [OF r(1) quick_setup_ok(1,2) f fields(1) quick_setup_ok(3) e,
      THEN conjunct1, unfolded fields]
  show ?thesis by (auto simp: quick_setup_def numeral_2_eq_2)
qed

end
