(* ===== verification/Mt5_Errors.thy ===== *)
theory Mt5_Errors
  imports Idempotency Order_State_Machine
begin

text \<open>
  \<open>infrastructure/broker/mt5_errors.py\<close>: return codes of the MT5 terminal as results of the
  broker port. \<open>Mt5Ambiguous\<close> is a subclass of \<open>TimeoutError\<close>: handlers see a timeout.
\<close>

definition RETCODE_DONE :: int where "RETCODE_DONE = 10009"
definition RETCODE_PLACED :: int where "RETCODE_PLACED = 10008"
definition RETCODE_DONE_PARTIAL :: int where "RETCODE_DONE_PARTIAL = 10010"

lemmas retcode_defs = RETCODE_DONE_def RETCODE_PLACED_def RETCODE_DONE_PARTIAL_def

definition AMBIGUOUS_RETCODES :: "int list" where
  "AMBIGUOUS_RETCODES = [10011, 10012, 10028, 10029, 10031]"

definition RETRY_WITH_OTHER_FILLING :: int where
  "RETRY_WITH_OTHER_FILLING = 10030"

definition REJECT_CODES :: "(int \<times> string) list" where
  "REJECT_CODES =
     [(10004, ''MT5_REQUOTE''), (10006, ''MT5_REJECT''), (10013, ''MT5_INVALID_REQUEST''),
      (10014, ''MT5_INVALID_VOLUME''), (10015, ''MT5_INVALID_PRICE''), (10016, ''MT5_INVALID_STOPS''),
      (10017, ''MT5_TRADE_DISABLED''), (10018, ''MT5_MARKET_CLOSED''), (10019, ''MT5_NO_MONEY''),
      (10020, ''MT5_PRICE_CHANGED''), (10021, ''MT5_PRICE_OFF''), (10022, ''MT5_INVALID_EXPIRATION''),
      (10024, ''MT5_TOO_MANY_REQUESTS''), (10026, ''MT5_AUTOTRADING_DISABLED_SERVER''),
      (10027, ''MT5_AUTOTRADING_DISABLED_CLIENT''), (10030, ''MT5_INVALID_FILL''),
      (10033, ''MT5_LIMIT_ORDERS''), (10034, ''MT5_LIMIT_VOLUME''), (10035, ''MT5_INVALID_ORDER''),
      (10036, ''MT5_POSITION_CLOSED''), (10038, ''MT5_CLOSE_VOLUME_EXCEEDED''),
      (10039, ''MT5_CLOSE_ORDER_EXISTS''), (10040, ''MT5_LIMIT_POSITIONS''), (10041, ''MT5_REJECT_CANCEL''),
      (10042, ''MT5_LONG_ONLY''), (10043, ''MT5_SHORT_ONLY''), (10044, ''MT5_CLOSE_ONLY''),
      (10045, ''MT5_FIFO_CLOSE'')]"

definition Mt5Ambiguous :: "int \<Rightarrow> string \<Rightarrow> exn" where
  "Mt5Ambiguous retcode comment =
     TimeoutError (''ambiguous MT5 retcode '' @ str_int retcode @ '': '' @ comment)"

definition is_ambiguous :: "int \<Rightarrow> bool" where
  "is_ambiguous retcode \<longleftrightarrow> retcode \<in> set AMBIGUOUS_RETCODES"

definition resolve_state :: "int \<Rightarrow> dec \<Rightarrow> dec \<Rightarrow> order_state" where
  "resolve_state retcode requested filled =
     (if retcode = RETCODE_PLACED then SUBMITTED
      else if retcode \<in> {RETCODE_DONE, RETCODE_DONE_PARTIAL} then
        (if filled \<le> 0 then SUBMITTED
         else if filled \<ge> requested then FILLED else PARTIALLY_FILLED)
      else REJECTED)"

definition error_code_for :: "int \<Rightarrow> string option" where
  "error_code_for retcode =
     (if retcode \<in> {RETCODE_DONE, RETCODE_PLACED} then None
      else if retcode = RETCODE_DONE_PARTIAL then Some ''MT5_DONE_PARTIAL''
      else case dict_get REJECT_CODES retcode of
             Some code \<Rightarrow> Some code
           | None \<Rightarrow> Some (''MT5_RETCODE_'' @ str_int retcode))"

definition build_result ::
  "string \<Rightarrow> int \<Rightarrow> dec \<Rightarrow> dec \<Rightarrow> dec option \<Rightarrow> string option \<Rightarrow> string option \<Rightarrow> string
     \<Rightarrow> broker_result result" where
  "build_result client_order_id retcode requested_quantity filled_quantity average_price
     broker_order_id broker_request_id comment =
     (if is_ambiguous retcode then Inl (Mt5Ambiguous retcode comment)
      else
        let st = resolve_state retcode requested_quantity filled_quantity
        in BrokerOrderResult
             \<lparr>br_client_order_id = client_order_id, br_broker_order_id = broker_order_id,
              br_state = st, br_filled_quantity = filled_quantity,
              br_average_price = (if filled_quantity > 0 then average_price else None),
              br_broker_request_id = broker_request_id, br_error_code = error_code_for retcode\<rparr>)"

section \<open>The codes\<close>

lemma ambiguous_iff: "is_ambiguous r \<longleftrightarrow> r = 10011 \<or> r = 10012 \<or> r = 10028 \<or> r = 10029 \<or> r = 10031"
  by (auto simp: is_ambiguous_def AMBIGUOUS_RETCODES_def)

lemma ambiguous_not_listed:
  "is_ambiguous r \<Longrightarrow> dict_get REJECT_CODES r = None \<and>
     r \<notin> {RETCODE_DONE, RETCODE_PLACED, RETCODE_DONE_PARTIAL}"
  by (auto simp: ambiguous_iff REJECT_CODES_def retcode_defs)

lemma reject_codes_distinct: "distinct (map fst REJECT_CODES)" "distinct (map snd REJECT_CODES)"
  by (simp_all add: REJECT_CODES_def)

text \<open>The retry code promises that nothing was placed: it is neither ambiguous nor a success.\<close>

lemma retry_code_rejected:
  "\<not> is_ambiguous RETRY_WITH_OTHER_FILLING"
  "resolve_state RETRY_WITH_OTHER_FILLING q f = REJECTED"
  "error_code_for RETRY_WITH_OTHER_FILLING = Some ''MT5_INVALID_FILL''"
  by (simp_all add: RETRY_WITH_OTHER_FILLING_def ambiguous_iff resolve_state_def retcode_defs
      error_code_for_def REJECT_CODES_def)

lemma error_code_None: "error_code_for r = None \<longleftrightarrow> r \<in> {RETCODE_DONE, RETCODE_PLACED}"
  by (simp add: error_code_for_def split: option.split)

lemma resolve_state_REJECTED:
  "resolve_state r q f = REJECTED \<longleftrightarrow> r \<notin> {RETCODE_PLACED, RETCODE_DONE, RETCODE_DONE_PARTIAL}"
  by (auto simp: resolve_state_def)

section \<open>Properties\<close>

text \<open>An answer after which the order may be at the broker is never turned into a result, and in
  particular never into REJECTED: \<open>build_result\<close> raises a timeout exactly for the ambiguous return
  codes; a result that says REJECTED comes from a code that is neither ambiguous nor a success, and
  it carries an error code.\<close>

lemma ambiguous_code_is_no_result:
  "((\<exists>m. build_result k rc q f p oid rid cm = Inl (TimeoutError m)) \<longleftrightarrow> is_ambiguous rc) \<and>
   (\<forall>r. build_result k rc q f p oid rid cm = Inr r \<longrightarrow>
      \<not> is_ambiguous rc \<and>
      (br_state r = REJECTED \<longleftrightarrow> rc \<notin> {RETCODE_PLACED, RETCODE_DONE, RETCODE_DONE_PARTIAL}) \<and>
      (br_state r = REJECTED \<longrightarrow> br_error_code r \<noteq> None))"
proof -
  have "BrokerOrderResult x \<noteq> Inl (TimeoutError m)" for x m
    unfolding BrokerOrderResult_def
    by (auto dest: run_model_Inl_is_value_error)
  then show ?thesis
    by (auto simp: build_result_def Mt5Ambiguous_def Let_def BrokerOrderResult_iff
        resolve_state_REJECTED error_code_None simp del: not_None_eq)
qed

text \<open>C30: The state of an accepted result agrees with its quantity: FILLED means that at least the
  requested quantity was filled, PARTIALLY_FILLED a positive part of it, and without a positive fill
  the order is SUBMITTED or REJECTED and has no average price. The state is one the order life cycle
  reaches from QUEUED.\<close>

theorem result_state_matches_fill:
  assumes "build_result k rc q f p oid rid cm = Inr r"
  shows "(br_state r = FILLED \<longrightarrow> 0 < f \<and> q \<le> f) \<and>
    (br_state r = PARTIALLY_FILLED \<longrightarrow> 0 < f \<and> f < q) \<and>
    (\<not> 0 < f \<longrightarrow> br_state r \<in> {SUBMITTED, REJECTED} \<and> br_average_price r = None) \<and>
    br_filled_quantity r = f \<and> order_step\<^sup>*\<^sup>* QUEUED (br_state r)"
proof -
  have r: "br_state r = resolve_state rc q f" "br_filled_quantity r = f"
    "br_average_price r = (if 0 < f then p else None)"
    using assms by (auto simp: build_result_def Let_def BrokerOrderResult_iff split: if_splits)
  have sub: "order_step\<^sup>*\<^sup>* QUEUED SUBMITTED" "order_step\<^sup>*\<^sup>* QUEUED REJECTED"
    by (rule r_into_rtranclp; simp add: order_step_allowed)+
  moreover have "order_step\<^sup>*\<^sup>* QUEUED s" if "s \<in> {FILLED, PARTIALLY_FILLED}" for s
    by (rule rtranclp.rtrancl_into_rtrancl [OF sub(1)]) (use that in \<open>auto simp: order_step_allowed\<close>)
  ultimately show ?thesis
    by (auto simp: r resolve_state_def not_le_dec [symmetric])
qed

theorem result_state_matches_fill_witness:
  "resolve_state RETCODE_DONE (dint 2) (dint 1) = PARTIALLY_FILLED \<and>
   order_step\<^sup>*\<^sup>* QUEUED PARTIALLY_FILLED"
proof -
  let ?r = "\<lparr>br_client_order_id = ''k'', br_broker_order_id = None, br_state = PARTIALLY_FILLED,
    br_filled_quantity = dint 1, br_average_price = Some (dint 2000), br_broker_request_id = None,
    br_error_code = None\<rparr>"
  have "build_result ''k'' RETCODE_DONE (dint 2) (dint 1) (Some (dint 2000)) None None [] = Inr ?r"
    and "resolve_state RETCODE_DONE (dint 2) (dint 1) = PARTIALLY_FILLED"
    by code_simp+
  then show ?thesis using result_state_matches_fill by fastforce
qed

end
