(* ===== verification/Mt5_Links.thy ===== *)
theory Mt5_Links
  imports Idempotency "HOL-Library.Word"
begin

text \<open>
  \<open>infrastructure/broker/mt5_links.py\<close>: the write-ahead record that ties an idempotency key to an
  MT5 order. The magic number is computed on Python's unbounded integers and has to survive a
  round trip through a signed 64-bit field, which is where words come in. The store is a dictionary
  keyed by account and key.
\<close>

unbundle bit_operations_syntax

definition MAGIC_MASK :: int where "MAGIC_MASK = 0x7FFFFFFFFFFFFFFF"

definition COMMENT_LENGTH :: nat where "COMMENT_LENGTH = 16"

definition hex_char_value :: "char \<Rightarrow> int" where
  "hex_char_value c = (let n = of_char c in if n < 58 then n - 48 else n - 87)"

text \<open>\<open>int(text, 16)\<close> on lowercase digits.\<close>

definition int_of_hex :: "string \<Rightarrow> int" where
  "int_of_hex s = foldl (\<lambda>n c. 16 * n + hex_char_value c) 0 s"

definition magic_for :: "string \<Rightarrow> int result" where
  "magic_for key =
     (let prefix = take 16 key
      in if length prefix < 16 \<or> list_ex (\<lambda>c. \<not> is_hex c) prefix
         then Inl (ValueError ''idempotency_key must be a lowercase SHA-256 hex digest'')
         else Inr (int_of_hex prefix AND MAGIC_MASK))"

definition comment_for :: "string \<Rightarrow> string" where
  "comment_for key = take COMMENT_LENGTH key"

record mt5_link =
  ml_idempotency_key :: string
  ml_intent_id :: uuid
  ml_account_id :: uuid
  ml_mt5_login :: int
  ml_magic :: int
  ml_broker_symbol :: string
  ml_side :: order_side
  ml_requested_lots :: dec
  ml_submit_started_at :: pydatetime
  ml_order_ticket :: "int option"
  ml_deal_ticket :: "int option"
  ml_position_id :: "int option"
  ml_retcode :: "int option"
  ml_resolved_at :: "pydatetime option"

definition require_sha256_key :: "string \<Rightarrow> string list" where
  "require_sha256_key v =
     complain (length v \<noteq> 64 \<or> list_ex (\<lambda>c. \<not> is_hex c) v)
       ''idempotency_key must be a lowercase SHA-256 hex digest''"

definition require_63_bit_magic :: "int \<Rightarrow> string list" where
  "require_63_bit_magic v =
     complain (\<not> (0 \<le> v \<and> v \<le> MAGIC_MASK)) ''magic must fit in 63 bits so it survives a signed round trip''"

definition Mt5OrderLink :: "mt5_link \<Rightarrow> mt5_link result" where
  "Mt5OrderLink l =
     run_model
       (require_sha256_key (ml_idempotency_key l) @ require_63_bit_magic (ml_magic l)
        @ complain (\<not> is_aware (ml_submit_started_at l)) ''link timestamps must be timezone-aware''
        @ optional_field (\<lambda>t. complain (\<not> is_aware t) ''link timestamps must be timezone-aware'')
            (ml_resolved_at l))
       []
       (l\<lparr>ml_submit_started_at := astimezone_utc (ml_submit_started_at l),
          ml_resolved_at := map_option astimezone_utc (ml_resolved_at l)\<rparr>)"

definition is_resolved :: "mt5_link \<Rightarrow> bool" where
  "is_resolved l \<longleftrightarrow> ml_order_ticket l \<noteq> None \<or> ml_deal_ticket l \<noteq> None"

section \<open>The store\<close>

type_synonym link_rows = "((uuid \<times> string) \<times> mt5_link) list"

definition reserve :: "mt5_link \<Rightarrow> (mt5_link, link_rows) io" where
  "reserve link rows =
     (let key = (ml_account_id link, ml_idempotency_key link)
      in case dict_get rows key of
           Some existing \<Rightarrow> (Inr existing, rows)
         | None \<Rightarrow>
             let clash = filter (\<lambda>row. ml_mt5_login row = ml_mt5_login link \<and> ml_magic row = ml_magic link)
                           (map snd rows)
             in if clash \<noteq> [] then
                  (Inl (ValueError (''magic '' @ str_int (ml_magic link) @ '' already reserved on login ''
                                    @ str_int (ml_mt5_login link))), rows)
                else (Inr link, dict_set key link rows))"

definition get_link :: "uuid \<Rightarrow> string \<Rightarrow> link_rows \<Rightarrow> mt5_link option" where
  "get_link account_id idempotency_key rows = dict_get rows (account_id, idempotency_key)"

definition with_result ::
  "int option \<Rightarrow> int option \<Rightarrow> int option \<Rightarrow> int option \<Rightarrow> pydatetime \<Rightarrow> mt5_link \<Rightarrow> mt5_link" where
  "with_result order_ticket deal_ticket position_id retcode now row =
     row\<lparr>ml_order_ticket := order_ticket, ml_deal_ticket := deal_ticket,
         ml_position_id := position_id, ml_retcode := retcode, ml_resolved_at := Some now\<rparr>"

text \<open>The loop over the rows: the first one with the key is replaced. \<open>now\<close> is the clock.\<close>

fun record_loop ::
  "string \<Rightarrow> (mt5_link \<Rightarrow> mt5_link) \<Rightarrow> link_rows \<Rightarrow> link_rows \<Rightarrow> mt5_link result \<times> link_rows" where
  "record_loop k upd [] rows = (Inl (LookupError k), rows)"
| "record_loop k upd ((key, row) # rest) rows =
     (if ml_idempotency_key row \<noteq> k then record_loop k upd rest rows
      else let updated = upd row in (Inr updated, dict_set key updated rows))"

definition record_link_result ::
  "string \<Rightarrow> int option \<Rightarrow> int option \<Rightarrow> int option \<Rightarrow> int option \<Rightarrow> pydatetime \<Rightarrow> (mt5_link, link_rows) io" where
  "record_link_result idempotency_key order_ticket deal_ticket position_id retcode now rows =
     record_loop idempotency_key (with_result order_ticket deal_ticket position_id retcode now) rows rows"

section \<open>The magic number\<close>

lemma hex_char_value_bounds: "is_hex c \<Longrightarrow> 0 \<le> hex_char_value c \<and> hex_char_value c < 16"
  by (auto simp: is_hex_def hex_char_value_def Let_def)

lemma foldl_base16:
  "foldl (\<lambda>n c. 16 * n + hex_char_value c) a s = a * 16 ^ length s + int_of_hex s"
proof (induction s arbitrary: a)
  case (Cons c s)
  have "foldl (\<lambda>n c. 16 * n + hex_char_value c) a (c # s) = (16 * a + hex_char_value c) * 16 ^ length s + int_of_hex s"
    by (simp add: Cons)
  moreover have "int_of_hex (c # s) = hex_char_value c * 16 ^ length s + int_of_hex s"
    by (simp add: int_of_hex_def [of "c # s"] Cons)
  ultimately show ?case by (simp add: algebra_simps)
qed (simp add: int_of_hex_def)

lemma int_of_hex_Cons: "int_of_hex (c # s) = hex_char_value c * 16 ^ length s + int_of_hex s"
  using foldl_base16 [of "hex_char_value c" s] by (simp add: int_of_hex_def)

lemma int_of_hex_bounds: "list_all is_hex s \<Longrightarrow> 0 \<le> int_of_hex s \<and> int_of_hex s < 16 ^ length s"
proof (induction s)
  case (Cons c s)
  then have "0 \<le> hex_char_value c" "hex_char_value c \<le> 15"
    and s: "0 \<le> int_of_hex s" "int_of_hex s < 16 ^ length s"
    using hex_char_value_bounds [of c] by simp_all
  moreover from this have "hex_char_value c * 16 ^ length s \<le> 15 * 16 ^ length s"
    by (intro mult_right_mono) simp_all
  moreover have "0 \<le> hex_char_value c * 16 ^ length s" using \<open>0 \<le> hex_char_value c\<close> by simp
  ultimately show ?case unfolding int_of_hex_Cons length_Cons power_Suc by linarith
qed (simp add: int_of_hex_def)

lemma magic_mask: "MAGIC_MASK = mask 63"
  by (simp add: MAGIC_MASK_def mask_eq_exp_minus_1)

lemma magic_for_iff:
  "magic_for k = Inr m \<longleftrightarrow> 16 \<le> length k \<and> list_all is_hex (take 16 k) \<and> m = int_of_hex (take 16 k) mod 2 ^ 63"
  by (auto simp: magic_for_def Let_def list_all_iff list_ex_iff magic_mask take_bit_eq_mask [symmetric]
      take_bit_eq_mod)

lemma magic_for_total: "sha256_key k \<Longrightarrow> \<exists>m. magic_for k = Inr m"
  by (auto simp: magic_for_iff sha256_key_def list_all_iff dest: in_set_takeD)

lemma Mt5OrderLink_iff:
  "Mt5OrderLink l = Inr l' \<longleftrightarrow>
     sha256_key (ml_idempotency_key l) \<and> 0 \<le> ml_magic l \<and> ml_magic l \<le> MAGIC_MASK \<and>
     is_aware (ml_submit_started_at l) \<and> (\<forall>t. ml_resolved_at l = Some t \<longrightarrow> is_aware t) \<and>
     l' = l\<lparr>ml_submit_started_at := astimezone_utc (ml_submit_started_at l),
             ml_resolved_at := map_option astimezone_utc (ml_resolved_at l)\<rparr>"
  by (auto simp: Mt5OrderLink_def run_model_Inr_iff require_sha256_key_def require_63_bit_magic_def
      sha256_key_def list_all_iff list_ex_iff)

lemma hex_digit_of_value: "is_hex c \<Longrightarrow> hex_digit (nat (hex_char_value c)) = c"
  by (auto simp: is_hex_def hex_char_value_def Let_def hex_digit_def)

lemma hex_char_value_inj: "is_hex c \<Longrightarrow> is_hex d \<Longrightarrow> hex_char_value c = hex_char_value d \<Longrightarrow> c = d"
  by (metis hex_digit_of_value)

lemma int_of_hex_inj:
  "length s = length t \<Longrightarrow> list_all is_hex s \<Longrightarrow> list_all is_hex t \<Longrightarrow> int_of_hex s = int_of_hex t \<Longrightarrow> s = t"
proof (induction s t rule: list_induct2)
  case (Cons c s d t)
  let ?p = "16 ^ length s :: int"
  have b: "0 \<le> int_of_hex s" "int_of_hex s < ?p" "0 \<le> int_of_hex t" "int_of_hex t < ?p"
    using Cons.prems Cons.hyps int_of_hex_bounds [of s] int_of_hex_bounds [of t] by simp_all
  from Cons.prems(3) have eq: "hex_char_value c * ?p + int_of_hex s = hex_char_value d * ?p + int_of_hex t"
    by (simp add: int_of_hex_Cons Cons.hyps)
  then have "(hex_char_value c * ?p + int_of_hex s) div ?p = (hex_char_value d * ?p + int_of_hex t) div ?p"
    by simp
  then have "hex_char_value c = hex_char_value d" using b by simp
  with eq Cons hex_char_value_inj show ?case by simp
qed simp

lemma word64_round_trip:
  assumes "0 \<le> m" "m < 2 ^ 63"
  shows "uint (word_of_int m :: 64 word) = m" "sint (word_of_int m :: 64 word) = m"
proof -
  have "m < 2 ^ 64" using assms(2) by simp
  with assms(1) show "uint (word_of_int m :: 64 word) = m"
    by (simp add: uint_word_of_int)
  have "signed_take_bit 63 m = m" using assms by (simp add: signed_take_bit_int_eq_self)
  then show "sint (word_of_int m :: 64 word) = m" by (simp add: sint_sbintrunc')
qed

lemma base_split:
  fixes p :: int
  assumes "0 \<le> s" "s < p" "0 \<le> t" "t < p"
  shows "a * p + s = b * p + t \<longleftrightarrow> a = b \<and> s = t"
proof
  assume eq: "a * p + s = b * p + t"
  have "(a * p + s) div p = a" "(b * p + t) div p = b" using assms by simp_all
  with eq have "a = b" by simp
  with eq show "a = b \<and> s = t" by simp
qed simp

text \<open>Sixteen digits modulo \<open>2 ^ 63\<close>: the leading bit is dropped.\<close>

lemma drop_top_bit:
  assumes "length s = 15" "0 \<le> int_of_hex s" "int_of_hex s < 16 ^ 15"
  shows "int_of_hex (c # s) mod 2 ^ 63 = hex_char_value c mod 8 * 16 ^ 15 + int_of_hex s"
proof -
  have "(2::int) ^ 63 = 8 * 16 ^ 15" by simp
  moreover have "(hex_char_value c * 16 ^ 15 + int_of_hex s) mod (8 * 16 ^ 15) =
      hex_char_value c mod 8 * 16 ^ 15 + int_of_hex s"
  proof -
    have "(hex_char_value c * 16 ^ 15 + int_of_hex s) div 16 ^ 15 = hex_char_value c"
      and "(hex_char_value c * 16 ^ 15 + int_of_hex s) mod 16 ^ 15 = int_of_hex s"
      using assms(2,3) by simp_all
    then show ?thesis
      using zmod_zmult2_eq [of 8 "hex_char_value c * 16 ^ 15 + int_of_hex s" "16 ^ 15"]
      by (simp only: mult.commute [of 8] mult.commute [of "hex_char_value c mod 8"])
  qed
  ultimately show ?thesis using assms(1) by (simp only: int_of_hex_Cons)
qed

section \<open>The interface of a link store\<close>

text \<open>
  What the protocol promises its callers: a reservation answers with the row that is stored under
  the account and key, an existing row is returned unchanged, other rows are not touched, and a
  refused reservation leaves no trace.
\<close>

locale link_store =
  fixes reserve_op :: "mt5_link \<Rightarrow> (mt5_link, 'w) io"
    and get_op :: "uuid \<Rightarrow> string \<Rightarrow> 'w \<Rightarrow> mt5_link option"
  assumes reserve_existing:
      "get_op (ml_account_id l) (ml_idempotency_key l) w = Some l' \<Longrightarrow> reserve_op l w = (Inr l', w)"
    and reserve_stores:
      "reserve_op l w = (Inr l', w') \<Longrightarrow> get_op (ml_account_id l) (ml_idempotency_key l) w' = Some l'"
    and reserve_others:
      "reserve_op l w = (r, w') \<Longrightarrow> (a, k) \<noteq> (ml_account_id l, ml_idempotency_key l) \<Longrightarrow>
         get_op a k w' = get_op a k w"
    and reserve_refused: "reserve_op l w = (Inl e, w') \<Longrightarrow> w' = w"
begin

lemma reserve_keeps:
  assumes "get_op a k w = Some row"
  shows "get_op a k (snd (reserve_op l w)) = Some row"
proof (cases "(a, k) = (ml_account_id l, ml_idempotency_key l)")
  case True
  with assms reserve_existing show ?thesis by auto
next
  case False
  obtain r w' where "reserve_op l w = (r, w')" by (rule prod.exhaust)
  with reserve_others [OF this False] assms show ?thesis by simp
qed

text \<open>The store after a sequence of reservations, refused ones included.\<close>

definition reserve_all :: "mt5_link list \<Rightarrow> 'w \<Rightarrow> 'w" where
  "reserve_all ls w = foldl (\<lambda>w l. snd (reserve_op l w)) w ls"

lemma reserve_all_keeps: "get_op a k w = Some row \<Longrightarrow> get_op a k (reserve_all ls w) = Some row"
  unfolding reserve_all_def by (induction ls arbitrary: w) (auto intro: reserve_keeps)

lemma retry_returns_first:
  assumes "reserve_op l w = (Inr row, w')"
    and "ml_account_id l2 = ml_account_id l" "ml_idempotency_key l2 = ml_idempotency_key l"
  shows "reserve_op l2 (reserve_all ls w') = (Inr row, reserve_all ls w')"
  using reserve_all_keeps [OF reserve_stores [OF assms(1)], of ls] assms(2,3)
  by (intro reserve_existing) simp

end

lemma reserve_cases:
  obtains (existing) row where "dict_get rows (ml_account_id l, ml_idempotency_key l) = Some row"
      "reserve l rows = (Inr row, rows)"
  | (clash) e where "dict_get rows (ml_account_id l, ml_idempotency_key l) = None"
      "reserve l rows = (Inl e, rows)" "is_value_error e"
      "\<exists>row \<in> set (map snd rows). ml_mt5_login row = ml_mt5_login l \<and> ml_magic row = ml_magic l"
  | (fresh) "dict_get rows (ml_account_id l, ml_idempotency_key l) = None"
      "\<forall>row \<in> set (map snd rows). \<not> (ml_mt5_login row = ml_mt5_login l \<and> ml_magic row = ml_magic l)"
      "reserve l rows = (Inr l, rows @ [((ml_account_id l, ml_idempotency_key l), l)])"
proof (cases "dict_get rows (ml_account_id l, ml_idempotency_key l)")
  case (Some row)
  then show thesis by (intro existing) (simp_all add: reserve_def Let_def)
next
  case None
  let ?clash = "filter (\<lambda>row. ml_mt5_login row = ml_mt5_login l \<and> ml_magic row = ml_magic l) (map snd rows)"
  show thesis
  proof (cases "?clash = []")
    case True
    then show thesis
      using None by (intro fresh) (auto simp: reserve_def Let_def dict_set_new filter_empty_conv)
  next
    case False
    then obtain e where e: "reserve l rows = (Inl e, rows)" "is_value_error e"
      using None by (auto simp: reserve_def Let_def)
    from False have "\<exists>row \<in> set (map snd rows). ml_mt5_login row = ml_mt5_login l \<and> ml_magic row = ml_magic l"
      by (simp only: filter_empty_conv) blast
    with None e show thesis by (rule clash)
  qed
qed

interpretation mem_links: link_store reserve get_link
proof
  fix l w l' w' r a k e
  show "get_link (ml_account_id l) (ml_idempotency_key l) w = Some l' \<Longrightarrow> reserve l w = (Inr l', w)"
    by (simp add: get_link_def reserve_def Let_def)
  show "reserve l w = (Inr l', w') \<Longrightarrow> get_link (ml_account_id l) (ml_idempotency_key l) w' = Some l'"
    by (rule reserve_cases [of w l]) (auto simp: get_link_def map_add_def)
  show "reserve l w = (r, w') \<Longrightarrow> (a, k) \<noteq> (ml_account_id l, ml_idempotency_key l) \<Longrightarrow>
      get_link a k w' = get_link a k w"
    by (rule reserve_cases [of w l]) (auto simp: get_link_def map_add_def split: option.split)
  show "reserve l w = (Inl e, w') \<Longrightarrow> w' = w"
    by (rule reserve_cases [of w l]) auto
qed

section \<open>The rows\<close>

definition links_ok :: "link_rows \<Rightarrow> bool" where
  "links_ok rows \<longleftrightarrow>
     distinct (map fst rows) \<and>
     (\<forall>(key, l) \<in> set rows. key = (ml_account_id l, ml_idempotency_key l)) \<and>
     distinct (map (\<lambda>(_, l). (ml_mt5_login l, ml_magic l)) rows)"

lemma links_ok_reserve: "links_ok rows \<Longrightarrow> links_ok (snd (reserve l rows))"
proof (rule reserve_cases [of rows l])
  assume ok: "links_ok rows" and none: "dict_get rows (ml_account_id l, ml_idempotency_key l) = None"
    and new: "\<forall>row \<in> set (map snd rows). \<not> (ml_mt5_login row = ml_mt5_login l \<and> ml_magic row = ml_magic l)"
    and r: "reserve l rows = (Inr l, rows @ [((ml_account_id l, ml_idempotency_key l), l)])"
  from none have "(ml_account_id l, ml_idempotency_key l) \<notin> fst ` set rows"
    by (simp add: map_of_eq_None_iff)
  moreover from new have "(ml_mt5_login l, ml_magic l) \<notin> (\<lambda>(_, l). (ml_mt5_login l, ml_magic l)) ` set rows"
    by force
  ultimately show "links_ok (snd (reserve l rows))" using ok r by (simp add: links_ok_def)
qed simp_all

lemma record_loop_cases:
  "(record_loop k upd rs rows = (Inl (LookupError k), rows) \<and> (\<forall>row \<in> set (map snd rs). ml_idempotency_key row \<noteq> k)) \<or>
   (\<exists>pre key row post. rs = pre @ (key, row) # post \<and> (\<forall>x \<in> set (map snd pre). ml_idempotency_key x \<noteq> k) \<and>
      ml_idempotency_key row = k \<and> record_loop k upd rs rows = (Inr (upd row), dict_set key (upd row) rows))"
proof (induction rs)
  case (Cons r rs)
  obtain key row where r: "r = (key, row)" by (rule prod.exhaust)
  show ?case
  proof (cases "ml_idempotency_key row = k")
    case True
    then show ?thesis
      by (intro disjI2 exI [of _ "[]"] exI [of _ key] exI [of _ row] exI [of _ rs]) (simp add: r Let_def)
  next
    case False
    with Cons.IH show ?thesis
    proof (elim disjE exE conjE)
      fix pre key' row' post
      assume "rs = pre @ (key', row') # post" "\<forall>x \<in> set (map snd pre). ml_idempotency_key x \<noteq> k"
        "ml_idempotency_key row' = k" "record_loop k upd rs rows = (Inr (upd row'), dict_set key' (upd row') rows)"
      with False show ?thesis
        by (intro disjI2 exI [of _ "r # pre"] exI [of _ key'] exI [of _ row'] exI [of _ post]) (simp add: r)
    qed (use False r in auto)
  qed
qed simp

lemma dict_set_split:
  "distinct (map fst (pre @ (key, row) # post)) \<Longrightarrow>
     dict_set key x (pre @ (key, row) # post) = pre @ (key, x) # post"
  by (induction pre) auto

lemma links_ok_update:
  assumes "links_ok (pre @ (key, row) # post)" "ml_account_id x = ml_account_id row"
    "ml_idempotency_key x = ml_idempotency_key row" "ml_mt5_login x = ml_mt5_login row" "ml_magic x = ml_magic row"
  shows "links_ok (dict_set key x (pre @ (key, row) # post))"
proof -
  have "distinct (map fst (pre @ (key, row) # post))" using assms(1) by (simp only: links_ok_def)
  then show ?thesis using assms by (simp only: dict_set_split) (simp add: links_ok_def)
qed

lemma with_result_kept [simp]:
  "ml_account_id (with_result a b c d t l) = ml_account_id l"
  "ml_idempotency_key (with_result a b c d t l) = ml_idempotency_key l"
  "ml_mt5_login (with_result a b c d t l) = ml_mt5_login l"
  "ml_magic (with_result a b c d t l) = ml_magic l"
  by (simp_all add: with_result_def)

lemma links_ok_record: "links_ok rows \<Longrightarrow> links_ok (snd (record_link_result k a b c d now rows))"
  using record_loop_cases [of k "with_result a b c d now" rows rows]
  unfolding record_link_result_def
  by (elim disjE exE conjE) (simp_all only: snd_conv links_ok_update with_result_kept)

inductive link_step :: "link_rows \<Rightarrow> link_rows \<Rightarrow> bool" where
  reserved: "link_step rows (snd (reserve l rows))"
| recorded: "link_step rows (snd (record_link_result k a b c d now rows))"

inductive_cases link_stepE: "link_step rows rows'"

interpretation links: safe_machine "\<lambda>rows. rows = []" link_step links_ok
proof
  show "rows = [] \<Longrightarrow> links_ok rows" for rows by (simp add: links_ok_def)
  show "links_ok rows \<Longrightarrow> link_step rows rows' \<Longrightarrow> links_ok rows'" for rows rows'
    by (erule link_stepE) (simp_all add: links_ok_reserve links_ok_record)
qed

section \<open>Properties\<close>

text \<open>A magic number always fits the broker: every SHA-256 key has one, it lies between 0 and
  \<open>2 ^ 63 - 1\<close>, and writing it to an unsigned and reading it from a signed 64-bit field gives it
  back. Two keys have the same magic exactly when their first sixteen digits agree but for the
  leading bit.\<close>

lemma magic_survives_the_broker:
  assumes "sha256_key k" "sha256_key k'"
  shows "\<exists>m m'. magic_for k = Inr m \<and> magic_for k' = Inr m' \<and> 0 \<le> m \<and> m \<le> MAGIC_MASK \<and>
    sint (word_of_int m :: 64 word) = m \<and> uint (word_of_int m :: 64 word) = m \<and>
    (m = m' \<longleftrightarrow> hex_char_value (hd k) mod 8 = hex_char_value (hd k') mod 8 \<and>
       take 15 (tl k) = take 15 (tl k'))"
proof -
  have shape: "\<exists>c s. take 16 x = c # s \<and> length s = 15 \<and> c = hd x \<and> s = take 15 (tl x) \<and>
      list_all is_hex (c # s) \<and> magic_for x = Inr (hex_char_value c mod 8 * 16 ^ 15 + int_of_hex s)"
    if "sha256_key x" for x
  proof -
    from that have len: "length x = 64" and hex: "list_all is_hex x" by (simp_all add: sha256_key_def)
    then obtain c s where x: "x = c # s" by (cases x) simp_all
    have t: "take 16 x = c # take 15 s" "length (take 15 s) = 15" using len by (simp_all add: x)
    have h: "list_all is_hex (c # take 15 s)"
      using hex by (auto simp: x list_all_iff dest: in_set_takeD)
    have "magic_for x = Inr (int_of_hex (c # take 15 s) mod 2 ^ 63)"
      unfolding magic_for_iff using len h t by simp
    then show ?thesis
      using drop_top_bit [of "take 15 s" c] int_of_hex_bounds [of "take 15 s"] t h by (simp add: x)
  qed
  from shape [OF assms(1)] obtain c s where k: "length s = 15" "c = hd k" "s = take 15 (tl k)"
    "list_all is_hex (c # s)" "magic_for k = Inr (hex_char_value c mod 8 * 16 ^ 15 + int_of_hex s)" by blast
  from shape [OF assms(2)] obtain d t where k': "length t = 15" "d = hd k'" "t = take 15 (tl k')"
    "list_all is_hex (d # t)" "magic_for k' = Inr (hex_char_value d mod 8 * 16 ^ 15 + int_of_hex t)" by blast
  let ?m = "hex_char_value c mod 8 * 16 ^ 15 + int_of_hex s"
    and ?m' = "hex_char_value d mod 8 * 16 ^ 15 + int_of_hex t"
  have b: "0 \<le> int_of_hex s" "int_of_hex s < 16 ^ 15" "0 \<le> int_of_hex t" "int_of_hex t < 16 ^ 15"
    using int_of_hex_bounds [of s] int_of_hex_bounds [of t] k(1,4) k'(1,4) by simp_all
  have m8: "hex_char_value c mod 8 * 16 ^ 15 \<le> 7 * 16 ^ 15" "0 \<le> hex_char_value c mod 8 * 16 ^ 15"
    by (simp_all add: mult_right_mono)
  have m: "0 \<le> ?m" "?m < 2 ^ 63" using b m8 by simp_all
  have "?m = ?m' \<longleftrightarrow> hex_char_value c mod 8 = hex_char_value d mod 8 \<and> int_of_hex s = int_of_hex t"
    using b by (intro base_split) simp_all
  moreover have "int_of_hex s = int_of_hex t \<longleftrightarrow> s = t"
    using int_of_hex_inj [of s t] k(1,4) k'(1,4) by auto
  moreover note word64_round_trip [OF m]
  ultimately show ?thesis
    using k(2,3,5) k'(2,3,5) m by (auto simp: MAGIC_MASK_def)
qed

text \<open>The write-ahead row of an order is stable: once a reservation succeeded, every later
  reservation with the same account and key, after any further reservations, answers with that
  row, whatever magic it proposes, and changes nothing.\<close>

lemma reservation_is_idempotent:
  assumes "reserve l rows = (Inr row, rows')"
    and "ml_account_id l2 = ml_account_id l" "ml_idempotency_key l2 = ml_idempotency_key l"
  shows "let later = foldl (\<lambda>w x. snd (reserve x w)) rows' ls
    in reserve l2 later = (Inr row, later)"
  using mem_links.retry_returns_first [OF assms] by (simp add: mem_links.reserve_all_def)

definition sample_link :: mt5_link where
  "sample_link = \<lparr>ml_idempotency_key = replicate 64 (CHR ''a''), ml_intent_id = 1, ml_account_id = 2,
     ml_mt5_login = 7, ml_magic = 42, ml_broker_symbol = ''XAUUSD'', ml_side = BUY,
     ml_requested_lots = Dec 1 (- 2), ml_submit_started_at = Aware 0 0, ml_order_ticket = None,
     ml_deal_ticket = None, ml_position_id = None, ml_retcode = None, ml_resolved_at = None\<rparr>"

text \<open>C31: In every state the store can reach by reservations and recorded results, each row is stored
  under its own account and key, and no two rows share a login and a magic number: a broker order
  found by its magic belongs to one key. Recording a result changes the tickets, return code and
  resolution time of one row with the key, or raises a \<open>LookupError\<close> and changes nothing when
  there is none.\<close>

theorem magic_identifies_the_link:
  assumes "link_step\<^sup>*\<^sup>* [] rows"
  shows "(\<forall>(key, l) \<in> set rows. key = (ml_account_id l, ml_idempotency_key l) \<and>
      get_link (fst key) (snd key) rows = Some l) \<and>
    (\<forall>x \<in> set rows. \<forall>y \<in> set rows.
      ml_mt5_login (snd x) = ml_mt5_login (snd y) \<and> ml_magic (snd x) = ml_magic (snd y) \<longrightarrow> x = y) \<and>
    (case record_link_result k a b c d now rows of
       (Inl e, rows') \<Rightarrow> e = LookupError k \<and> rows' = rows \<and> (\<forall>x \<in> set rows. ml_idempotency_key (snd x) \<noteq> k)
     | (Inr l', rows') \<Rightarrow> \<exists>key l. (key, l) \<in> set rows \<and> ml_idempotency_key l = k \<and>
         l' = with_result a b c d now l \<and> rows' = dict_set key l' rows)"
proof -
  have ok: "links_ok rows" using assms by (rule links.inv_reachable [OF refl])
  then have d: "distinct (map fst rows)" "distinct (map (\<lambda>(_, l). (ml_mt5_login l, ml_magic l)) rows)"
    by (simp_all add: links_ok_def)
  have inj: "inj_on (\<lambda>(_, l). (ml_mt5_login l, ml_magic l)) (set rows)"
    using d(2) by (simp add: distinct_map)
  have uniq: "x = y" if "x \<in> set rows" "y \<in> set rows" "ml_mt5_login (snd x) = ml_mt5_login (snd y)"
    "ml_magic (snd x) = ml_magic (snd y)" for x y
    by (rule inj_onD [OF inj _ that(1,2)]) (use that(3,4) in \<open>simp add: case_prod_beta\<close>)
  have rec: "case record_link_result k a b c d now rows of
       (Inl e, rows') \<Rightarrow> e = LookupError k \<and> rows' = rows \<and> (\<forall>x \<in> set rows. ml_idempotency_key (snd x) \<noteq> k)
     | (Inr l', rows') \<Rightarrow> \<exists>key l. (key, l) \<in> set rows \<and> ml_idempotency_key l = k \<and>
         l' = with_result a b c d now l \<and> rows' = dict_set key l' rows"
    using record_loop_cases [of k "with_result a b c d now" rows rows]
    unfolding record_link_result_def by (elim disjE exE conjE) auto
  have "get_link (fst key) (snd key) rows = Some l" if "(key, l) \<in> set rows" for key l
    using that d(1) by (simp add: get_link_def)
  then show ?thesis using ok uniq rec unfolding links_ok_def by blast
qed

theorem magic_identifies_the_link_witness:
  "fst (record_link_result (replicate 64 (CHR ''a'')) (Some 1) None None (Some 10009) (Aware 9 0)
      (snd (reserve sample_link []))) = Inr (with_result (Some 1) None None (Some 10009) (Aware 9 0) sample_link)"
proof -
  have "link_step\<^sup>*\<^sup>* [] (snd (reserve sample_link []))" by (rule r_into_rtranclp, rule reserved)
  note all = magic_identifies_the_link [OF this, of "replicate 64 (CHR ''a'')" "Some 1" None None "Some 10009" "Aware 9 0"]
  have rows: "snd (reserve sample_link []) = [((2, replicate 64 (CHR ''a'')), sample_link)]"
    and key: "ml_idempotency_key sample_link = replicate 64 (CHR ''a'')"
    by code_simp+
  show ?thesis using all by (auto simp: rows key split: prod.splits sum.splits)
qed

end
