(* ===== verification/Mt5_Session.thy ===== *)
theory Mt5_Session
  imports Mtoss_Prelude
begin

text \<open>
  \<open>infrastructure/broker/mt5_session.py\<close>: the session that runs every call of the synchronous
  MetaTrader client on one dedicated thread, gives it up after a timeout, and has to be restarted
  then. The client is a parameter; a call that does not answer in time is a call with the outcome
  \<open>TimeoutError\<close>. \<open>ms_trace\<close> records which thread asked the client for what, oldest first.
\<close>

section \<open>State\<close>

datatype session_state = IDLE | READY | DEGRADED | CLOSED

datatype thread = ExecutorThread | EventLoop

record mt5_session =
  ms_terminal_path :: "string option"
  ms_login :: "int option"
  ms_password :: "string option"
  ms_server :: "string option"
  ms_state :: session_state
  ms_shut :: bool
  ms_trace :: "(thread \<times> string) list"

definition Mt5Session ::
  "string option \<Rightarrow> int option \<Rightarrow> string option \<Rightarrow> string option \<Rightarrow> mt5_session" where
  "Mt5Session terminal_path login password server =
     \<lparr>ms_terminal_path = terminal_path, ms_login = login, ms_password = password, ms_server = server,
      ms_state = IDLE, ms_shut = False, ms_trace = []\<rparr>"

record init_args =
  ia_path :: "string option"
  ia_login :: "int option"
  ia_password :: "string option"
  ia_server :: "string option"

text \<open>What the session asks of the client. \<open>terminal_info\<close> is reduced to \<open>trade_allowed\<close>; the
  account is only looked at in a log record.\<close>

record 'w mt5_client =
  mc_initialize :: "init_args \<Rightarrow> (bool, 'w) io"
  mc_last_error :: "(string, 'w) io"
  mc_terminal_info :: "(bool option, 'w) io"
  mc_account_info :: "(int option, 'w) io"
  mc_shutdown :: "(unit, 'w) io"

section \<open>Calls\<close>

definition Mt5Unavailable :: "string \<Rightarrow> exn" where
  "Mt5Unavailable m = RuntimeError m"

definition set_state :: "session_state \<Rightarrow> (unit, mt5_session \<times> 'w) io" where
  "set_state st = io_do (\<lambda>w. ((fst w)\<lparr>ms_state := st\<rparr>, snd w))"

definition get_state :: "(session_state, mt5_session \<times> 'w) io" where
  "get_state = io_get (\<lambda>w. ms_state (fst w))"

definition on_thread :: "thread \<Rightarrow> string \<Rightarrow> ('a, 'w) io \<Rightarrow> ('a, mt5_session \<times> 'w) io" where
  "on_thread th name op =
     io_bind (io_do (\<lambda>w. ((fst w)\<lparr>ms_trace := ms_trace (fst w) @ [(th, name)]\<rparr>, snd w))) (\<lambda>_. on_snd op)"

text \<open>\<open>wait_for(run_in_executor(...))\<close>: an executor that was shut down takes no more work.\<close>

definition in_executor :: "string \<Rightarrow> ('a, 'w) io \<Rightarrow> ('a, mt5_session \<times> 'w) io" where
  "in_executor name op =
     io_bind (io_get (\<lambda>w. ms_shut (fst w))) (\<lambda>shut.
     if shut then io_raise (RuntimeError ''cannot schedule new futures after shutdown'')
     else on_thread ExecutorThread name op)"

definition mt5_call :: "string \<Rightarrow> ('a, 'w) io \<Rightarrow> ('a, mt5_session \<times> 'w) io" where
  "mt5_call name op =
     io_bind get_state (\<lambda>st.
     if st = DEGRADED then io_raise (Mt5Unavailable ''session is degraded; restart the process'')
     else io_catch (in_executor name op)
            (\<lambda>e. if is_timeout e then io_bind (set_state DEGRADED) (\<lambda>_. io_raise e) else io_raise e))"

section \<open>Start and close\<close>

text \<open>An empty path counts as none; without a login neither password nor server is sent.\<close>

definition start_args :: "mt5_session \<Rightarrow> init_args" where
  "start_args s =
     \<lparr>ia_path = (case ms_terminal_path s of Some p \<Rightarrow> if p = [] then None else Some p | None \<Rightarrow> None),
      ia_login = ms_login s,
      ia_password = (if ms_login s = None then None
                     else Some (case ms_password s of Some p \<Rightarrow> p | None \<Rightarrow> [])),
      ia_server = (if ms_login s = None then None
                   else Some (case ms_server s of Some p \<Rightarrow> p | None \<Rightarrow> []))\<rparr>"

definition start :: "'w mt5_client \<Rightarrow> (unit, mt5_session \<times> 'w) io" where
  "start C =
     io_bind (io_get (\<lambda>w. start_args (fst w))) (\<lambda>args.
     io_bind (mt5_call ''initialize'' (mc_initialize C args)) (\<lambda>ok.
     if \<not> ok then
       io_bind (set_state DEGRADED) (\<lambda>_.
       io_bind (on_thread EventLoop ''last_error'' (mc_last_error C)) (\<lambda>e.
       io_raise (Mt5Unavailable (''initialize failed: '' @ e))))
     else
       io_bind (mt5_call ''terminal_info'' (mc_terminal_info C)) (\<lambda>terminal.
       io_bind (mt5_call ''account_info'' (mc_account_info C)) (\<lambda>account.
       if terminal = None \<or> account = None then
         io_bind (set_state DEGRADED) (\<lambda>_.
         io_raise (Mt5Unavailable ''terminal or account info unavailable after initialize''))
       else if terminal = Some False then
         io_raise (Mt5Unavailable ''terminal has automated trading disabled'')
       else set_state READY))))"

definition close_session :: "'w mt5_client \<Rightarrow> (unit, mt5_session \<times> 'w) io" where
  "close_session C =
     io_bind get_state (\<lambda>st.
     io_bind
       (if st = READY \<or> st = DEGRADED then
          io_catch (in_executor ''shutdown'' (mc_shutdown C))
            (\<lambda>e. if is_exception e then io_ret () else io_raise e)
        else io_ret ()) (\<lambda>_.
     io_bind (io_do (\<lambda>w. ((fst w)\<lparr>ms_shut := True\<rparr>, snd w))) (\<lambda>_.
     set_state CLOSED)))"

section \<open>The life of a session\<close>

fun session_rank :: "session_state \<Rightarrow> nat" where
  "session_rank IDLE = 0"
| "session_rank READY = 1"
| "session_rank DEGRADED = 2"
| "session_rank CLOSED = 3"

text \<open>A closed session has no executor, and no other one has been shut down.\<close>

definition session_ok :: "mt5_session \<Rightarrow> bool" where
  "session_ok s \<longleftrightarrow> (ms_shut s \<longleftrightarrow> ms_state s = CLOSED)"

definition asked :: "mt5_session \<Rightarrow> thread \<Rightarrow> string \<Rightarrow> mt5_session" where
  "asked s th name = s\<lparr>ms_trace := ms_trace s @ [(th, name)]\<rparr>"

lemma asked_simps [simp]:
  "ms_state (asked s th name) = ms_state s" "ms_shut (asked s th name) = ms_shut s"
  "ms_trace (asked s th name) = ms_trace s @ [(th, name)]"
  "session_ok (asked s th name) = session_ok s" "start_args (asked s th name) = start_args s"
  by (simp_all add: asked_def session_ok_def start_args_def)

lemma in_executor_run:
  "in_executor name op (s, w) =
     (if ms_shut s then (Inl (RuntimeError ''cannot schedule new futures after shutdown''), (s, w))
      else case op w of (r, v) \<Rightarrow> (r, (asked s ExecutorThread name, v)))"
  by (simp add: in_executor_def on_thread_def io_defs asked_def split: prod.split)

lemma mt5_call_run:
  "mt5_call name op (s, w) =
     (if ms_state s = DEGRADED then (Inl (Mt5Unavailable ''session is degraded; restart the process''), (s, w))
      else if ms_shut s then (Inl (RuntimeError ''cannot schedule new futures after shutdown''), (s, w))
      else case op w of
             (Inr x, v) \<Rightarrow> (Inr x, (asked s ExecutorThread name, v))
           | (Inl e, v) \<Rightarrow>
               (Inl e, ((if is_timeout e then (asked s ExecutorThread name)\<lparr>ms_state := DEGRADED\<rparr>
                         else asked s ExecutorThread name), v)))"
  by (simp add: mt5_call_def get_state_def set_state_def io_bind_def io_get_def io_catch_def io_raise_def
      io_do_def in_executor_run split: prod.split sum.split)

text \<open>A call that returns leaves a session that was, and is, open for calls.\<close>

lemma mt5_call_cases:
  assumes "mt5_call name op (s, w) = (r, (s', w'))"
  obtains (refused) e where "r = Inl e" "s' = s" "w' = w" "ms_state s = DEGRADED \<or> ms_shut s"
  | (failed) e where "r = Inl e" "op w = (Inl e, w')" "ms_state s \<noteq> DEGRADED" "\<not> ms_shut s"
      "s' = (if is_timeout e then (asked s ExecutorThread name)\<lparr>ms_state := DEGRADED\<rparr>
             else asked s ExecutorThread name)"
  | (answered) x where "r = Inr x" "op w = (Inr x, w')" "ms_state s \<noteq> DEGRADED" "\<not> ms_shut s"
      "s' = asked s ExecutorThread name"
  using assms unfolding mt5_call_run by (fastforce split: if_splits prod.splits sum.splits)

definition advances :: "mt5_session \<Rightarrow> mt5_session \<Rightarrow> bool" where
  "advances s t \<longleftrightarrow> session_ok t \<and> session_rank (ms_state s) \<le> session_rank (ms_state t)"

lemma advances_trans: "advances s t \<Longrightarrow> advances t u \<Longrightarrow> advances s u"
  by (auto simp: advances_def)

lemma open_rank: "session_ok s \<Longrightarrow> \<not> ms_shut s \<Longrightarrow> session_rank (ms_state s) \<le> 2"
  by (cases "ms_state s") (auto simp: session_ok_def)

lemma mt5_call_advances:
  assumes "session_ok s" "mt5_call name op (s, w) = (r, (s', w'))"
  shows "advances s s'"
  using assms(2)
proof (cases rule: mt5_call_cases)
  case (failed e)
  with assms(1) open_rank show ?thesis by (auto simp: advances_def session_ok_def)
qed (use assms(1) in \<open>auto simp: advances_def\<close>)

lemma start_run:
  "start C (s, w) =
     (case mt5_call ''initialize'' (mc_initialize C (start_args s)) (s, w) of
        (Inl e, z) \<Rightarrow> (Inl e, z)
      | (Inr False, (u, v)) \<Rightarrow>
          (case mc_last_error C v of
             (Inl e, v') \<Rightarrow> (Inl e, (asked (u\<lparr>ms_state := DEGRADED\<rparr>) EventLoop ''last_error'', v'))
           | (Inr m, v') \<Rightarrow> (Inl (Mt5Unavailable (''initialize failed: '' @ m)),
                (asked (u\<lparr>ms_state := DEGRADED\<rparr>) EventLoop ''last_error'', v')))
      | (Inr True, (u, v)) \<Rightarrow>
          (case mt5_call ''terminal_info'' (mc_terminal_info C) (u, v) of
             (Inl e, z) \<Rightarrow> (Inl e, z)
           | (Inr x, (u, v)) \<Rightarrow>
               (case mt5_call ''account_info'' (mc_account_info C) (u, v) of
                  (Inl e, z) \<Rightarrow> (Inl e, z)
                | (Inr y, (t, v)) \<Rightarrow>
                    if x = None \<or> y = None then
                      (Inl (Mt5Unavailable ''terminal or account info unavailable after initialize''),
                       (t\<lparr>ms_state := DEGRADED\<rparr>, v))
                    else if x = Some False then
                      (Inl (Mt5Unavailable ''terminal has automated trading disabled''), (t, v))
                    else (Inr (), (t\<lparr>ms_state := READY\<rparr>, v)))))"
  by (simp add: start_def io_bind_def io_get_def set_state_def io_do_def io_raise_def on_thread_def on_snd_def
      asked_def split: prod.split sum.split bool.split)

text \<open>A start that returns went through all its checks; one that raises leaves the session as it
  was, apart from the trace, or degraded.\<close>

definition kept :: "mt5_session \<Rightarrow> mt5_session \<Rightarrow> bool" where
  "kept s s' \<longleftrightarrow> ms_shut s' = ms_shut s \<and>
     (ms_state s' = ms_state s \<or> ms_state s' = DEGRADED \<and> \<not> ms_shut s)"

lemma kept_trans: "kept s t \<Longrightarrow> kept t u \<Longrightarrow> kept s u"
  by (auto simp: kept_def)

lemma kept_advances: "session_ok s \<Longrightarrow> kept s s' \<Longrightarrow> advances s s'"
  using open_rank by (auto simp: kept_def advances_def session_ok_def)

lemma mt5_call_kept: "mt5_call name op (s, w) = (r, (s', w')) \<Longrightarrow> kept s s'"
  by (erule mt5_call_cases) (auto simp: kept_def)

lemma mt5_call_Inr:
  "mt5_call name op (s, w) = (Inr x, (s', w')) \<Longrightarrow>
     op w = (Inr x, w') \<and> s' = asked s ExecutorThread name \<and> \<not> ms_shut s \<and> ms_state s \<noteq> DEGRADED"
  by (erule mt5_call_cases) auto

lemma start_cases:
  assumes "start C (s, w) = (r, (s', w'))"
  obtains (raised) e where "r = Inl e" "kept s s'"
  | (ready) v1 v2 y where "r = Inr ()" "\<not> ms_shut s" "ms_state s \<noteq> DEGRADED"
      "mc_initialize C (start_args s) w = (Inr True, v1)" "mc_terminal_info C v1 = (Inr (Some True), v2)"
      "mc_account_info C v2 = (Inr (Some y), w')"
      "s' = (asked (asked (asked s ExecutorThread ''initialize'') ExecutorThread ''terminal_info'')
               ExecutorThread ''account_info'')\<lparr>ms_state := READY\<rparr>"
proof -
  obtain r1 u v where c1: "mt5_call ''initialize'' (mc_initialize C (start_args s)) (s, w) = (r1, (u, v))"
    by (metis prod.collapse)
  note k1 = mt5_call_kept [OF c1]
  consider (e) e where "r1 = Inl e" | (refused) "r1 = Inr False" | (accepted) "r1 = Inr True"
    by (cases r1) auto
  then show thesis
  proof cases
    case e
    with c1 k1 assms show thesis by (intro raised [of e]) (simp_all add: start_run)
  next
    case refused
    with mt5_call_Inr [OF c1 [unfolded refused]]
    have u: "\<not> ms_shut s" "u = asked s ExecutorThread ''initialize''" by simp_all
    obtain m v' where m: "mc_last_error C v = (m, v')" by fastforce
    obtain e where "start C (s, w) = (Inl e, (asked (u\<lparr>ms_state := DEGRADED\<rparr>) EventLoop ''last_error'', v'))"
      using c1 refused m by (cases m) (simp_all add: start_run)
    with assms have "r = Inl e" "s' = asked (u\<lparr>ms_state := DEGRADED\<rparr>) EventLoop ''last_error''" by simp_all
    moreover from this(2) u have "kept s s'" by (simp add: kept_def)
    ultimately show thesis by (intro raised)
  next
    case accepted
    note i1 = mt5_call_Inr [OF c1 [unfolded accepted]]
    obtain r2 u2 v2 where c2: "mt5_call ''terminal_info'' (mc_terminal_info C) (u, v) = (r2, (u2, v2))"
      by (metis prod.collapse)
    note k2 = kept_trans [OF k1 mt5_call_kept [OF c2]]
    show thesis
    proof (cases r2)
      case (Inl e)
      with accepted c1 c2 k2 assms show thesis by (intro raised [of e]) (simp_all add: start_run)
    next
      case (Inr x)
      note i2 = mt5_call_Inr [OF c2 [unfolded Inr]]
      obtain r3 u3 v3 where c3: "mt5_call ''account_info'' (mc_account_info C) (u2, v2) = (r3, (u3, v3))"
        by (metis prod.collapse)
      note k3 = kept_trans [OF k2 mt5_call_kept [OF c3]]
      show thesis
      proof (cases r3)
        case (Inl e)
        with accepted \<open>r2 = Inr x\<close> c1 c2 c3 k3 assms show thesis
          by (intro raised [of e]) (simp_all add: start_run)
      next
        case (Inr y)
        note i3 = mt5_call_Inr [OF c3 [unfolded Inr]]
        from accepted \<open>r2 = Inr x\<close> Inr c1 c2 c3 assms
        have run: "(r, (s', w')) =
            (if x = None \<or> y = None then
               (Inl (Mt5Unavailable ''terminal or account info unavailable after initialize''),
                (u3\<lparr>ms_state := DEGRADED\<rparr>, v3))
             else if x = Some False then
               (Inl (Mt5Unavailable ''terminal has automated trading disabled''), (u3, v3))
             else (Inr (), (u3\<lparr>ms_state := READY\<rparr>, v3)))"
          by (simp add: start_run)
        show thesis
        proof (cases "x = Some True \<and> y \<noteq> None")
          case True
          then obtain a where "y = Some a" by blast
          with True run i1 i2 i3 show thesis by (intro ready [of v v2 a]) simp_all
        next
          case False
          with run k3 i1 obtain e where "r = Inl e" "kept s s'"
            by (cases x) (auto simp: kept_def split: if_splits)
          then show thesis by (rule raised)
        qed
      qed
    qed
  qed
qed

lemma start_advances:
  assumes "session_ok s" "start C (s, w) = (r, (s', w'))"
  shows "advances s s'"
  using assms(2)
proof (cases rule: start_cases)
  case (raised e)
  with assms(1) show ?thesis by (simp add: kept_advances)
next
  case (ready v1 v2 y)
  with assms(1) show ?thesis by (cases "ms_state s") (auto simp: advances_def session_ok_def)
qed

lemma close_run:
  "close_session C (s, w) =
     (if ms_state s = READY \<or> ms_state s = DEGRADED then
        (case in_executor ''shutdown'' (mc_shutdown C) (s, w) of
           (Inl e, (t, v)) \<Rightarrow>
             if is_exception e then (Inr (), (t\<lparr>ms_shut := True, ms_state := CLOSED\<rparr>, v)) else (Inl e, (t, v))
         | (Inr _, (t, v)) \<Rightarrow> (Inr (), (t\<lparr>ms_shut := True, ms_state := CLOSED\<rparr>, v)))
      else (Inr (), (s\<lparr>ms_shut := True, ms_state := CLOSED\<rparr>, w)))"
  by (simp add: close_session_def get_state_def set_state_def io_bind_def io_get_def io_catch_def io_do_def
      io_ret_def io_raise_def split: prod.split sum.split)

lemma close_advances:
  assumes "session_ok s" "close_session C (s, w) = (r, (s', w'))"
  shows "advances s s'" and "r = Inr () \<Longrightarrow> ms_state s' = CLOSED"
  using assms unfolding close_run in_executor_run
  by (cases "ms_state s"; auto simp: advances_def session_ok_def split: if_splits prod.splits sum.splits)+

inductive session_step :: "'w mt5_client \<Rightarrow> mt5_session \<Rightarrow> mt5_session \<Rightarrow> bool" for C where
  started: "start C (s, w) = (r, (s', w')) \<Longrightarrow> session_step C s s'"
| called: "mt5_call name (op :: (unit, 'w) io) (s, w) = (r, (s', w')) \<Longrightarrow> session_step C s s'"
| closed: "close_session C (s, w) = (r, (s', w')) \<Longrightarrow> session_step C s s'"

lemma session_step_advances: "session_ok s \<Longrightarrow> session_step C s t \<Longrightarrow> advances s t"
  by (auto elim!: session_step.cases intro: start_advances mt5_call_advances close_advances(1))

lemma fresh_session [simp]:
  "ms_state (Mt5Session p l pw srv) = IDLE" "\<not> ms_shut (Mt5Session p l pw srv)"
  "ms_trace (Mt5Session p l pw srv) = []"
  by (simp_all add: Mt5Session_def)

lemma fresh_session_ok: "session_ok (Mt5Session p l pw srv)"
  by (simp add: session_ok_def)

interpretation session: safe_machine "\<lambda>s. \<exists>p l pw srv. s = Mt5Session p l pw srv" "session_step C" session_ok for C
  by unfold_locales (auto simp: fresh_session_ok dest: session_step_advances simp: advances_def)

interpretation session_life:
  ranked_machine "\<lambda>s t. session_ok s \<and> session_step C s t" "\<lambda>s. session_rank (ms_state s)" for C
  by unfold_locales (auto dest: session_step_advances simp: advances_def)

lemma session_steps_ok:
  "(session_step C)\<^sup>*\<^sup>* s t \<Longrightarrow> session_ok s \<Longrightarrow> (\<lambda>s t. session_ok s \<and> session_step C s t)\<^sup>*\<^sup>* s t"
proof (induction rule: rtranclp_induct)
  case (step t u)
  from step.prems step.hyps(1) have "session_ok t" by (rule session.inv_steps [rotated])
  with step show ?case by (blast intro: rtranclp.rtrancl_into_rtrancl)
qed simp

section \<open>Properties\<close>

text \<open>C32: The life of a session only moves forward, from idle to ready, degraded and closed: whatever
  starts, calls and closes follow, a degraded session never becomes usable again. A call on a
  degraded or closed session raises without reaching the client.\<close>

theorem session_moves_forward:
  assumes "session_ok s" "(session_step C)\<^sup>*\<^sup>* s t"
  shows "session_rank (ms_state s) \<le> session_rank (ms_state t) \<and>
    (ms_state s \<in> {DEGRADED, CLOSED} \<longrightarrow>
      (\<exists>e. mt5_call name op (t, w) = (Inl (RuntimeError e), (t, w))))"
proof (intro conjI impI)
  show rank: "session_rank (ms_state s) \<le> session_rank (ms_state t)"
    by (rule session_life.steps_rank [OF session_steps_ok [OF assms(2,1)]])
  assume "ms_state s \<in> {DEGRADED, CLOSED}"
  moreover have "session_ok t" by (rule session.inv_steps [OF assms(2,1)])
  ultimately show "\<exists>e. mt5_call name op (t, w) = (Inl (RuntimeError e), (t, w))"
    using rank by (cases "ms_state t") (auto simp: mt5_call_run Mt5Unavailable_def session_ok_def)
qed

text \<open>A start that returns has made every check: the client was initialised with the configured
  account, the terminal allows automated trading, the account is known, and the session is ready.
  A start that raises leaves the session in its state or degraded, never ready by mistake.\<close>

lemma start_is_checked:
  assumes "start C (s, w) = (r, (s', w'))"
  shows "case r of
      Inr _ \<Rightarrow> ms_state s' = READY \<and>
        (\<exists>v1 v2 y. mc_initialize C (start_args s) w = (Inr True, v1) \<and>
          mc_terminal_info C v1 = (Inr (Some True), v2) \<and> mc_account_info C v2 = (Inr (Some y), w'))
    | Inl _ \<Rightarrow> ms_state s' = ms_state s \<or> ms_state s' = DEGRADED"
  using assms by (cases rule: start_cases) (auto simp: kept_def)

text \<open>
  The code after a refused start: a terminal that does not allow automated trading leaves the session
  idle although the client was initialised, so the following close does not ask it to shut down.
\<close>

lemma disabled_terminal_stays_connected:
  assumes "ms_state s = IDLE" "\<not> ms_shut s"
    and "mc_initialize C (start_args s) w = (Inr True, v1)" "mc_terminal_info C v1 = (Inr (Some False), v2)"
    and "mc_account_info C v2 = (Inr (Some y), w')"
  obtains e s1 s2 where "start C (s, w) = (Inl (RuntimeError e), (s1, w'))"
    "close_session C (s1, w') = (Inr (), (s2, w'))" "ms_state s2 = CLOSED"
    "ms_trace s2 = ms_trace s @ map (Pair ExecutorThread) [''initialize'', ''terminal_info'', ''account_info'']"
proof -
  let ?t = "asked (asked (asked s ExecutorThread ''initialize'') ExecutorThread ''terminal_info'')
      ExecutorThread ''account_info''"
  have "start C (s, w) = (Inl (Mt5Unavailable ''terminal has automated trading disabled''), (?t, w'))"
    using assms by (simp add: start_run mt5_call_run)
  moreover have "close_session C (?t, w') = (Inr (), (?t\<lparr>ms_shut := True, ms_state := CLOSED\<rparr>, w'))"
    using assms(1) by (simp add: close_run)
  ultimately show thesis
    by (intro that [of _ ?t "?t\<lparr>ms_shut := True, ms_state := CLOSED\<rparr>"]) (simp_all add: Mt5Unavailable_def)
qed

text \<open>A client whose first call hangs.\<close>

definition hanging_client :: "unit mt5_client" where
  "hanging_client =
     \<lparr>mc_initialize = (\<lambda>_. io_raise (TimeoutError [])), mc_last_error = io_ret [],
      mc_terminal_info = io_ret None, mc_account_info = io_ret None, mc_shutdown = io_ret ()\<rparr>"

theorem session_moves_forward_witness:
  "\<exists>s e. session_step hanging_client (Mt5Session None None None None) s \<and> ms_state s = DEGRADED \<and>
     mt5_call ''account_info'' (io_ret ()) (s, ()) = (Inl (RuntimeError e), (s, ()))"
proof -
  let ?fresh = "Mt5Session None None None None"
  let ?hung = "(asked ?fresh ExecutorThread ''initialize'')\<lparr>ms_state := DEGRADED\<rparr>"
  have "start hanging_client (?fresh, ()) = (Inl (TimeoutError []), (?hung, ()))"
    by (simp add: start_run mt5_call_run hanging_client_def io_raise_def)
  then have step: "session_step hanging_client ?fresh ?hung" by (rule started)
  have ok: "session_ok ?hung"
    using session_step_advances [OF fresh_session_ok step] by (simp add: advances_def)
  have "\<exists>e. mt5_call ''account_info'' (io_ret ()) (?hung, ()) = (Inl (RuntimeError e), (?hung, ()))"
    using session_moves_forward [OF ok rtranclp.rtrancl_refl] by simp
  moreover have "ms_state ?hung = DEGRADED" by simp
  ultimately show ?thesis using step by blast
qed

text \<open>A client that answers.\<close>

definition answering_client :: "unit mt5_client" where
  "answering_client =
     \<lparr>mc_initialize = (\<lambda>_. io_ret True), mc_last_error = io_ret [],
      mc_terminal_info = io_ret (Some True), mc_account_info = io_ret (Some 1001), mc_shutdown = io_ret ()\<rparr>"

end
