(* ===== verification/Mt5_Probe.thy ===== *)
theory Mt5_Probe
  imports Py_Float Py_Text "HOL-Library.Sublist" "HOL-Library.Word"
begin

unbundle bit_operations_syntax

text \<open>
  The calculations of the diagnostic script \<open>ops/mt5_probe.py\<close>: the filling modes of a symbol, the
  gold symbols in the order they are shown, and the table of lot sizes in binary64. What the script
  prints around them is prose; what MetaTrader answers is an argument.
\<close>

section \<open>Filling modes\<close>

text \<open>The names of the modes, joined; \<open>None\<close> stands for the text that there is none.\<close>

definition offered_filling :: "int \<Rightarrow> int \<Rightarrow> string list" where
  "offered_filling modes execution_mode =
     (if modes AND 1 \<noteq> 0 then [''FOK''] else []) @ (if modes AND 2 \<noteq> 0 then [''IOC''] else []) @
     (if execution_mode \<noteq> 2 then [''RETURN''] else [])"

definition decode_filling :: "int \<Rightarrow> int \<Rightarrow> string option" where
  "decode_filling modes execution_mode =
     (let allowed = offered_filling modes execution_mode
      in if allowed \<noteq> [] then Some (join '', '' allowed) else None)"

text \<open>The constants \<open>ORDER_FILLING_*\<close> of the MetaTrader package, and the choice among them.\<close>

record filling_codes =
  code_fok :: int
  code_ioc :: int
  code_return :: int

definition preferred_filling :: "filling_codes \<Rightarrow> int \<Rightarrow> int" where
  "preferred_filling K filling_mode =
     (if filling_mode AND 2 \<noteq> 0 then code_ioc K
      else if filling_mode AND 1 \<noteq> 0 then code_fok K
      else code_return K)"

text \<open>
  The choice is offered by the symbol, with one exception: market execution with an empty mask offers
  nothing, and the choice is still \<open>RETURN\<close>.
\<close>

definition filling_name :: "filling_codes \<Rightarrow> int \<Rightarrow> string" where
  "filling_name K c = (if c = code_ioc K then ''IOC'' else if c = code_fok K then ''FOK'' else ''RETURN'')"

lemma preferred_filling_offered:
  assumes "distinct [code_fok K, code_ioc K, code_return K]"
  shows "filling_name K (preferred_filling K modes) \<in> set (offered_filling modes mode) \<longleftrightarrow>
    offered_filling modes mode \<noteq> []"
  using assms by (auto simp: filling_name_def preferred_filling_def offered_filling_def)

lemma nothing_offered:
  "decode_filling modes mode = None \<longleftrightarrow> mode = 2 \<and> modes AND 1 = 0 \<and> modes AND 2 = 0"
  by (simp add: decode_filling_def offered_filling_def)

section \<open>Gold symbols\<close>

text \<open>\<open>needle in text\<close>\<close>

fun py_in :: "string \<Rightarrow> string \<Rightarrow> bool" where
  "py_in needle [] = (needle = [])"
| "py_in needle (c # cs) = (prefix needle (c # cs) \<or> py_in needle cs)"

lemma py_in_sublist: "py_in needle cs \<longleftrightarrow> sublist needle cs"
  by (induction cs) (auto simp: sublist_Cons_right)

definition starts_xauusd :: "string \<Rightarrow> bool" where
  "starts_xauusd name = prefix ''XAUUSD'' (upper name)"

definition find_gold_symbols :: "string list option \<Rightarrow> string list" where
  "find_gold_symbols symbols =
     (case symbols of
        None \<Rightarrow> []
      | Some xs \<Rightarrow>
          let names = sort (filter (\<lambda>n. py_in ''XAU'' (upper n)) xs);
              usd = filter starts_xauusd names;
              rest = filter (\<lambda>n. \<not> starts_xauusd n) names
          in usd @ rest)"

text \<open>The symbols reported: the \<open>XAUUSD\<close> ones, or the first three when there are none.\<close>

definition reported_symbols :: "string list \<Rightarrow> string list" where
  "reported_symbols candidates =
     (let wanted = filter starts_xauusd candidates
      in if wanted \<noteq> [] then wanted else take 3 candidates)"

lemma mset_filter_parts: "mset (filter P xs @ filter (\<lambda>x. \<not> P x) xs) = mset xs"
  by (induction xs) auto

lemma starts_gold: "starts_xauusd n \<Longrightarrow> py_in ''XAU'' (upper n)"
proof -
  assume "starts_xauusd n"
  then obtain us where "upper n = ''XAU'' @ ''USD'' @ us" by (auto simp: starts_xauusd_def prefix_def)
  then show ?thesis unfolding py_in_sublist sublist_def by (metis append_Nil)
qed

text \<open>No gold symbol is lost, and every \<open>XAUUSD\<close> symbol is reported, in alphabetical order.\<close>

lemma gold_symbols:
  "mset (find_gold_symbols (Some xs)) = mset (filter (\<lambda>n. py_in ''XAU'' (upper n)) xs)"
  unfolding find_gold_symbols_def Let_def option.case mset_filter_parts by simp

lemma reported_gold:
  assumes "\<exists>n\<in>set xs. starts_xauusd n"
  shows "reported_symbols (find_gold_symbols (Some xs)) = sort (filter starts_xauusd xs)"
proof -
  let ?names = "sort (filter (\<lambda>n. py_in ''XAU'' (upper n)) xs)"
  have "filter starts_xauusd ?names = sort (filter starts_xauusd xs)"
    by (simp add: filter_sort) (metis starts_gold)
  moreover have "sort (filter starts_xauusd xs) \<noteq> []"
    using assms by (metis filter_empty_conv set_empty set_sort)
  ultimately have "filter starts_xauusd ?names = sort (filter starts_xauusd xs)"
    "filter starts_xauusd ?names \<noteq> []" by simp_all
  then show ?thesis
    by (simp add: reported_symbols_def find_gold_symbols_def Let_def)
qed

section \<open>The table of lot sizes\<close>

record probe_spec =
  pr_contract_size :: pyfloat
  pr_volume_min :: pyfloat
  pr_volume_step :: pyfloat

record probe_line =
  rk_r :: pyfloat
  rk_raw :: pyfloat
  rk_lots :: pyfloat
  rk_loss :: pyfloat
  rk_percent :: pyfloat
  rk_asks :: bool

text \<open>\<open>int(x)\<close> of a float: towards zero.\<close>

definition ftrunc :: "pyfloat \<Rightarrow> int result" where
  "ftrunc x = (if x \<ge> 0 then ffloor x else fceil x)"

definition hundredths :: "int \<Rightarrow> pyfloat" where
  "hundredths n = float_of_dec (Dec n (- 2))"

definition risk_line :: "probe_spec \<Rightarrow> pyfloat \<Rightarrow> pyfloat \<Rightarrow> pyfloat \<Rightarrow> probe_line result" where
  "risk_line info equity budget r =
     (let risk_per_lot = r * pr_contract_size info
      in bindr (fdiv budget risk_per_lot) (\<lambda>raw.
         let step = (if is_fzero (pr_volume_step info) then hundredths 1 else pr_volume_step info);
             clamped = pymax (pymin raw (hundredths 2)) (pr_volume_min info)
         in bindr (fdiv clamped step) (\<lambda>steps.
            bindr (ftrunc steps) (\<lambda>n.
            bindr (float_of_int n) (\<lambda>whole.
            let lots = whole * step; loss = lots * risk_per_lot * fint 2
            in bindr (fdiv loss equity) (\<lambda>share.
               Inr \<lparr>rk_r = r, rk_raw = raw, rk_lots = lots, rk_loss = loss, rk_percent = share * fint 100,
                    rk_asks = raw < pr_volume_min info\<rparr>))))))"

definition report_risk_table :: "probe_spec \<Rightarrow> pyfloat \<Rightarrow> probe_line list result" where
  "report_risk_table info equity =
     (let budget = equity * hundredths 10
      in mapr (risk_line info equity budget) (map fint [10, 18, 25, 39, 45, 60]))"

text \<open>
  \<open>main\<close> takes an equity of \<open>0.0\<close> when the account is unknown. The table cannot be shown then: its
  first line divides by the equity, whatever the symbol is.
\<close>

definition equity_of :: "pyfloat option \<Rightarrow> pyfloat" where
  "equity_of account = (case account of Some equity \<Rightarrow> equity | None \<Rightarrow> FZero False)"

lemma risk_line_zero_equity: "is_fzero equity \<Longrightarrow> \<exists>e. risk_line info equity budget r = Inl e"
  by (cases "risk_line info equity budget r") (auto simp: risk_line_def Let_def fdiv_def bindr_Inr_iff split: if_splits)

lemma unknown_account_stops_the_table: "\<exists>e. report_risk_table info (equity_of None) = Inl e"
proof -
  obtain e where "risk_line info (FZero False) (FZero False * hundredths 10) (fint 10) = Inl e"
    using risk_line_zero_equity [of "FZero False" info] is_fzero.simps(1) by blast
  then show ?thesis by (simp add: report_risk_table_def equity_of_def Let_def)
qed

text \<open>A gold contract of 100 ounces with 389.57 of equity: two lots of the minimum lose 20 at a stop of 10.\<close>

definition gold_probe :: probe_spec where
  "gold_probe = \<lparr>pr_contract_size = fint 100, pr_volume_min = hundredths 1, pr_volume_step = hundredths 1\<rparr>"

lemma gold_probe_line:
  "map_sum id (\<lambda>l. (rk_lots l = hundredths 2, rk_asks l, feq (rk_loss l) (fint 40)))
     (risk_line gold_probe (hundredths 38957) (hundredths 38957 * hundredths 10) (fint 10)) =
   Inr (True, False, True)"
  by code_simp

end
