(* ===== verification/Telegram.thy ===== *)
theory Telegram
  imports Domain_Decisions Py_Text
begin

text \<open>
  \<open>infrastructure/notify/telegram.py\<close> and the port \<open>ports/notifier.py\<close> it implements: messages to
  one chat, the two buttons of a confirmation request, and the long polling that turns pressed
  buttons into confirmation responses. The HTTP client (httpx2) is a parameter: sending a request,
  the check of its status and the decoding of its body. The Korean wording of the messages is
  given in English. Log records are left out.
\<close>

section \<open>The HTTP client and the notifier\<close>

record ('w, 'r) http_client =
  hc_post :: "string \<Rightarrow> json \<Rightarrow> ('r, 'w) io"
  hc_raise_for_status :: "'r \<Rightarrow> unit result"
  hc_json :: "'r \<Rightarrow> json result"
  hc_aclose :: "(unit, 'w) io"

record telegram =
  tg_token :: string
  tg_chat_id :: int
  tg_api_root :: string
  tg_offset :: "int option"

definition API_ROOT :: string where
  "API_ROOT = ''https://api.telegram.org''"

definition TelegramNotifier :: "string \<Rightarrow> int \<Rightarrow> string \<Rightarrow> telegram" where
  "TelegramNotifier bot_token chat_id api_root =
     \<lparr>tg_token = bot_token, tg_chat_id = chat_id, tg_api_root = api_root, tg_offset = None\<rparr>"

definition url_of :: "telegram \<Rightarrow> string \<Rightarrow> string" where
  "url_of t m = tg_api_root t @ ''/bot'' @ tg_token t @ ''/'' @ m"

definition tg_post ::
  "('w, 'r) http_client \<Rightarrow> string \<Rightarrow> json \<Rightarrow> (json, telegram \<times> 'w) io" where
  "tg_post H m payload =
     io_bind (io_get (\<lambda>w. url_of (fst w) m)) (\<lambda>url.
     io_bind (on_snd (hc_post H url payload)) (\<lambda>response.
     io_bind (io_lift (hc_raise_for_status H response)) (\<lambda>_.
     io_lift (hc_json H response))))"

text \<open>\<open>except Exception\<close>: the error is logged and a default returned.\<close>

definition swallow :: "'a \<Rightarrow> ('a, 'w) io \<Rightarrow> ('a, 'w) io" where
  "swallow d m = io_catch m (\<lambda>e. if is_exception e then io_ret d else io_raise e)"

section \<open>Messages\<close>

definition notify :: "('w, 'r) http_client \<Rightarrow> string \<Rightarrow> (unit, telegram \<times> 'w) io" where
  "notify H text =
     swallow ()
       (io_bind (io_get (\<lambda>w. tg_chat_id (fst w))) (\<lambda>chat_id.
        io_bind
          (tg_post H ''sendMessage''
             (JObject [(''chat_id'', JNumber chat_id), (''text'', JString text),
                       (''parse_mode'', JString ''HTML'')]))
          (\<lambda>_. io_ret ())))"

definition money :: "dec \<Rightarrow> string result" where
  "money x = bindr (quantize (- 2) x) (\<lambda>q. Inr (dec_text q))"

text \<open>The lines of the message; the first amount that cannot be formatted raises.\<close>

definition render_confirmation :: "confirmation_request \<Rightarrow> string result" where
  "render_confirmation r =
     (let deadline = clock_text (instant (cr_deadline_at r)) @ '' UTC'';
          close_time = instant (cr_bar_close_time r)
      in bindr
           (mapr (\<lambda>x. x)
              [Inr (''Signal over budget''),
               Inr (cr_symbol r @ '' '' @ side_value (cr_side r)),
               Inr (''Bar close '' @ date_text close_time @ '' '' @ hour_minute close_time @ '' UTC''),
               Inr (''Stop '' @ dec_text (cr_stop_price r)),
               bindr (money (cr_stop_distance r)) (\<lambda>m. Inr (''Distance '' @ m)),
               Inr (''Lots '' @ dec_text (cr_proposed_lots r)),
               bindr (money (cr_risk_amount r)) (\<lambda>m. Inr (''Risk '' @ m)),
               bindr (money (cr_budget r)) (\<lambda>m. Inr (''Budget '' @ m)),
               bindr (money (over_budget_by r)) (\<lambda>m. Inr (''Over by +'' @ m)),
               bindr (risk_pct_of_equity r) (\<lambda>p.
                 bindr (money (cr_equity r)) (\<lambda>m.
                   Inr (''Of equity '' @ dec_text p @ ''% of '' @ m))),
               Inr (''Without an answer it is skipped at '' @ deadline)])
           (\<lambda>ls. Inr (join [CHR 0x0A] ls)))"

fun callback_prefix :: "confirmation_choice \<Rightarrow> string" where
  "callback_prefix ENTER = ''enter''"
| "callback_prefix SKIP = ''skip''"

definition CALLBACK_PREFIXES :: "(string \<times> confirmation_choice) list" where
  "CALLBACK_PREFIXES = [(''enter'', ENTER), (''skip'', SKIP)]"

definition keyboard :: "confirmation_request \<Rightarrow> json" where
  "keyboard r =
     JObject [(''inline_keyboard'', JArray [JArray
       [JObject [(''text'', JString (''Enter ('' @ dec_text (cr_proposed_lots r) @ '' lots)'')),
                 (''callback_data'', JString (''enter:'' @ str_uuid (cr_confirmation_id r)))],
        JObject [(''text'', JString ''Skip''),
                 (''callback_data'', JString (''skip:'' @ str_uuid (cr_confirmation_id r)))]]])]"

definition request_confirmation ::
  "('w, 'r) http_client \<Rightarrow> confirmation_request \<Rightarrow> (unit, telegram \<times> 'w) io" where
  "request_confirmation H r =
     io_bind (io_get (\<lambda>w. tg_chat_id (fst w))) (\<lambda>chat_id.
     io_bind (io_lift (render_confirmation r)) (\<lambda>text.
     io_bind
       (tg_post H ''sendMessage''
          (JObject [(''chat_id'', JNumber chat_id), (''text'', JString text),
                    (''parse_mode'', JString ''HTML''),
                    (''reply_markup'', JString (dumps '', '' '': '' (keyboard r)))]))
       (\<lambda>_. io_ret ())))"

section \<open>Polling\<close>

definition split_callback_data :: "json \<Rightarrow> (confirmation_choice option \<times> uuid option) result" where
  "split_callback_data data =
     (case data of
        JString s \<Rightarrow>
          (let prefix = takeWhile (\<lambda>c. c \<noteq> CHR '':'') s;
               raw_id = drop 1 (dropWhile (\<lambda>c. c \<noteq> CHR '':'') s)
           in case dict_get CALLBACK_PREFIXES prefix of
                None \<Rightarrow> Inr (None, None)
              | Some choice \<Rightarrow>
                  (case parse_uuid raw_id of
                     Some i \<Rightarrow> Inr (Some choice, Some i)
                   | None \<Rightarrow> Inr (None, None)))
      | _ \<Rightarrow> Inl (AttributeError ''partition''))"

text \<open>\<open>value == n\<close> and \<open>str(value)\<close> for a JSON value that equals an integer: \<open>True\<close> equals 1.\<close>

fun json_equals_int :: "json \<Rightarrow> int \<Rightarrow> bool" where
  "json_equals_int (JNumber i) n = (i = n)"
| "json_equals_int (JBool b) n = ((if b then 1 else 0) = n)"
| "json_equals_int _ n = False"

fun json_int_text :: "json \<Rightarrow> string" where
  "json_int_text (JNumber i) = str_int i"
| "json_int_text (JBool b) = (if b then ''True'' else ''False'')"
| "json_int_text _ = []"

definition parse_callback :: "int \<Rightarrow> pydatetime \<Rightarrow> json \<Rightarrow> confirmation_response option result" where
  "parse_callback chat_id now update =
     bindr (py_get update ''callback_query'' JNull) (\<lambda>query.
     if \<not> truthy query then Inr None
     else bindr (py_get query ''from'' (JObject [])) (\<lambda>sender.
          bindr (py_get sender ''id'' JNull) (\<lambda>sender_id.
          if \<not> json_equals_int sender_id chat_id then Inr None
          else bindr (py_get query ''data'' (JString [])) (\<lambda>data.
               bindr (split_callback_data data) (\<lambda>(choice, confirmation_id).
               case (choice, confirmation_id) of
                 (Some c, Some i) \<Rightarrow>
                   bindr
                     (ConfirmationResponse
                        \<lparr>cs_confirmation_id = i, cs_choice = c, cs_responder = json_int_text sender_id,
                         cs_channel = TELEGRAM, cs_received_at = now\<rparr>)
                     (\<lambda>r. Inr (Some r))
               | _ \<Rightarrow> Inr None)))))"

definition update_id :: "json \<Rightarrow> int result" where
  "update_id update = bindr (py_subscript update ''update_id'') py_int"

fun consume :: "pydatetime \<Rightarrow> json list \<Rightarrow> (confirmation_response list, telegram \<times> 'w) io" where
  "consume now [] = io_ret []"
| "consume now (update # updates) =
     io_bind (io_lift (update_id update)) (\<lambda>n.
     io_bind (io_do (\<lambda>w. ((fst w)\<lparr>tg_offset := Some (n + 1)\<rparr>, snd w))) (\<lambda>_.
     io_bind (io_get (\<lambda>w. tg_chat_id (fst w))) (\<lambda>chat_id.
     io_bind (io_lift (parse_callback chat_id now update)) (\<lambda>parsed.
     io_bind (consume now updates) (\<lambda>responses.
     io_ret (case parsed of Some r \<Rightarrow> r # responses | None \<Rightarrow> responses))))))"

definition poll_payload :: "telegram \<Rightarrow> int \<Rightarrow> (string \<times> json) list" where
  "poll_payload t timeout_seconds =
     [(''timeout'', JNumber timeout_seconds),
      (''allowed_updates'', JArray [JString ''callback_query''])] @
     (case tg_offset t of Some n \<Rightarrow> [(''offset'', JNumber n)] | None \<Rightarrow> [])"

definition updates_of :: "json \<Rightarrow> json list result" where
  "updates_of body = bindr (py_get body ''result'' (JArray [])) py_iter"

definition poll_responses ::
  "('w, 'r) http_client \<Rightarrow> pydatetime \<Rightarrow> int \<Rightarrow> (confirmation_response list, telegram \<times> 'w) io" where
  "poll_responses H now timeout_seconds =
     io_bind (io_get (\<lambda>w. JObject (poll_payload (fst w) timeout_seconds))) (\<lambda>payload.
     io_bind
       (swallow None (io_bind (tg_post H ''getUpdates'' payload) (\<lambda>body. io_ret (Some body)))) (\<lambda>body.
     case body of
       None \<Rightarrow> io_ret []
     | Some b \<Rightarrow> io_bind (io_lift (updates_of b)) (consume now)))"

definition acknowledge ::
  "('w, 'r) http_client \<Rightarrow> string \<Rightarrow> string \<Rightarrow> (unit, telegram \<times> 'w) io" where
  "acknowledge H callback_query_id text =
     swallow ()
       (io_bind
          (tg_post H ''answerCallbackQuery''
             (JObject [(''callback_query_id'', JString callback_query_id), (''text'', JString text)]))
          (\<lambda>_. io_ret ()))"

definition aclose :: "('w, 'r) http_client \<Rightarrow> (unit, telegram \<times> 'w) io" where
  "aclose H = on_snd (hc_aclose H)"

section \<open>What a callback means\<close>

text \<open>
  The update tells that the account \<open>chat_id\<close>, written as \<open>who\<close>, pressed the button of the choice
  \<open>c\<close> under the confirmation request \<open>i\<close>.
\<close>

definition pressed :: "int \<Rightarrow> json \<Rightarrow> confirmation_choice \<Rightarrow> uuid \<Rightarrow> string \<Rightarrow> bool" where
  "pressed chat_id update c i who \<longleftrightarrow>
     (\<exists>query sender sender_id raw.
        py_get update ''callback_query'' JNull = Inr query \<and>
        py_get query ''from'' (JObject []) = Inr sender \<and>
        py_get sender ''id'' JNull = Inr sender_id \<and> json_equals_int sender_id chat_id \<and>
        who = json_int_text sender_id \<and>
        py_get query ''data'' (JString []) = Inr (JString (callback_prefix c @ '':'' @ raw)) \<and>
        parse_uuid raw = Some i)"

lemma parse_uuid_Nil [simp]: "parse_uuid [] = None"
  by (simp add: parse_uuid_def strip_braces_def Let_def)

lemma split_at_colon:
  assumes "CHR '':'' \<notin> set p"
  shows "takeWhile (\<lambda>c. c \<noteq> CHR '':'') (p @ '':'' @ raw) = p"
    "drop 1 (dropWhile (\<lambda>c. c \<noteq> CHR '':'') (p @ '':'' @ raw)) = raw"
proof -
  have "\<forall>c\<in>set p. c \<noteq> CHR '':''" using assms by blast
  then show "takeWhile (\<lambda>c. c \<noteq> CHR '':'') (p @ '':'' @ raw) = p"
    "drop 1 (dropWhile (\<lambda>c. c \<noteq> CHR '':'') (p @ '':'' @ raw)) = raw"
    by (simp_all add: takeWhile_append2 dropWhile_append2)
qed

lemma callback_prefix_colon: "CHR '':'' \<notin> set (callback_prefix c)"
  by (cases c) auto

lemma prefixes_get: "dict_get CALLBACK_PREFIXES p = Some c \<longleftrightarrow> p = callback_prefix c"
  by (cases c) (auto simp: CALLBACK_PREFIXES_def)

lemma split_callback_data_iff:
  "split_callback_data data = Inr (Some c, Some i) \<longleftrightarrow>
     (\<exists>raw. data = JString (callback_prefix c @ '':'' @ raw) \<and> parse_uuid raw = Some i)"
proof
  assume "\<exists>raw. data = JString (callback_prefix c @ '':'' @ raw) \<and> parse_uuid raw = Some i"
  then obtain raw where d: "data = JString (callback_prefix c @ '':'' @ raw)" "parse_uuid raw = Some i" by blast
  have "dict_get CALLBACK_PREFIXES (callback_prefix c) = Some c" by (simp only: prefixes_get)
  then show "split_callback_data data = Inr (Some c, Some i)"
    unfolding split_callback_data_def d(1) json.case Let_def split_at_colon [OF callback_prefix_colon]
    by (simp add: d(2))
next
  assume s: "split_callback_data data = Inr (Some c, Some i)"
  then obtain t where t: "data = JString t" by (auto simp: split_callback_data_def split: json.splits)
  define p where "p = takeWhile (\<lambda>c. c \<noteq> CHR '':'') t"
  define r where "r = dropWhile (\<lambda>c. c \<noteq> CHR '':'') t"
  from s have *: "dict_get CALLBACK_PREFIXES p = Some c" "parse_uuid (drop 1 r) = Some i"
    by (auto simp: split_callback_data_def t Let_def p_def r_def split: option.splits)
  from *(2) have "r \<noteq> []" by auto
  then have "r = '':'' @ drop 1 r"
    using hd_dropWhile [of "\<lambda>c. c \<noteq> CHR '':''" t] unfolding r_def [symmetric] by (cases r) auto
  moreover have "t = p @ r" by (simp add: p_def r_def)
  ultimately show "\<exists>raw. data = JString (callback_prefix c @ '':'' @ raw) \<and> parse_uuid raw = Some i"
    using *(1,2) unfolding t prefixes_get by metis
qed

lemma falsy_query: "py_get query k d = Inr v \<Longrightarrow> v \<noteq> d \<Longrightarrow> truthy query"
  by (cases query) (auto simp: json_get_def)

text \<open>A callback becomes a response exactly when the whitelisted account pressed a button.\<close>

lemma parse_callback_Some:
  "parse_callback chat_id (Aware clock off) update = Inr (Some r) \<longleftrightarrow>
     (\<exists>c i who. pressed chat_id update c i who \<and>
        r = \<lparr>cs_confirmation_id = i, cs_choice = c, cs_responder = who, cs_channel = TELEGRAM,
             cs_received_at = astimezone_utc (Aware clock off)\<rparr>)"
proof
  assume "parse_callback chat_id (Aware clock off) update = Inr (Some r)"
  then show "\<exists>c i who. pressed chat_id update c i who \<and>
        r = \<lparr>cs_confirmation_id = i, cs_choice = c, cs_responder = who, cs_channel = TELEGRAM,
             cs_received_at = astimezone_utc (Aware clock off)\<rparr>"
    by (fastforce simp: parse_callback_def pressed_def bindr_Inr_iff split_callback_data_iff
        ConfirmationResponse_def run_model_Inr_iff
        split: if_splits option.splits prod.splits)
next
  assume "\<exists>c i who. pressed chat_id update c i who \<and>
        r = \<lparr>cs_confirmation_id = i, cs_choice = c, cs_responder = who, cs_channel = TELEGRAM,
             cs_received_at = astimezone_utc (Aware clock off)\<rparr>"
  then obtain c i who where "pressed chat_id update c i who"
    and r: "r = \<lparr>cs_confirmation_id = i, cs_choice = c, cs_responder = who, cs_channel = TELEGRAM,
             cs_received_at = astimezone_utc (Aware clock off)\<rparr>" by blast
  then obtain query sender sender_id raw where q: "py_get update ''callback_query'' JNull = Inr query"
    "py_get query ''from'' (JObject []) = Inr sender" "py_get sender ''id'' JNull = Inr sender_id"
    "json_equals_int sender_id chat_id" "who = json_int_text sender_id"
    and d: "py_get query ''data'' (JString []) = Inr (JString (callback_prefix c @ '':'' @ raw))"
      "parse_uuid raw = Some i"
    unfolding pressed_def by blast
  have "truthy query" by (rule falsy_query [OF d(1)]) simp
  moreover have "split_callback_data (JString (callback_prefix c @ '':'' @ raw)) = Inr (Some c, Some i)"
    using d(2) split_callback_data_iff by blast
  ultimately show "parse_callback chat_id (Aware clock off) update = Inr (Some r)"
    using q d(1) r by (simp add: parse_callback_def ConfirmationResponse_def run_model_def)
qed

section \<open>What a poll does\<close>

definition advanced :: "telegram \<Rightarrow> int list \<Rightarrow> telegram" where
  "advanced t ids = (if ids = [] then t else t\<lparr>tg_offset := Some (last ids + 1)\<rparr>)"

lemma advanced_simps [simp]:
  "tg_chat_id (advanced t ids) = tg_chat_id t" "advanced t [] = t"
  "advanced (t\<lparr>tg_offset := Some (n + 1)\<rparr>) ids = advanced t (n # ids)"
  by (simp_all add: advanced_def)

lemma consume_Cons_Inr:
  "consume now (u # us) (t, w) = (Inr rs, v) \<longleftrightarrow>
     (\<exists>n p rs'. update_id u = Inr n \<and> parse_callback (tg_chat_id t) now u = Inr p \<and>
        consume now us (t\<lparr>tg_offset := Some (n + 1)\<rparr>, w) = (Inr rs', v) \<and>
        rs = (case p of Some r \<Rightarrow> r # rs' | None \<Rightarrow> rs'))"
  by (cases v) (auto simp: io_bind_Inr_iff io_lift_def io_do_def io_get_def io_ret_def)

lemma consume_run:
  "consume now us (t, w) = (Inr rs, (t', w')) \<longleftrightarrow>
     w' = w \<and> (\<exists>ids ps. mapr update_id us = Inr ids \<and>
       mapr (parse_callback (tg_chat_id t) now) us = Inr ps \<and>
       rs = List.map_filter (\<lambda>p. p) ps \<and> t' = advanced t ids)"
proof (induction us arbitrary: t rs)
  case Nil
  show ?case by (auto simp: io_ret_def map_filter_simps)
next
  case (Cons u us)
  show ?case
    by (auto simp: consume_Cons_Inr Cons.IH mapr_Cons_Inr map_filter_simps split: option.splits
        simp del: consume.simps mapr.simps)
qed

text \<open>The updates a poll receives: none when the request fails.\<close>

definition received :: "('w, 'r) http_client \<Rightarrow> int \<Rightarrow> telegram \<times> 'w \<Rightarrow> json list" where
  "received H timeout_seconds w =
     (case tg_post H ''getUpdates'' (JObject (poll_payload (fst w) timeout_seconds)) w of
        (Inr body, _) \<Rightarrow> (case updates_of body of Inr us \<Rightarrow> us | Inl _ \<Rightarrow> [])
      | (Inl _, _) \<Rightarrow> [])"

lemma tg_post_run:
  "tg_post H m p (t, w) =
     (case hc_post H (url_of t m) p w of
        (Inl e, v) \<Rightarrow> (Inl e, (t, v))
      | (Inr resp, v) \<Rightarrow> (bindr (hc_raise_for_status H resp) (\<lambda>_. hc_json H resp), (t, v)))"
  by (simp add: tg_post_def io_defs split: sum.split prod.split)

lemma tg_post_keeps: "tg_post H m p (t, w) = (r, (t', w')) \<Longrightarrow> t' = t"
  by (auto simp: tg_post_run split: sum.splits prod.splits)

lemma poll_run:
  assumes "poll_responses H now k (t, w) = (Inr rs, (t', w'))"
  obtains ids ps where "mapr update_id (received H k (t, w)) = Inr ids"
    "mapr (parse_callback (tg_chat_id t) now) (received H k (t, w)) = Inr ps"
    "rs = List.map_filter (\<lambda>p. p) ps" "t' = advanced t ids"
proof -
  let ?p = "JObject (poll_payload t k)"
  obtain r u v where post: "tg_post H ''getUpdates'' ?p (t, w) = (r, (u, v))"
    by (metis prod.collapse)
  have u: "u = t" by (rule tg_post_keeps [OF post])
  show thesis
  proof (cases r)
    case (Inl e)
    with post u assms have "rs = []" "t' = t"
      by (auto simp: poll_responses_def swallow_def io_bind_def io_get_def io_catch_def io_ret_def io_raise_def
          split: if_splits)
    moreover have "received H k (t, w) = []" using post Inl by (simp add: received_def)
    ultimately show thesis using that [of "[]" "[]"] by (simp add: map_filter_simps)
  next
    case (Inr body)
    with post u assms have run: "io_bind (io_lift (updates_of body)) (consume now) (t, v) = (Inr rs, (t', w'))"
      by (simp add: poll_responses_def swallow_def io_bind_def [of "io_get _"] io_get_def
          io_bind_def [of "io_catch _ _"] io_catch_def io_bind_def [of "tg_post _ _ _"] io_ret_def)
    then obtain us where us: "updates_of body = Inr us" "consume now us (t, v) = (Inr rs, (t', w'))"
      by (auto simp: io_bind_Inr_iff io_lift_def)
    have "received H k (t, w) = us" using post Inr us(1) by (simp add: received_def)
    with us(2) that show thesis unfolding consume_run by blast
  qed
qed

lemma map_filter_mem: "r \<in> set (List.map_filter (\<lambda>p. p) ps) \<longleftrightarrow> Some r \<in> set ps"
  by (induction ps) (auto simp: map_filter_simps split: option.splits)

section \<open>The update feed\<close>

text \<open>
  Documented behaviour of \<open>getUpdates\<close>: the updates of a reply are in the order of their
  identifiers, and an offset confirms every update below it, so none of those is sent again.
\<close>

definition update_feed :: "('w, 'r) http_client \<Rightarrow> bool" where
  "update_feed H \<longleftrightarrow>
     (\<forall>base ps w resp w' body us.
        hc_post H (base @ ''/getUpdates'') (JObject ps) w = (Inr resp, w') \<longrightarrow>
        hc_json H resp = Inr body \<longrightarrow> updates_of body = Inr us \<longrightarrow>
        (\<exists>ids. mapr update_id us = Inr ids \<and> sorted ids \<and>
           (\<forall>n\<in>set ids. \<forall>i. json_get ps ''offset'' = Some (JNumber i) \<longrightarrow> i \<le> n)))"

lemma offset_sent: "tg_offset t = Some i \<Longrightarrow> json_get (poll_payload t k) ''offset'' = Some (JNumber i)"
  by (simp add: poll_payload_def json_get_def)

lemma received_ids:
  assumes "update_feed H"
  obtains ids where "mapr update_id (received H k (t, w)) = Inr ids" "sorted ids"
    "\<And>n i. n \<in> set ids \<Longrightarrow> tg_offset t = Some i \<Longrightarrow> i \<le> n"
proof -
  let ?p = "poll_payload t k"
  show thesis
  proof (cases "received H k (t, w) = []")
    case True
    then show thesis by (intro that [of "[]"]) simp_all
  next
    case False
    then obtain resp v body where r: "hc_post H (url_of t ''getUpdates'') (JObject ?p) w = (Inr resp, v)"
      "hc_json H resp = Inr body" "updates_of body = Inr (received H k (t, w))"
      by (auto simp: received_def tg_post_run bindr_Inr_iff split: sum.splits prod.splits)
    have "url_of t ''getUpdates'' = (tg_api_root t @ ''/bot'' @ tg_token t) @ ''/getUpdates''"
      by (simp add: url_of_def)
    with r assms obtain ids where "mapr update_id (received H k (t, w)) = Inr ids" "sorted ids"
      "\<forall>n\<in>set ids. \<forall>i. json_get ?p ''offset'' = Some (JNumber i) \<longrightarrow> i \<le> n"
      unfolding update_feed_def by metis
    with offset_sent show thesis by (intro that [of ids]) auto
  qed
qed

inductive poll_step :: "('w, 'r) http_client \<Rightarrow> telegram \<Rightarrow> telegram \<Rightarrow> bool" for H where
  polled: "poll_responses H now k (t, w) = (Inr rs, (t', w')) \<Longrightarrow> poll_step H t t'"

definition passed :: "int \<Rightarrow> telegram \<Rightarrow> bool" where
  "passed n t \<longleftrightarrow> (\<exists>i. tg_offset t = Some i \<and> n < i)"

lemma last_max: "sorted ids \<Longrightarrow> n \<in> set ids \<Longrightarrow> n \<le> last ids" for ids :: "int list"
  by (induction ids) auto

lemma poll_passes:
  assumes "update_feed H" "poll_responses H now k (t, w) = (Inr rs, (t', w'))"
  shows "u \<in> set (received H k (t, w)) \<Longrightarrow> update_id u = Inr n \<Longrightarrow> passed n t'"
    and "passed n t \<Longrightarrow> passed n t'"
proof -
  from received_ids [OF assms(1), of k t w] obtain ids
    where ids: "mapr update_id (received H k (t, w)) = Inr ids" "sorted ids"
      and low: "\<And>n i. n \<in> set ids \<Longrightarrow> tg_offset t = Some i \<Longrightarrow> i \<le> n" by blast
  have t': "t' = advanced t ids"
    using assms(2) by (cases rule: poll_run) (use ids in simp)
  show "passed n t'" if "u \<in> set (received H k (t, w))" "update_id u = Inr n"
  proof -
    have "n \<in> set ids" by (rule mapr_image [OF ids(1) that])
    with last_max [OF ids(2)] show ?thesis unfolding t' passed_def advanced_def by force
  qed
  show "passed n t'" if "passed n t"
  proof (cases "ids = []")
    case False
    with that low [of "last ids"] show ?thesis unfolding t' by (force simp: passed_def advanced_def)
  qed (use that t' in simp)
qed

lemma polls_pass: "(poll_step H)\<^sup>*\<^sup>* t t' \<Longrightarrow> update_feed H \<Longrightarrow> passed n t \<Longrightarrow> passed n t'"
  by (induction rule: rtranclp_induct) (auto elim!: poll_step.cases dest: poll_passes(2))

lemma passed_not_received:
  assumes "update_feed H" "passed n t" "u \<in> set (received H k (t, w))" "update_id u = Inr m"
  shows "n < m"
proof -
  from received_ids [OF assms(1), of k t w] obtain ids
    where ids: "mapr update_id (received H k (t, w)) = Inr ids" "sorted ids"
      and low: "\<And>n i. n \<in> set ids \<Longrightarrow> tg_offset t = Some i \<Longrightarrow> i \<le> n" by blast
  have "m \<in> set ids" by (rule mapr_image [OF ids(1) assms(3,4)])
  with assms(2) show ?thesis by (auto simp: passed_def dest: low)
qed

section \<open>The port\<close>

record 'w notifier =
  nt_notify :: "string \<Rightarrow> (unit, 'w) io"
  nt_request_confirmation :: "confirmation_request \<Rightarrow> (unit, 'w) io"
  nt_poll_responses :: "int \<Rightarrow> (confirmation_response list, 'w) io"

definition telegram_notifier :: "('w, 'r) http_client \<Rightarrow> pydatetime \<Rightarrow> (telegram \<times> 'w) notifier" where
  "telegram_notifier H now =
     \<lparr>nt_notify = notify H, nt_request_confirmation = request_confirmation H,
      nt_poll_responses = poll_responses H now\<rparr>"

text \<open>
  What the port promises its clients: a notification that cannot be delivered does not stop the
  trading, and only a cancellation gets through it.
\<close>

locale notifier_port =
  fixes N :: "'w notifier"
  assumes notify_quiet: "nt_notify N text w = (Inl e, w') \<Longrightarrow> \<not> is_exception e"
begin

lemma goes_on:
  obtains w' where "io_bind (nt_notify N text) (\<lambda>_. m) w = m w'"
  | e w' where "io_bind (nt_notify N text) (\<lambda>_. m) w = (Inl e, w')" "\<not> is_exception e"
  by (rule io_bind_cases [of "nt_notify N text" w "\<lambda>_. m"]) (auto dest: notify_quiet)

end

lemma swallow_quiet: "swallow d m w = (Inl e, w') \<Longrightarrow> \<not> is_exception e"
  by (auto simp: swallow_def io_catch_def io_ret_def io_raise_def split: prod.splits sum.splits if_splits)

interpretation telegram: notifier_port "telegram_notifier H now" for H now
  by unfold_locales (auto simp: telegram_notifier_def notify_def dest: swallow_quiet)

section \<open>Properties\<close>

text \<open>C33: Only the whitelisted account can answer. Every response a poll returns comes from an update
  received by this very poll whose sender is the configured chat, carries the choice and the
  confirmation that the pressed button names, and is stamped with the time of the poll; and every
  such press is answered for.\<close>

theorem responses_come_from_the_chat:
  assumes "poll_responses H (Aware clock off) k (t, w) = (Inr rs, (t', w'))"
  shows "r \<in> set rs \<longleftrightarrow>
    (\<exists>update\<in>set (received H k (t, w)).
      pressed (tg_chat_id t) update (cs_choice r) (cs_confirmation_id r) (cs_responder r) \<and>
      cs_channel r = TELEGRAM \<and> cs_received_at r = Aware (clock - off) 0)"
  using assms
proof (cases rule: poll_run)
  case (1 ids ps)
  have "r \<in> set rs \<longleftrightarrow> (\<exists>u\<in>set (received H k (t, w)).
      parse_callback (tg_chat_id t) (Aware clock off) u = Inr (Some r))"
    using 1(3) mapr_mem [OF 1(2)] mapr_image [OF 1(2)] by (auto simp: map_filter_mem)
  also have "\<dots> \<longleftrightarrow> (\<exists>update\<in>set (received H k (t, w)).
      pressed (tg_chat_id t) update (cs_choice r) (cs_confirmation_id r) (cs_responder r) \<and>
      cs_channel r = TELEGRAM \<and> cs_received_at r = Aware (clock - off) 0)"
    by (cases r) (auto simp: parse_callback_Some astimezone_utc_def)
  finally show ?thesis .
qed

text \<open>C34: No update is handled twice. Once a poll has handled an update, pressed by whomever, no
  update received after any number of further polls has the same or a smaller identifier, provided
  the server confirms updates by their offset as documented.\<close>

theorem no_update_twice:
  assumes "update_feed H" "poll_responses H now k (t, w) = (Inr rs, (t', w'))"
    and "u \<in> set (received H k (t, w))" "update_id u = Inr m"
    and "(poll_step H)\<^sup>*\<^sup>* t' t2" "v \<in> set (received H k' (t2, w2))" "update_id v = Inr n"
  shows "m < n"
  using polls_pass [OF assms(5,1) poll_passes(1) [OF assms(1-4)]] passed_not_received [OF assms(1) _ assms(6,7)]
  by blast

text \<open>A server that keeps the pending updates, as the API documents it.\<close>

definition bot_server :: "((int \<times> (string \<times> json) list) list, json) http_client" where
  "bot_server =
     \<lparr>hc_post = (\<lambda>url payload w.
        (Inr (JObject [(''result'', JArray (map (\<lambda>x. JObject (snd x @ [(''update_id'', JNumber (fst x))]))
           (sort_key fst (filter (\<lambda>x.
              case py_get payload ''offset'' JNull of Inr (JNumber i) \<Rightarrow> i \<le> fst x | _ \<Rightarrow> True) w))))]), w)),
      hc_raise_for_status = (\<lambda>_. Inr ()), hc_json = Inr, hc_aclose = io_ret ()\<rparr>"

lemma bot_server_feeds: "update_feed bot_server"
proof -
  have ids: "mapr update_id (map (\<lambda>x. JObject (snd x @ [(''update_id'', JNumber (fst x))])) xs) = Inr (map fst xs)"
    for xs :: "(int \<times> (string \<times> json) list) list"
    by (induction xs) (simp_all add: update_id_def json_get_def)
  show ?thesis
    unfolding update_feed_def
    by (auto simp: bot_server_def updates_of_def json_get_def ids)
qed

definition press :: "int \<Rightarrow> json \<Rightarrow> (string \<times> json) list" where
  "press sender data =
     [(''callback_query'', JObject [(''id'', JString ''cb''), (''from'', JObject [(''id'', JNumber sender)]),
        (''data'', data)])]"

text \<open>C35: The buttons of a confirmation request survive the way through the server. When the
  configured account presses the first button, the callback is parsed into the response that enters
  this very confirmation; the second one skips it; and pressed by any other account, both are
  ignored.\<close>

theorem button_roundtrip:
  "\<exists>enter_text enter_data skip_text skip_data.
     keyboard r = JObject [(''inline_keyboard'', JArray [JArray
       [JObject [(''text'', enter_text), (''callback_data'', enter_data)],
        JObject [(''text'', skip_text), (''callback_data'', skip_data)]]])] \<and>
     parse_callback chat_id (Aware clock off) (JObject (press sender enter_data)) =
       Inr (if sender = chat_id then
         Some \<lparr>cs_confirmation_id = cr_confirmation_id r, cs_choice = ENTER,
               cs_responder = str_int chat_id, cs_channel = TELEGRAM,
               cs_received_at = Aware (clock - off) 0\<rparr> else None) \<and>
     parse_callback chat_id (Aware clock off) (JObject (press sender skip_data)) =
       Inr (if sender = chat_id then
         Some \<lparr>cs_confirmation_id = cr_confirmation_id r, cs_choice = SKIP,
               cs_responder = str_int chat_id, cs_channel = TELEGRAM,
               cs_received_at = Aware (clock - off) 0\<rparr> else None)"
proof -
  have split: "split_callback_data (JString (callback_prefix c @ '':'' @ str_uuid i)) = Inr (Some c, Some i)" for c i
    using split_callback_data_iff parse_str_uuid by blast
  have "parse_callback chat_id (Aware clock off)
      (JObject (press sender (JString (callback_prefix c @ '':'' @ str_uuid (cr_confirmation_id r))))) =
    Inr (if sender = chat_id then
         Some \<lparr>cs_confirmation_id = cr_confirmation_id r, cs_choice = c,
               cs_responder = str_int chat_id, cs_channel = TELEGRAM,
               cs_received_at = Aware (clock - off) 0\<rparr> else None)" for c
    unfolding parse_callback_def press_def
    by (simp add: json_get_def split [simplified] ConfirmationResponse_def run_model_def astimezone_utc_def)
  from this [of ENTER] this [of SKIP] show ?thesis
    unfolding keyboard_def by simp
qed

text \<open>A press of each kind: by a stranger, by the owner.\<close>

definition sample_updates :: "(int \<times> (string \<times> json) list) list" where
  "sample_updates =
     [(7, press 99 (JString (''enter:'' @ str_uuid 5))), (8, press 42 (JString (''skip:'' @ str_uuid 5)))]"

lemma sample_poll:
  "poll_responses bot_server (Aware 1000 0) 25 (TelegramNotifier ''T'' 42 API_ROOT, sample_updates) =
     (Inr [\<lparr>cs_confirmation_id = 5, cs_choice = SKIP, cs_responder = ''42'', cs_channel = TELEGRAM,
            cs_received_at = Aware 1000 0\<rparr>],
      ((TelegramNotifier ''T'' 42 API_ROOT)\<lparr>tg_offset := Some 9\<rparr>, sample_updates))"
  by (simp add: poll_responses_def swallow_def tg_post_run io_defs bot_server_def sample_updates_def press_def
      TelegramNotifier_def poll_payload_def updates_of_def update_id_def json_get_def parse_callback_def
      split_callback_data_def Let_def CALLBACK_PREFIXES_def ConfirmationResponse_def run_model_def
      astimezone_utc_def str_int_def str_nat.simps hex_digit_def)

lemma sample_received:
  "received bot_server 25 (TelegramNotifier ''T'' 42 API_ROOT, sample_updates) =
     [JObject (press 99 (JString (''enter:'' @ str_uuid 5)) @ [(''update_id'', JNumber 7)]),
      JObject (press 42 (JString (''skip:'' @ str_uuid 5)) @ [(''update_id'', JNumber 8)])]"
  "received bot_server 25 ((TelegramNotifier ''T'' 42 API_ROOT)\<lparr>tg_offset := Some 9\<rparr>,
     sample_updates @ [(9, press 42 JNull)]) = [JObject (press 42 JNull @ [(''update_id'', JNumber 9)])]"
  by (simp_all add: received_def tg_post_run bot_server_def sample_updates_def TelegramNotifier_def
      poll_payload_def updates_of_def json_get_def)

theorem responses_come_from_the_chat_witness:
  "\<exists>update\<in>set (received bot_server 25 (TelegramNotifier ''T'' 42 API_ROOT, sample_updates)).
     pressed 42 update SKIP 5 ''42''"
  using responses_come_from_the_chat [OF sample_poll,
      of "\<lparr>cs_confirmation_id = 5, cs_choice = SKIP, cs_responder = ''42'', cs_channel = TELEGRAM,
            cs_received_at = Aware 1000 0\<rparr>"]
  by (simp add: TelegramNotifier_def)

theorem no_update_twice_witness: "(8::int) < 9"
proof (rule no_update_twice [OF bot_server_feeds sample_poll])
  show "JObject (press 42 (JString (''skip:'' @ str_uuid 5)) @ [(''update_id'', JNumber 8)])
      \<in> set (received bot_server 25 (TelegramNotifier ''T'' 42 API_ROOT, sample_updates))"
    unfolding sample_received by simp
  show "JObject (press 42 JNull @ [(''update_id'', JNumber 9)])
      \<in> set (received bot_server 25 ((TelegramNotifier ''T'' 42 API_ROOT)\<lparr>tg_offset := Some 9\<rparr>,
          sample_updates @ [(9, press 42 JNull)]))"
    unfolding sample_received by simp
qed (simp_all add: update_id_def json_get_def)

end
