(* ===== verification/Console_Data.thy ===== *)
theory Console_Data
  imports Approval_Policy Py_Text
begin

text \<open>
  \<open>api/console/store.py\<close>, \<open>api/console/schemas.py\<close> and \<open>api/console/fixtures.py\<close>: the state of the
  operations console and the screens built from it. The payloads keep identifiers, codes, levels,
  amounts and flags. Left out are what is only displayed: the Korean names, labels and messages (the
  few that are stored are given in English), the clock texts, and the tables no decision depends on
  (fills, positions, chart points, the audit rows). An amount that cannot be quantised raises.
\<close>

section \<open>The store\<close>

record console_store =
  sto_approval_decisions :: "(string \<times> approval_status) list"
  sto_approval_reasons :: "(string \<times> string) list"
  sto_approval_rechecked :: "string set"
  sto_stopped_accounts :: "string set"
  sto_resumed_nodes :: "string set"
  sto_paused_sources :: "string set"
  sto_paused_strategies :: "string set"
  sto_rechecked_orders :: "string set"
  sto_risk_limits :: "(string \<times> string) list"
  sto_emergency_stop :: bool
  sto_emergency_stopped_at :: "string option"
  sto_cancel_progress_done :: nat
  sto_liquidation_running :: bool
  sto_toss_test_attempts :: nat

definition ConsoleStore :: console_store where
  "ConsoleStore =
     \<lparr>sto_approval_decisions = [], sto_approval_reasons = [], sto_approval_rechecked = {},
      sto_stopped_accounts = {}, sto_resumed_nodes = {}, sto_paused_sources = {},
      sto_paused_strategies = {}, sto_rechecked_orders = {}, sto_risk_limits = [],
      sto_emergency_stop = False, sto_emergency_stopped_at = None, sto_cancel_progress_done = 0,
      sto_liquidation_running = False, sto_toss_test_attempts = 0\<rparr>"

definition reset_store :: "console_store \<Rightarrow> console_store" where
  "reset_store s =
     s\<lparr>sto_approval_decisions := [], sto_approval_reasons := [], sto_approval_rechecked := {},
       sto_stopped_accounts := {}, sto_resumed_nodes := {}, sto_paused_sources := {},
       sto_paused_strategies := {}, sto_rechecked_orders := {}, sto_risk_limits := [],
       sto_emergency_stop := False, sto_emergency_stopped_at := None, sto_cancel_progress_done := 0,
       sto_liquidation_running := False, sto_toss_test_attempts := 0\<rparr>"

definition STATES :: "string list" where
  "STATES = [''normal'', ''loading'', ''empty'', ''partial'', ''forbidden'', ''server-error'',
     ''market-data-stale'', ''rate-limited'', ''toss-auth-expired'', ''mt5-offline'',
     ''strategy-error'', ''emergency-stop'', ''position-mismatch'']"

definition normalise_state :: "string option \<Rightarrow> string" where
  "normalise_state v = (case v of None \<Rightarrow> ''normal'' | Some s \<Rightarrow> if s \<notin> set STATES then ''normal'' else s)"

section \<open>Accounts and nodes\<close>

datatype health_level = LevelOk | LevelWarning | LevelActionRequired | LevelStopped

datatype broker = TOSS | MT5

datatype market_code = KR | US | FX

definition ACCOUNT_KR :: string where "ACCOUNT_KR = ''acc-toss-kr''"
definition ACCOUNT_US :: string where "ACCOUNT_US = ''acc-toss-us''"
definition ACCOUNT_FX :: string where "ACCOUNT_FX = ''acc-mt5-fx''"

record account_summary =
  acs_account_id :: string
  acs_broker :: broker
  acs_market :: market_code
  acs_currency :: string
  acs_status :: health_level
  acs_net_asset :: dec
  acs_daily_pnl :: dec
  acs_daily_pnl_rate :: dec
  acs_order_stopped :: bool

definition ACCOUNT_BASE :: "(string \<times> broker \<times> market_code \<times> string \<times> dec \<times> dec \<times> dec) list" where
  "ACCOUNT_BASE =
     [(ACCOUNT_KR, TOSS, KR, ''KRW'', Dec 124500000 0, Dec 1542000 0, Dec 124 (- 4)),
      (ACCOUNT_US, TOSS, US, ''USD'', Dec 8921330 (- 2), Dec (- 73120) (- 2), Dec (- 82) (- 4)),
      (ACCOUNT_FX, MT5, FX, ''USD'', Dec 1248055 (- 2), Dec 6410 (- 2), Dec 52 (- 4))]"

definition build_account ::
  "console_store \<Rightarrow> string \<Rightarrow> string \<times> broker \<times> market_code \<times> string \<times> dec \<times> dec \<times> dec \<Rightarrow> account_summary" where
  "build_account store state row =
     (case row of (account_id, broker, market, currency, net, pnl, rate) \<Rightarrow>
        let stopped = account_id \<in> sto_stopped_accounts store \<or> sto_emergency_stop store;
            outcome =
              (if state = ''toss-auth-expired'' \<and> broker = TOSS then (LevelActionRequired, True)
               else if state = ''mt5-offline'' \<and> broker = MT5 then (LevelStopped, True)
               else if state = ''market-data-stale'' then (LevelWarning, stopped)
               else if sto_emergency_stop store \<or> state = ''emergency-stop'' then (LevelStopped, stopped)
               else if stopped then (LevelStopped, stopped)
               else (LevelOk, stopped))
        in \<lparr>acs_account_id = account_id, acs_broker = broker, acs_market = market,
            acs_currency = currency, acs_status = fst outcome, acs_net_asset = net,
            acs_daily_pnl = pnl, acs_daily_pnl_rate = rate, acs_order_stopped = snd outcome\<rparr>)"

definition build_accounts :: "console_store \<Rightarrow> string \<Rightarrow> account_summary list" where
  "build_accounts store state = map (build_account store state) ACCOUNT_BASE"

datatype auto_trading = RUNNING | STOPPED_BY_OFFLINE | PAUSED_BY_USER | SHADOW

record node_health =
  nh_node_id :: string
  nh_status :: health_level
  nh_auto_trading :: auto_trading

definition build_nodes :: "console_store \<Rightarrow> string \<Rightarrow> node_health list" where
  "build_nodes store state =
     (let offline = (state = ''mt5-offline'');
          resumed = ''node-seoul-01'' \<in> sto_resumed_nodes store;
          primary = (if offline \<and> resumed then LevelWarning
                     else if offline \<and> \<not> resumed then LevelStopped else LevelOk);
          auto = (if sto_emergency_stop store \<or> state = ''emergency-stop'' then PAUSED_BY_USER
                  else if offline \<and> \<not> resumed then STOPPED_BY_OFFLINE else RUNNING)
      in [\<lparr>nh_node_id = ''node-seoul-01'', nh_status = primary, nh_auto_trading = auto\<rparr>,
          \<lparr>nh_node_id = ''node-home-02'', nh_status = LevelWarning, nh_auto_trading = SHADOW\<rparr>])"

section \<open>Approvals\<close>

record raw_approval =
  ra_approval_id :: string
  ra_source_type :: source_type
  ra_account_id :: string
  ra_market :: market_code
  ra_symbol :: string
  ra_side :: order_side
  ra_quantity :: dec
  ra_current_price :: dec
  ra_signal_price :: dec
  ra_currency :: string
  ra_expires :: int
  ra_mode :: approval_mode
  ra_current_qty :: dec
  ra_target_qty :: dec
  ra_fee :: dec

definition APPROVAL_BASE :: "raw_approval list" where
  "APPROVAL_BASE =
     [\<lparr>ra_approval_id = ''apv-13f-brkb'', ra_source_type = FORM_13F, ra_account_id = ACCOUNT_US,
       ra_market = US, ra_symbol = ''BRK.B'', ra_side = BUY, ra_quantity = Dec 12 0,
       ra_current_price = Dec 45102 (- 2), ra_signal_price = Dec 44810 (- 2), ra_currency = ''USD'',
       ra_expires = 84, ra_mode = MANUAL, ra_current_qty = Dec 0 0, ra_target_qty = Dec 12 0,
       ra_fee = Dec 541 (- 2)\<rparr>,
      \<lparr>ra_approval_id = ''apv-leader-005930'', ra_source_type = LEADER, ra_account_id = ACCOUNT_KR,
       ra_market = KR, ra_symbol = ''005930'', ra_side = BUY, ra_quantity = Dec 30 0,
       ra_current_price = Dec 81100 0, ra_signal_price = Dec 80950 0, ra_currency = ''KRW'',
       ra_expires = 252, ra_mode = CONDITIONAL, ra_current_qty = Dec 120 0,
       ra_target_qty = Dec 150 0, ra_fee = Dec 3410 0\<rparr>,
      \<lparr>ra_approval_id = ''apv-ext-msft'', ra_source_type = EXTERNAL, ra_account_id = ACCOUNT_US,
       ra_market = US, ra_symbol = ''MSFT'', ra_side = SELL, ra_quantity = Dec 8 0,
       ra_current_price = Dec 46302 (- 2), ra_signal_price = Dec 46540 (- 2), ra_currency = ''USD'',
       ra_expires = 598, ra_mode = MANUAL, ra_current_qty = Dec 26 0, ra_target_qty = Dec 18 0,
       ra_fee = Dec 370 (- 2)\<rparr>]"

record approval_summary =
  as_approval_id :: string
  as_source_type :: source_type
  as_account_id :: string
  as_market :: market_code
  as_symbol :: string
  as_side :: order_side
  as_quantity :: dec
  as_notional :: dec
  as_currency :: string
  as_current_price :: dec
  as_signal_price :: dec
  as_expires_in_seconds :: int
  as_expires_label :: string
  as_status :: approval_status
  as_approval_mode :: approval_mode
  as_risk_passed :: bool

definition expires_label :: "int \<Rightarrow> string" where
  "expires_label seconds = pad2 (seconds div 60) @ '':'' @ pad2 (seconds mod 60)"

definition approval_summary_of :: "console_store \<Rightarrow> raw_approval \<Rightarrow> approval_summary result" where
  "approval_summary_of store raw =
     (let approval_id = ra_approval_id raw;
          price = (if approval_id \<in> sto_approval_rechecked store \<and> approval_id = ''apv-13f-brkb''
                   then Dec 45388 (- 2) else ra_current_price raw)
      in bindr (quantize (- 2) (price * ra_quantity raw)) (\<lambda>notional.
         Inr \<lparr>as_approval_id = approval_id, as_source_type = ra_source_type raw,
              as_account_id = ra_account_id raw, as_market = ra_market raw, as_symbol = ra_symbol raw,
              as_side = ra_side raw, as_quantity = ra_quantity raw, as_notional = notional,
              as_currency = ra_currency raw, as_current_price = price,
              as_signal_price = ra_signal_price raw, as_expires_in_seconds = ra_expires raw,
              as_expires_label = expires_label (ra_expires raw),
              as_status = (case dict_get (sto_approval_decisions store) approval_id of
                             Some st \<Rightarrow> st | None \<Rightarrow> Pending),
              as_approval_mode = ra_mode raw, as_risk_passed = (approval_id \<noteq> ''apv-ext-msft'')\<rparr>))"

definition build_approvals :: "console_store \<Rightarrow> string \<Rightarrow> approval_summary list result" where
  "build_approvals store state =
     (if state = ''empty'' \<or> state = ''loading'' then Inr []
      else bindr (mapr (approval_summary_of store) APPROVAL_BASE)
             (\<lambda>rows. Inr (sort_key as_expires_in_seconds rows)))"

record risk_check =
  rk_metric :: risk_metric
  rk_scope :: risk_scope
  rk_actual :: dec
  rk_limit :: dec
  rk_usage_percent :: dec
  rk_passed :: bool

definition risk_checks :: "string \<Rightarrow> risk_check list" where
  "risk_checks approval_id =
     (let tight = (approval_id = ''apv-ext-msft'')
      in [\<lparr>rk_metric = ORDER_NOTIONAL, rk_scope = ACCOUNT, rk_actual = Dec 541224 (- 2),
           rk_limit = Dec 10000 0, rk_usage_percent = Dec 541 (- 1), rk_passed = True\<rparr>,
          \<lparr>rk_metric = ACCOUNT_CAPITAL, rk_scope = ACCOUNT, rk_actual = Dec 8921330 (- 2),
           rk_limit = Dec 120000 0, rk_usage_percent = Dec 743 (- 1), rk_passed = True\<rparr>,
          \<lparr>rk_metric = SYMBOL_WEIGHT, rk_scope = SYMBOL,
           rk_actual = (if tight then Dec 184 (- 3) else Dec 61 (- 3)), rk_limit = Dec 200 (- 3),
           rk_usage_percent = (if tight then Dec 920 (- 1) else Dec 305 (- 1)), rk_passed = (\<not> tight)\<rparr>,
          \<lparr>rk_metric = DAILY_LOSS, rk_scope = USER, rk_actual = Dec 82 (- 4), rk_limit = Dec 300 (- 4),
           rk_usage_percent = Dec 273 (- 1), rk_passed = True\<rparr>,
          \<lparr>rk_metric = MAX_DRAWDOWN, rk_scope = SYSTEM, rk_actual = Dec 420 (- 4), rk_limit = Dec 1000 (- 4),
           rk_usage_percent = Dec 420 (- 1), rk_passed = True\<rparr>])"

definition find_approval :: "string \<Rightarrow> raw_approval option" where
  "find_approval approval_id = List.find (\<lambda>raw. ra_approval_id raw = approval_id) APPROVAL_BASE"

record approval_detail =
  adt_summary :: approval_summary
  adt_current_quantity :: dec
  adt_target_quantity :: dec
  adt_estimated_fee :: dec
  adt_risk_checks :: "risk_check list"
  adt_notices :: "string list"
  adt_decided_reason :: "string option"

definition build_approval_detail ::
  "string \<Rightarrow> console_store \<Rightarrow> string \<Rightarrow> approval_detail option result" where
  "build_approval_detail approval_id store state =
     (case find_approval approval_id of
        None \<Rightarrow> Inr None
      | Some raw \<Rightarrow>
          bindr (approval_summary_of store raw) (\<lambda>summary.
            if state = ''forbidden'' then Inr None
            else Inr (Some
              \<lparr>adt_summary = summary, adt_current_quantity = ra_current_qty raw,
               adt_target_quantity = ra_target_qty raw, adt_estimated_fee = ra_fee raw,
               adt_risk_checks = risk_checks approval_id,
               adt_notices =
                 (if ra_source_type raw = FORM_13F then [''n-13f-delay''] else []) @
                 (if \<not> as_risk_passed summary then [''n-risk-tight''] else []) @
                 (if approval_id \<in> sto_approval_rechecked store \<and> approval_id = ''apv-13f-brkb''
                  then [''n-recheck''] else []),
               adt_decided_reason = dict_get (sto_approval_reasons store) approval_id\<rparr>)))"

record recheck_result =
  rr_approval_id :: string
  rr_changed :: bool
  rr_before_price :: dec
  rr_after_price :: dec
  rr_before_notional :: dec
  rr_after_notional :: dec

definition recheck_approval :: "string \<Rightarrow> (recheck_result option, console_store) io" where
  "recheck_approval approval_id =
     (case find_approval approval_id of
        None \<Rightarrow> io_ret None
      | Some raw \<Rightarrow>
          let before = ra_current_price raw; changed = (approval_id = ''apv-13f-brkb'');
              after = (if changed then Dec 45388 (- 2) else before)
          in io_bind
               (io_do (\<lambda>s. s\<lparr>sto_approval_rechecked := insert approval_id (sto_approval_rechecked s)\<rparr>)) (\<lambda>_.
             io_bind (io_lift (quantize (- 2) (before * ra_quantity raw))) (\<lambda>before_notional.
             io_bind (io_lift (quantize (- 2) (after * ra_quantity raw))) (\<lambda>after_notional.
             io_ret (Some
               \<lparr>rr_approval_id = approval_id, rr_changed = changed, rr_before_price = before,
                rr_after_price = after, rr_before_notional = before_notional,
                rr_after_notional = after_notional\<rparr>)))))"

record decision_result =
  dr_approval_id :: string
  dr_status :: approval_status
  dr_reason :: string
  dr_order_id :: "string option"

text \<open>\<open>BASE_NOW\<close>, 14:32:08 in Korea on the 18th of August 2026.\<close>

definition BASE_NOW :: pydatetime where
  "BASE_NOW = Aware 1787063528000000 32400000000"

definition record_decision :: "string \<Rightarrow> approval_status \<Rightarrow> string \<Rightarrow> console_store \<Rightarrow> console_store" where
  "record_decision approval_id st reason s =
     s\<lparr>sto_approval_decisions := dict_set approval_id st (sto_approval_decisions s),
       sto_approval_reasons := dict_set approval_id reason (sto_approval_reasons s)\<rparr>"

text \<open>The policy draws the identifier of its decision at random; the console does not use it.\<close>

definition decide_approval :: "uuid \<Rightarrow> string \<Rightarrow> bool \<Rightarrow> (decision_result option, console_store) io" where
  "decide_approval fresh approval_id approve =
     (case find_approval approval_id of
        None \<Rightarrow> io_ret None
      | Some raw \<Rightarrow>
          io_bind (io_lift (quantize (- 2) (ra_current_price raw * ra_quantity raw))) (\<lambda>notional.
          io_bind
            (io_lift (ApprovalPolicyConfig
               \<lparr>ap_mode = ra_mode raw,
                ap_auto_notional_limit = (if ra_mode raw = CONDITIONAL then Some (Dec 2000000 0) else None)\<rparr>)) (\<lambda>config.
          io_bind
            (io_lift (decide fresh config (VDec (Finite notional)) BASE_NOW
               (Aware (1787063528000000 + ra_expires raw * 1000000) 32400000000))) (\<lambda>policy.
          if ad_status policy = Expired then
            io_bind (io_do (record_decision approval_id Expired ''the signal has expired and cannot be approved'')) (\<lambda>_.
            io_ret (Some \<lparr>dr_approval_id = approval_id, dr_status = Expired, dr_reason = ad_reason policy,
                          dr_order_id = None\<rparr>))
          else if \<not> approve then
            io_bind (io_do (record_decision approval_id Rejected ''rejected by the operator'')) (\<lambda>_.
            io_ret (Some \<lparr>dr_approval_id = approval_id, dr_status = Rejected,
                          dr_reason = ''operator rejected'', dr_order_id = None\<rparr>))
          else
            io_bind (io_do (record_decision approval_id Approved
              (if ad_status policy = Approved then ''within the automatic limit'' else ''approved by the operator''))) (\<lambda>_.
            io_ret (Some \<lparr>dr_approval_id = approval_id, dr_status = Approved, dr_reason = ad_reason policy,
                          dr_order_id = Some ''ord-plan-0912''\<rparr>))))))"

end
