(* ===== verification/Console_Screens.thy ===== *)
theory Console_Screens
  imports Console_Data
begin

text \<open>
  The other half of \<open>api/console/fixtures.py\<close>: orders and their timelines, strategies and copy
  sources, the risk rules with the limits an operator has changed, the connections, the emergency
  controls and the session header. As in \<open>Console_Data\<close>, only what is displayed is left out.
\<close>

section \<open>Orders\<close>

record raw_order =
  ro_order_id :: string
  ro_account_id :: string
  ro_source_type :: source_type
  ro_market :: market_code
  ro_symbol :: string
  ro_side :: order_side
  ro_quantity :: dec
  ro_filled :: dec
  ro_average_price :: "dec option"
  ro_currency :: string
  ro_state :: order_state
  ro_broker_request_id :: string

definition ORDER_BASE :: "raw_order list" where
  "ORDER_BASE =
     [\<lparr>ro_order_id = ''ord-0871'', ro_account_id = ACCOUNT_US, ro_source_type = FORM_13F,
       ro_market = US, ro_symbol = ''AAPL'', ro_side = BUY, ro_quantity = Dec 5 0, ro_filled = Dec 3 0,
       ro_average_price = Some (Dec 22486 (- 2)), ro_currency = ''USD'', ro_state = PARTIALLY_FILLED,
       ro_broker_request_id = ''TSS-20260818-000871''\<rparr>,
      \<lparr>ro_order_id = ''ord-0864'', ro_account_id = ACCOUNT_US, ro_source_type = EXTERNAL,
       ro_market = US, ro_symbol = ''AAPL'', ro_side = BUY, ro_quantity = Dec 4 0, ro_filled = Dec 0 0,
       ro_average_price = None, ro_currency = ''USD'', ro_state = UNKNOWN,
       ro_broker_request_id = ''TSS-20260818-000864''\<rparr>,
      \<lparr>ro_order_id = ''ord-0852'', ro_account_id = ACCOUNT_KR, ro_source_type = LEADER,
       ro_market = KR, ro_symbol = ''005930'', ro_side = BUY, ro_quantity = Dec 30 0, ro_filled = Dec 30 0,
       ro_average_price = Some (Dec 81100 0), ro_currency = ''KRW'', ro_state = FILLED,
       ro_broker_request_id = ''TSS-20260818-000852''\<rparr>,
      \<lparr>ro_order_id = ''ord-0846'', ro_account_id = ACCOUNT_KR, ro_source_type = STRATEGY,
       ro_market = KR, ro_symbol = ''000660'', ro_side = SELL, ro_quantity = Dec 12 0, ro_filled = Dec 0 0,
       ro_average_price = None, ro_currency = ''KRW'', ro_state = REJECTED,
       ro_broker_request_id = ''TSS-20260818-000846''\<rparr>,
      \<lparr>ro_order_id = ''ord-0839'', ro_account_id = ACCOUNT_FX, ro_source_type = STRATEGY,
       ro_market = FX, ro_symbol = ''USDJPY'', ro_side = BUY, ro_quantity = Dec 10 (- 2),
       ro_filled = Dec 10 (- 2), ro_average_price = Some (Dec 154284 (- 3)), ro_currency = ''USD'',
       ro_state = FILLED, ro_broker_request_id = ''MT5-20260818-004417''\<rparr>]"

datatype step_state = DONE | CURRENT | PENDING | BRANCH

definition timeline_for :: "order_state \<Rightarrow> (string \<times> step_state) list" where
  "timeline_for state =
     [(''created'', DONE), (''approved'', DONE), (''queued'', DONE), (''submitted'', DONE)] @
     (if state = UNKNOWN then [(''unknown'', BRANCH)]
      else if state = REJECTED then [(''rejected'', BRANCH)]
      else [(''partial'', if state = PARTIALLY_FILLED then CURRENT else DONE),
            (''filled'', if state = FILLED then DONE else PENDING)])"

record order_detail =
  od_row :: raw_order
  od_timeline :: "(string \<times> step_state) list"
  od_risk_checks :: "risk_check list"
  od_approved :: bool
  od_can_recheck_broker :: bool
  od_guidance :: "string option"
  od_rechecked :: bool

definition build_order_detail :: "string \<Rightarrow> console_store \<Rightarrow> order_detail option" where
  "build_order_detail order_id store =
     (case List.find (\<lambda>item. ro_order_id item = order_id) ORDER_BASE of
        None \<Rightarrow> None
      | Some raw \<Rightarrow>
          Some \<lparr>od_row = raw, od_timeline = timeline_for (ro_state raw), od_risk_checks = risk_checks ''ord'',
                od_approved = (ro_source_type raw \<noteq> STRATEGY),
                od_can_recheck_broker = (ro_state raw = UNKNOWN),
                od_guidance = (if ro_state raw = UNKNOWN then Some ''n-order-unknown''
                               else if ro_state raw = REJECTED then Some ''n-order-rejected'' else None),
                od_rechecked = (order_id \<in> sto_rechecked_orders store)\<rparr>)"

record orders_payload =
  op_orders :: "raw_order list"
  op_reconciliation :: "string list"
  op_notices :: "string list"

definition build_orders :: "console_store \<Rightarrow> string \<Rightarrow> orders_payload" where
  "build_orders store state =
     (if state = ''empty'' \<or> state = ''loading'' then \<lparr>op_orders = [], op_reconciliation = [], op_notices = []\<rparr>
      else \<lparr>op_orders = ORDER_BASE, op_reconciliation = [''rec-0029'', ''rec-0031''],
            op_notices = [''n-unknown''] @
              (if state = ''rate-limited'' then [''n-ratelimit''] else []) @
              (if state = ''market-data-stale'' then [''n-stale''] else [])\<rparr>)"

section \<open>Strategies and copy sources\<close>

record strategy_row =
  sr_strategy_id :: string
  sr_status :: health_level
  sr_error_count_10d :: nat
  sr_paused :: bool

definition build_strategies :: "console_store \<Rightarrow> string \<Rightarrow> strategy_row list" where
  "build_strategies store state =
     (if state = ''empty'' \<or> state = ''loading'' then []
      else let error_state = (state = ''strategy-error'')
           in [\<lparr>sr_strategy_id = ''str-usdjpy-trend'', sr_status = LevelOk, sr_error_count_10d = 0,
                sr_paused = (''str-usdjpy-trend'' \<in> sto_paused_strategies store)\<rparr>,
               \<lparr>sr_strategy_id = ''str-spx-vol'',
                sr_status = (if error_state then LevelActionRequired else LevelWarning),
                sr_error_count_10d = (if error_state then 7 else 2),
                sr_paused = (error_state \<or> ''str-spx-vol'' \<in> sto_paused_strategies store)\<rparr>])"

record copy_source_row =
  csr_source_id :: string
  csr_source_type :: source_type
  csr_status :: health_level
  csr_target_weight :: dec
  csr_approval_mode :: approval_mode
  csr_drift :: dec
  csr_paused :: bool

definition build_copy_sources :: "console_store \<Rightarrow> string \<Rightarrow> copy_source_row list" where
  "build_copy_sources store state =
     (if state = ''empty'' \<or> state = ''loading'' then []
      else [\<lparr>csr_source_id = ''cp-leader-a'', csr_source_type = LEADER, csr_status = LevelOk,
             csr_target_weight = Dec 35 (- 2), csr_approval_mode = CONDITIONAL, csr_drift = Dec 24 (- 3),
             csr_paused = (''cp-leader-a'' \<in> sto_paused_sources store)\<rparr>,
            \<lparr>csr_source_id = ''cp-ext-demo'', csr_source_type = EXTERNAL, csr_status = LevelWarning,
             csr_target_weight = Dec 20 (- 2), csr_approval_mode = MANUAL, csr_drift = Dec 8 (- 3),
             csr_paused = (''cp-ext-demo'' \<in> sto_paused_sources store)\<rparr>,
            \<lparr>csr_source_id = ''cp-13f-brk'', csr_source_type = FORM_13F, csr_status = LevelWarning,
             csr_target_weight = Dec 30 (- 2), csr_approval_mode = MANUAL, csr_drift = Dec 51 (- 3),
             csr_paused = (''cp-13f-brk'' \<in> sto_paused_sources store)\<rparr>,
            \<lparr>csr_source_id = ''cp-13f-psq'', csr_source_type = FORM_13F, csr_status = LevelWarning,
             csr_target_weight = Dec 15 (- 2), csr_approval_mode = MANUAL, csr_drift = Dec 12 (- 3),
             csr_paused = (''cp-13f-psq'' \<in> sto_paused_sources store)\<rparr>])"

section \<open>Risk rules\<close>

record raw_rule =
  rb_rule_id :: string
  rb_metric :: risk_metric
  rb_scope :: risk_scope
  rb_actual :: dec
  rb_limit :: string
  rb_usage :: dec

definition RISK_BASE :: "raw_rule list" where
  "RISK_BASE =
     [\<lparr>rb_rule_id = ''risk-order-notional'', rb_metric = ORDER_NOTIONAL, rb_scope = ACCOUNT,
       rb_actual = Dec 5412000 0, rb_limit = ''10000000'', rb_usage = Dec 541 (- 1)\<rparr>,
      \<lparr>rb_rule_id = ''risk-account-capital'', rb_metric = ACCOUNT_CAPITAL, rb_scope = ACCOUNT,
       rb_actual = Dec 124500000 0, rb_limit = ''150000000'', rb_usage = Dec 830 (- 1)\<rparr>,
      \<lparr>rb_rule_id = ''risk-symbol-weight'', rb_metric = SYMBOL_WEIGHT, rb_scope = SYMBOL,
       rb_actual = Dec 184 (- 3), rb_limit = ''0.200'', rb_usage = Dec 920 (- 1)\<rparr>,
      \<lparr>rb_rule_id = ''risk-daily-loss'', rb_metric = DAILY_LOSS, rb_scope = USER,
       rb_actual = Dec 82 (- 4), rb_limit = ''0.0300'', rb_usage = Dec 273 (- 1)\<rparr>,
      \<lparr>rb_rule_id = ''risk-max-drawdown'', rb_metric = MAX_DRAWDOWN, rb_scope = SYSTEM,
       rb_actual = Dec 420 (- 4), rb_limit = ''0.1000'', rb_usage = Dec 420 (- 1)\<rparr>]"

definition risk_status :: "dec \<Rightarrow> health_level" where
  "risk_status usage =
     (if dint 90 \<le> usage then LevelActionRequired
      else if dint 70 \<le> usage then LevelWarning else LevelOk)"

record risk_rule_row =
  rl_rule_id :: string
  rl_metric :: risk_metric
  rl_scope :: risk_scope
  rl_actual :: dec
  rl_limit :: dec
  rl_usage_percent :: dec
  rl_status :: health_level

text \<open>
  A limit an operator has stored is text. One that is not finite gives no usable row: a NaN cannot be
  compared, and the response model refuses an infinity.
\<close>

definition risk_row :: "console_store \<Rightarrow> raw_rule \<Rightarrow> risk_rule_row result" where
  "risk_row store raw =
     (let effective = (case dict_get (sto_risk_limits store) (rb_rule_id raw) of Some l \<Rightarrow> l | None \<Rightarrow> rb_limit raw)
      in case parse_decimal effective of
           None \<Rightarrow> Inl DecimalException
         | Some NotANumber \<Rightarrow> Inl DecimalException
         | Some (Infinite _) \<Rightarrow> Inl (ValidationError [''limit''])
         | Some (Finite limit) \<Rightarrow>
             bindr
               (if effective \<noteq> rb_limit raw \<and> 0 < limit then
                  bindr (ddiv (rb_actual raw) limit) (\<lambda>q. quantize (- 1) (q * dint 100))
                else Inr (rb_usage raw)) (\<lambda>usage.
             Inr \<lparr>rl_rule_id = rb_rule_id raw, rl_metric = rb_metric raw, rl_scope = rb_scope raw,
                  rl_actual = rb_actual raw, rl_limit = limit, rl_usage_percent = usage,
                  rl_status = risk_status usage\<rparr>))"

definition build_risk :: "console_store \<Rightarrow> string \<Rightarrow> risk_rule_row list result" where
  "build_risk store state =
     (if state = ''empty'' \<or> state = ''loading'' then Inr [] else mapr (risk_row store) RISK_BASE)"

section \<open>Connections\<close>

record toss_account_row =
  ta_account_id :: string
  ta_status :: health_level
  ta_order_stopped :: bool

record connections_payload =
  cn_toss_accounts :: "toss_account_row list"
  cn_mt5_nodes :: "node_health list"
  cn_mt5_checks :: "(string \<times> bool) list"
  cn_notices :: "string list"

definition build_connections :: "console_store \<Rightarrow> string \<Rightarrow> connections_payload" where
  "build_connections store state =
     (if state = ''empty'' \<or> state = ''loading'' then
        \<lparr>cn_toss_accounts = [], cn_mt5_nodes = [], cn_mt5_checks = [], cn_notices = [''n-empty-conn'']\<rparr>
      else
        let auth_expired = (state = ''toss-auth-expired'');
            row = (\<lambda>account. \<lparr>ta_account_id = account,
                     ta_status = (if auth_expired then LevelActionRequired else LevelOk),
                     ta_order_stopped = (account \<in> sto_stopped_accounts store \<or> auth_expired)\<rparr>)
        in \<lparr>cn_toss_accounts = [row ACCOUNT_KR, row ACCOUNT_US],
            cn_mt5_nodes = build_nodes store state,
            cn_mt5_checks =
              [(''service'', state \<noteq> ''mt5-offline''), (''terminal'', True), (''login'', True),
               (''market-data'', state \<notin> {''mt5-offline'', ''market-data-stale''}),
               (''trade'', state \<noteq> ''mt5-offline'')],
            cn_notices =
              (if auth_expired then [''n-toss-auth''] else []) @
              (if state = ''mt5-offline'' \<and> ''node-seoul-01'' \<notin> sto_resumed_nodes store
               then [''n-mt5-offline''] else [])\<rparr>)"

record connection_test_result =
  ct_passed :: bool
  ct_code :: string
  ct_checks :: "(string \<times> bool) list"

definition toss_failures :: "string list" where
  "toss_failures = [''auth'', ''no-account'', ''terms'', ''rate-limit'']"

definition test_toss_connection :: "string option \<Rightarrow> (connection_test_result, console_store) io" where
  "test_toss_connection scenario =
     io_bind (io_do (\<lambda>s. s\<lparr>sto_toss_test_attempts := sto_toss_test_attempts s + 1\<rparr>)) (\<lambda>_.
     io_ret (case scenario of
       Some sc \<Rightarrow>
         if sc \<in> set toss_failures then
           \<lparr>ct_passed = False, ct_code = upper sc,
            ct_checks = [(''scope'', sc \<notin> {''auth'', ''terms''}), (''accounts'', sc \<noteq> ''no-account''),
                         (''quotes'', True), (''orderable'', sc \<noteq> ''rate-limit'')]\<rparr>
         else \<lparr>ct_passed = True, ct_code = ''OK'',
               ct_checks = map (\<lambda>k. (k, True)) [''scope'', ''accounts'', ''quotes'', ''orderable'']\<rparr>
     | None \<Rightarrow> \<lparr>ct_passed = True, ct_code = ''OK'',
               ct_checks = map (\<lambda>k. (k, True)) [''scope'', ''accounts'', ''quotes'', ''orderable'']\<rparr>))"

section \<open>Controls\<close>

definition AS_OF :: string where
  "AS_OF = ''2026.08.18 14:32:08 KST''"

text \<open>The Korean phrase \<open>"jeonryang cheongsan hwagin"\<close> in UTF-8.\<close>

definition CONFIRM_PHRASE :: string where
  "CONFIRM_PHRASE =
     [CHR 0xEC, CHR 0xA0, CHR 0x84, CHR 0xEB, CHR 0x9F, CHR 0x89, CHR '' '',
      CHR 0xEC, CHR 0xB2, CHR 0xAD, CHR 0xEC, CHR 0x82, CHR 0xB0, CHR '' '',
      CHR 0xED, CHR 0x99, CHR 0x95, CHR 0xEC, CHR 0x9D, CHR 0xB8]"

record action_result =
  ac_ok :: bool
  ac_code :: string

record controls_payload =
  ctl_emergency_stop :: bool
  ctl_stopped_at :: "string option"
  ctl_cancel_progress_done :: nat
  ctl_cancel_progress_total :: nat
  ctl_liquidation_running :: bool
  ctl_liquidation_results :: "string list"

definition build_controls :: "console_store \<Rightarrow> string \<Rightarrow> controls_payload" where
  "build_controls store state =
     (let active = (sto_emergency_stop store \<or> state = ''emergency-stop'')
      in \<lparr>ctl_emergency_stop = active,
          ctl_stopped_at = (case sto_emergency_stopped_at store of
                              Some t \<Rightarrow> Some t
                            | None \<Rightarrow> if active then Some AS_OF else None),
          ctl_cancel_progress_done = (if sto_emergency_stop store then sto_cancel_progress_done store
                                      else if active then 4 else 0),
          ctl_cancel_progress_total = 4, ctl_liquidation_running = sto_liquidation_running store,
          ctl_liquidation_results =
            (if sto_liquidation_running store then [''liq-0001'', ''liq-0002''] else [])\<rparr>)"

definition emergency_stop :: "bool \<Rightarrow> (action_result, console_store) io" where
  "emergency_stop reauthenticated =
     (if \<not> reauthenticated then io_ret \<lparr>ac_ok = False, ac_code = ''REAUTH_REQUIRED''\<rparr>
      else io_bind
        (io_do (\<lambda>s. s\<lparr>sto_emergency_stop := True, sto_emergency_stopped_at := Some AS_OF,
                        sto_cancel_progress_done := 4\<rparr>)) (\<lambda>_.
        io_ret \<lparr>ac_ok = True, ac_code = ''STOPPED''\<rparr>))"

definition resume_all :: "(action_result, console_store) io" where
  "resume_all =
     io_bind
       (io_do (\<lambda>s. s\<lparr>sto_emergency_stop := False, sto_emergency_stopped_at := None,
                       sto_cancel_progress_done := 0\<rparr>)) (\<lambda>_.
     io_ret \<lparr>ac_ok = True, ac_code = ''RESUMED''\<rparr>)"

definition liquidate_all :: "string \<Rightarrow> bool \<Rightarrow> (action_result, console_store) io" where
  "liquidate_all phrase reauthenticated =
     (if strip phrase \<noteq> CONFIRM_PHRASE then io_ret \<lparr>ac_ok = False, ac_code = ''CONFIRM_PHRASE_MISMATCH''\<rparr>
      else if \<not> reauthenticated then io_ret \<lparr>ac_ok = False, ac_code = ''REAUTH_REQUIRED''\<rparr>
      else io_bind (io_do (\<lambda>s. s\<lparr>sto_liquidation_running := True\<rparr>)) (\<lambda>_.
           io_ret \<lparr>ac_ok = True, ac_code = ''LIQUIDATING''\<rparr>))"

section \<open>The session header\<close>

datatype role = ADMIN | TRADER | VIEWER

record session_payload =
  se_role :: role
  se_accounts :: "account_summary list"
  se_system_status :: health_level
  se_emergency_stop :: bool
  se_pending_approvals :: nat
  se_risk_actions :: nat

definition build_session :: "console_store \<Rightarrow> string \<Rightarrow> string \<Rightarrow> session_payload result" where
  "build_session store state role =
     bindr (build_approvals store state) (\<lambda>approvals.
     bindr (build_risk store state) (\<lambda>rules.
     let emergency = (sto_emergency_stop store \<or> state = ''emergency-stop'')
     in Inr \<lparr>se_role = (if role = ''TRADER'' then TRADER else if role = ''VIEWER'' then VIEWER else ADMIN),
             se_accounts = build_accounts store state,
             se_system_status =
               (if emergency then LevelStopped
                else if state \<in> {''server-error'', ''toss-auth-expired'', ''mt5-offline''} then LevelActionRequired
                else if state \<in> {''market-data-stale'', ''rate-limited'', ''strategy-error'', ''position-mismatch''}
                then LevelWarning else LevelOk),
             se_emergency_stop = emergency,
             se_pending_approvals = length (filter (\<lambda>a. as_status a = Pending) approvals),
             se_risk_actions = length (filter (\<lambda>r. rl_status r = LevelActionRequired) rules)\<rparr>))"

section \<open>The dashboard\<close>

datatype tone = ToneNeutral | ToneOk | ToneWarning | ToneCritical

fun tone_for :: "health_level \<Rightarrow> tone" where
  "tone_for LevelOk = ToneOk"
| "tone_for LevelWarning = ToneWarning"
| "tone_for LevelActionRequired = ToneCritical"
| "tone_for LevelStopped = ToneCritical"

text \<open>A tile with the numbers it shows.\<close>

record metric_tile =
  mt_key :: string
  mt_tone :: tone
  mt_numbers :: "nat list"
  mt_usage_percent :: "dec option"

record dashboard_payload =
  da_tiles :: "metric_tile list"
  da_accounts :: "account_summary list"
  da_nodes :: "node_health list"
  da_approvals :: "approval_summary list"
  da_running_sources :: "copy_source_row list"
  da_recent_orders :: "raw_order list"
  da_issues :: "string list"
  da_notices :: "string list"

definition count_levels :: "health_level set \<Rightarrow> account_summary list \<Rightarrow> nat" where
  "count_levels ls accounts = length (filter (\<lambda>a. acs_status a \<in> ls) accounts)"

definition dashboard_tiles ::
  "session_payload \<Rightarrow> account_summary list \<Rightarrow> risk_rule_row list \<Rightarrow> metric_tile list" where
  "dashboard_tiles session accounts action_rules =
     (let healthy = count_levels {LevelOk} accounts; warned = count_levels {LevelWarning} accounts;
          stopped = count_levels {LevelStopped, LevelActionRequired} accounts
      in [\<lparr>mt_key = ''system'', mt_tone = tone_for (se_system_status session), mt_numbers = [],
           mt_usage_percent = None\<rparr>,
          \<lparr>mt_key = ''accounts'',
           mt_tone = (if stopped = 0 \<and> warned = 0 then ToneOk
                      else if stopped \<noteq> 0 then ToneCritical else ToneWarning),
           mt_numbers = [healthy, warned, stopped], mt_usage_percent = None\<rparr>,
          \<lparr>mt_key = ''approvals'',
           mt_tone = (if se_pending_approvals session \<noteq> 0 then ToneWarning else ToneNeutral),
           mt_numbers = [se_pending_approvals session], mt_usage_percent = None\<rparr>,
          \<lparr>mt_key = ''risk'', mt_tone = (if action_rules \<noteq> [] then ToneCritical else ToneNeutral),
           mt_numbers = [length action_rules],
           mt_usage_percent = (case action_rules of [] \<Rightarrow> None | r # _ \<Rightarrow> Some (rl_usage_percent r))\<rparr>])"

definition build_dashboard :: "console_store \<Rightarrow> string \<Rightarrow> dashboard_payload result" where
  "build_dashboard store state =
     bindr (build_approvals store state) (\<lambda>approvals.
     bindr (build_risk store state) (\<lambda>rules.
     bindr (build_session store state ''ADMIN'') (\<lambda>session.
     let accounts = build_accounts store state; nodes = build_nodes store state;
         action_rules = filter (\<lambda>r. rl_status r = LevelActionRequired) rules
     in Inr \<lparr>da_tiles = dashboard_tiles session accounts action_rules,
             da_accounts = (if state \<noteq> ''empty'' then accounts else []),
             da_nodes = (if state \<noteq> ''empty'' then nodes else []),
             da_approvals = take 3 approvals, da_running_sources = build_copy_sources store state,
             da_recent_orders = take 4 (op_orders (build_orders store state)),
             da_issues = (if state = ''empty'' \<or> state = ''loading'' then [] else [''rec-0029'', ''rec-0031'']),
             da_notices =
               (if state = ''mt5-offline'' \<and> ''node-seoul-01'' \<notin> sto_resumed_nodes store
                then [''n-dash-mt5''] else []) @
               (if state = ''toss-auth-expired'' then [''n-dash-toss''] else []) @
               (if state = ''empty'' then [''n-dash-empty''] else [])\<rparr>)))"

end
