(* ===== verification/Console_Api.thy ===== *)
theory Console_Api
  imports Console_Screens
begin

text \<open>
  \<open>api/routes/console.py\<close>: the handlers of the operations console on the store of
  \<open>Console_Data\<close>. A response that is an error is the \<open>HTTPException\<close> the handler raises, with its
  code. The detail pages of strategies, copy sources and audit events and the admin page only show
  fixed text and are left out. The development's machine is the store under any sequence of the
  requests that change it.
\<close>

section \<open>Reading handlers\<close>

definition guard_state :: "string \<Rightarrow> unit result" where
  "guard_state state =
     (if state = ''forbidden'' then Inl (HTTPException 403 ''FORBIDDEN'')
      else if state = ''server-error'' then Inl (HTTPException 503 ''SERVER_ERROR'') else Inr ())"

definition not_found :: exn where
  "not_found = HTTPException 404 ''NOT_FOUND''"

definition get_session :: "console_store \<Rightarrow> string option \<Rightarrow> string option \<Rightarrow> session_payload result" where
  "get_session store state role =
     (let resolved = normalise_state state
      in bindr (if resolved = ''server-error'' then guard_state resolved else Inr ()) (\<lambda>_.
         build_session store resolved
           (case role of Some r \<Rightarrow> if r = [] then ''ADMIN'' else r | None \<Rightarrow> ''ADMIN'')))"

definition get_dashboard :: "console_store \<Rightarrow> string option \<Rightarrow> dashboard_payload result" where
  "get_dashboard store state =
     (let resolved = normalise_state state
      in bindr (guard_state resolved) (\<lambda>_. build_dashboard store resolved))"

definition list_strategies :: "console_store \<Rightarrow> string option \<Rightarrow> strategy_row list result" where
  "list_strategies store state =
     (let resolved = normalise_state state
      in bindr (guard_state resolved) (\<lambda>_. Inr (build_strategies store resolved)))"

fun source_type_value :: "source_type \<Rightarrow> string" where
  "source_type_value STRATEGY = ''STRATEGY''"
| "source_type_value LEADER = ''LEADER''"
| "source_type_value EXTERNAL = ''EXTERNAL''"
| "source_type_value FORM_13F = ''FORM_13F''"

definition list_copy_sources ::
  "console_store \<Rightarrow> string option \<Rightarrow> string option \<Rightarrow> copy_source_row list result" where
  "list_copy_sources store state source_type =
     (let resolved = normalise_state state
      in bindr (guard_state resolved) (\<lambda>_.
         let rows = build_copy_sources store resolved
         in Inr (case source_type of
                   Some t \<Rightarrow> if t = [] then rows else filter (\<lambda>r. source_type_value (csr_source_type r) = t) rows
                 | None \<Rightarrow> rows)))"

definition list_approvals :: "console_store \<Rightarrow> string option \<Rightarrow> approval_summary list result" where
  "list_approvals store state =
     (let resolved = normalise_state state
      in bindr (guard_state resolved) (\<lambda>_. build_approvals store resolved))"

definition get_approval :: "string \<Rightarrow> console_store \<Rightarrow> string option \<Rightarrow> approval_detail result" where
  "get_approval approval_id store state =
     (let resolved = normalise_state state
      in bindr (guard_state resolved) (\<lambda>_.
         bindr (build_approval_detail approval_id store resolved) (\<lambda>detail.
         case detail of Some d \<Rightarrow> Inr d | None \<Rightarrow> Inl not_found)))"

definition get_orders :: "console_store \<Rightarrow> string option \<Rightarrow> orders_payload result" where
  "get_orders store state =
     (let resolved = normalise_state state
      in bindr (guard_state resolved) (\<lambda>_. Inr (build_orders store resolved)))"

definition show_order :: "string \<Rightarrow> console_store \<Rightarrow> string option \<Rightarrow> order_detail result" where
  "show_order order_id store state =
     (let resolved = normalise_state state
      in bindr (guard_state resolved) (\<lambda>_.
         case build_order_detail order_id store of Some d \<Rightarrow> Inr d | None \<Rightarrow> Inl not_found))"

definition get_risk_rules :: "console_store \<Rightarrow> string option \<Rightarrow> risk_rule_row list result" where
  "get_risk_rules store state =
     (let resolved = normalise_state state
      in bindr (guard_state resolved) (\<lambda>_. build_risk store resolved))"

definition get_connections :: "console_store \<Rightarrow> string option \<Rightarrow> connections_payload result" where
  "get_connections store state =
     (let resolved = normalise_state state
      in bindr (guard_state resolved) (\<lambda>_. Inr (build_connections store resolved)))"

definition get_controls :: "console_store \<Rightarrow> string option \<Rightarrow> controls_payload" where
  "get_controls store state = build_controls store (normalise_state state)"

section \<open>Changing handlers\<close>

definition acted :: "string \<Rightarrow> action_result" where
  "acted code = \<lparr>ac_ok = True, ac_code = code\<rparr>"

definition toggle_strategy :: "string \<Rightarrow> (action_result, console_store) io" where
  "toggle_strategy strategy_id =
     io_bind (io_get (\<lambda>s. strategy_id \<in> sto_paused_strategies s)) (\<lambda>paused.
     if paused then
       io_bind (io_do (\<lambda>s. s\<lparr>sto_paused_strategies := sto_paused_strategies s - {strategy_id}\<rparr>)) (\<lambda>_.
       io_ret (acted ''RESUMED''))
     else
       io_bind (io_do (\<lambda>s. s\<lparr>sto_paused_strategies := insert strategy_id (sto_paused_strategies s)\<rparr>)) (\<lambda>_.
       io_ret (acted ''PAUSED'')))"

definition toggle_copy_source :: "string \<Rightarrow> (action_result, console_store) io" where
  "toggle_copy_source source_id =
     io_bind (io_get (\<lambda>s. source_id \<in> sto_paused_sources s)) (\<lambda>paused.
     if paused then
       io_bind (io_do (\<lambda>s. s\<lparr>sto_paused_sources := sto_paused_sources s - {source_id}\<rparr>)) (\<lambda>_.
       io_ret (acted ''RESUMED''))
     else
       io_bind (io_do (\<lambda>s. s\<lparr>sto_paused_sources := insert source_id (sto_paused_sources s)\<rparr>)) (\<lambda>_.
       io_ret (acted ''PAUSED'')))"

definition post_recheck :: "string \<Rightarrow> (recheck_result, console_store) io" where
  "post_recheck approval_id =
     io_bind (recheck_approval approval_id) (\<lambda>result.
     case result of Some r \<Rightarrow> io_ret r | None \<Rightarrow> io_raise not_found)"

datatype decision_action = APPROVE | REJECT

text \<open>The field \<open>rechecked\<close> of the request is not read.\<close>

definition post_decide :: "uuid \<Rightarrow> string \<Rightarrow> decision_action \<Rightarrow> (decision_result, console_store) io" where
  "post_decide fresh approval_id action =
     io_bind (io_get (\<lambda>s. approval_id \<in> sto_approval_rechecked s)) (\<lambda>rechecked.
     if action = APPROVE \<and> \<not> rechecked then io_raise (HTTPException 409 ''RECHECK_REQUIRED'')
     else io_bind (decide_approval fresh approval_id (action = APPROVE)) (\<lambda>result.
          case result of Some r \<Rightarrow> io_ret r | None \<Rightarrow> io_raise not_found))"

definition recheck_broker :: "string \<Rightarrow> (action_result, console_store) io" where
  "recheck_broker order_id =
     io_bind (io_get (build_order_detail order_id)) (\<lambda>detail.
     case detail of
       None \<Rightarrow> io_raise not_found
     | Some d \<Rightarrow>
         if \<not> od_can_recheck_broker d then io_raise (HTTPException 409 ''RECHECK_NOT_APPLICABLE'')
         else io_bind (io_do (\<lambda>s. s\<lparr>sto_rechecked_orders := insert order_id (sto_rechecked_orders s)\<rparr>)) (\<lambda>_.
              io_ret (acted ''RECHECKED'')))"

text \<open>
  The comparison \<open>new_limit > current.limit\<close>: a NaN raises there, outside the handler's \<open>try\<close>.
\<close>

definition limit_exceeds :: "decval \<Rightarrow> dec \<Rightarrow> bool result" where
  "limit_exceeds new current =
     (case new of
        NotANumber \<Rightarrow> Inl DecimalException
      | Infinite neg \<Rightarrow> Inr (\<not> neg)
      | Finite d \<Rightarrow> Inr (current < d))"

definition update_risk_rule :: "string \<Rightarrow> string \<Rightarrow> bool \<Rightarrow> (action_result, console_store) io" where
  "update_risk_rule rule_id limit reauthenticated =
     io_bind (io_get (\<lambda>s. build_risk s ''normal'')) (\<lambda>risk.
     io_bind (io_lift risk) (\<lambda>rules.
     case List.find (\<lambda>r. rl_rule_id r = rule_id) rules of
       None \<Rightarrow> io_raise not_found
     | Some current \<Rightarrow>
         (case parse_decimal limit of
            None \<Rightarrow> io_raise (HTTPException 422 ''INVALID_LIMIT'')
          | Some new_limit \<Rightarrow>
              io_bind (io_lift (limit_exceeds new_limit (rl_limit current))) (\<lambda>looser.
              if looser \<and> \<not> reauthenticated then io_raise (HTTPException 409 ''REAUTH_REQUIRED'')
              else io_bind (io_do (\<lambda>s. s\<lparr>sto_risk_limits := dict_set rule_id limit (sto_risk_limits s)\<rparr>)) (\<lambda>_.
                   io_ret (acted ''UPDATED''))))))"

definition stop_account :: "string \<Rightarrow> (action_result, console_store) io" where
  "stop_account account_id =
     io_bind (io_do (\<lambda>s. s\<lparr>sto_stopped_accounts := insert account_id (sto_stopped_accounts s)\<rparr>)) (\<lambda>_.
     io_ret (acted ''ACCOUNT_STOPPED''))"

definition resume_account :: "string \<Rightarrow> (action_result, console_store) io" where
  "resume_account account_id =
     io_bind (io_do (\<lambda>s. s\<lparr>sto_stopped_accounts := sto_stopped_accounts s - {account_id}\<rparr>)) (\<lambda>_.
     io_ret (acted ''ACCOUNT_RESUMED''))"

definition resume_node :: "string \<Rightarrow> (action_result, console_store) io" where
  "resume_node node_id =
     io_bind (io_do (\<lambda>s. s\<lparr>sto_resumed_nodes := insert node_id (sto_resumed_nodes s)\<rparr>)) (\<lambda>_.
     io_ret (acted ''NODE_RESUMED''))"

definition post_reset :: "(action_result, console_store) io" where
  "post_reset = io_bind (io_do reset_store) (\<lambda>_. io_ret (acted ''RESET''))"

section \<open>The console as a machine\<close>

datatype console_request =
    ToggleStrategy string
  | ToggleCopySource string
  | Recheck string
  | Decide uuid string decision_action
  | RecheckBroker string
  | UpdateRiskRule string string bool
  | TestToss "string option"
  | StopAccount string
  | ResumeAccount string
  | ResumeNode string
  | EmergencyStop bool
  | ResumeAll
  | LiquidateAll string bool
  | Reset

text \<open>The store after a request, whatever its response.\<close>

fun serve :: "console_request \<Rightarrow> console_store \<Rightarrow> console_store" where
  "serve (ToggleStrategy i) s = snd (toggle_strategy i s)"
| "serve (ToggleCopySource i) s = snd (toggle_copy_source i s)"
| "serve (Recheck i) s = snd (post_recheck i s)"
| "serve (Decide fresh i a) s = snd (post_decide fresh i a s)"
| "serve (RecheckBroker i) s = snd (recheck_broker i s)"
| "serve (UpdateRiskRule i l re) s = snd (update_risk_rule i l re s)"
| "serve (TestToss sc) s = snd (test_toss_connection sc s)"
| "serve (StopAccount i) s = snd (stop_account i s)"
| "serve (ResumeAccount i) s = snd (resume_account i s)"
| "serve (ResumeNode i) s = snd (resume_node i s)"
| "serve (EmergencyStop re) s = snd (emergency_stop re s)"
| "serve ResumeAll s = snd (resume_all s)"
| "serve (LiquidateAll p re) s = snd (liquidate_all p re s)"
| "serve Reset s = snd (post_reset s)"

lemmas quick_handlers = toggle_strategy_def toggle_copy_source_def recheck_broker_def
  test_toss_connection_def stop_account_def resume_account_def resume_node_def emergency_stop_def
  resume_all_def liquidate_all_def post_reset_def io_bind_def io_get_def io_do_def io_ret_def io_raise_def

end
