(* ===== verification/Console_Safety.thy ===== *)
theory Console_Safety
  imports Console_Api
begin

text \<open>
  What the operations console keeps true under any sequence of requests: no approval without a
  recheck, an emergency stop that holds until it is lifted, limits that are loosened only after
  reauthentication; and how a very small limit makes the risk pages fail until the console is reset.
\<close>

section \<open>What each request changes\<close>

lemma recheck_effect:
  "snd (post_recheck i s) =
     (if find_approval i = None then s
      else s\<lparr>sto_approval_rechecked := insert i (sto_approval_rechecked s)\<rparr>)"
  by (auto simp: post_recheck_def recheck_approval_def io_defs Let_def split: option.split sum.split)

lemma lift_run: "io_bind (io_lift r) f s = (case r of Inl e \<Rightarrow> (Inl e, s) | Inr x \<Rightarrow> f x s)"
  by (simp add: io_bind_def io_lift_def split: sum.split)

lemma do_run: "snd (io_bind (io_do g) (\<lambda>_. io_ret y) s) = g s"
  by (simp add: io_bind_def io_do_def io_ret_def)

lemma decide_approval_effect:
  obtains "snd (decide_approval fresh i approve s) = s"
  | st why where "find_approval i \<noteq> None" "snd (decide_approval fresh i approve s) = record_decision i st why s"
      "st = Approved \<Longrightarrow> approve"
proof (cases "find_approval i")
  case None
  then have "snd (decide_approval fresh i approve s) = s" by (simp add: decide_approval_def io_ret_def)
  then show thesis by (rule that(1))
next
  case (Some raw)
  define d where "d = decide_approval fresh i approve s"
  have "snd d = s \<or> (\<exists>why. snd d = record_decision i Expired why s) \<or>
      (\<exists>why. snd d = record_decision i Rejected why s) \<or>
      approve \<and> (\<exists>why. snd d = record_decision i Approved why s)"
  proof (cases "quantize (- 2) (ra_current_price raw * ra_quantity raw)")
    case (Inl e)
    then show ?thesis by (simp add: d_def decide_approval_def Some lift_run)
  next
    case (Inr notional)
    note n = this
    let ?c = "ApprovalPolicyConfig \<lparr>ap_mode = ra_mode raw,
      ap_auto_notional_limit = (if ra_mode raw = CONDITIONAL then Some (Dec 2000000 0) else None)\<rparr>"
    show ?thesis
    proof (cases ?c)
      case (Inl e)
      with n show ?thesis by (simp add: d_def decide_approval_def Some lift_run)
    next
      case (Inr config)
      note c = this
      show ?thesis
      proof (cases "decide fresh config (VDec (Finite notional)) BASE_NOW
               (Aware (1787063528000000 + ra_expires raw * 1000000) 32400000000)")
        case (Inl e)
        with n c show ?thesis by (simp add: d_def decide_approval_def Some lift_run)
      next
        case (Inr policy)
        with n c show ?thesis
          unfolding d_def decide_approval_def Some option.case lift_run n c sum.case
          by (cases "ad_status policy = Expired"; cases approve) (auto simp only: do_run if_True if_False not_False_eq_True not_True_eq_False simp_thms sum.case)
      qed
    qed
  qed
  with Some that show thesis unfolding d_def by blast
qed

lemma decide_effect:
  obtains "snd (post_decide fresh i a s) = s"
  | st why where "find_approval i \<noteq> None" "snd (post_decide fresh i a s) = record_decision i st why s"
      "st = Approved \<Longrightarrow> i \<in> sto_approval_rechecked s"
proof (cases "a = APPROVE \<and> i \<notin> sto_approval_rechecked s")
  case True
  then have "snd (post_decide fresh i a s) = s" by (simp add: post_decide_def io_defs)
  then show thesis by (rule that(1))
next
  case False
  have "snd (post_decide fresh i a s) = snd (decide_approval fresh i (a = APPROVE) s)"
    using False by (auto simp: post_decide_def io_defs split: sum.split option.split prod.split)
  then show thesis using False that
    by (cases rule: decide_approval_effect [of fresh i "a = APPROVE" s]) auto
qed

lemma update_effect:
  "snd (update_risk_rule i l re s) = s \<or>
   snd (update_risk_rule i l re s) = s\<lparr>sto_risk_limits := dict_set i l (sto_risk_limits s)\<rparr> \<and>
     (\<exists>rules. build_risk s ''normal'' = Inr rules)"
  by (auto simp: update_risk_rule_def io_defs split: sum.split option.split)

lemma record_decision_simps [simp]:
  "sto_approval_rechecked (record_decision i st why s) = sto_approval_rechecked s"
  "sto_emergency_stop (record_decision i st why s) = sto_emergency_stop s"
  "sto_risk_limits (record_decision i st why s) = sto_risk_limits s"
  "sto_approval_decisions (record_decision i st why s) = dict_set i st (sto_approval_decisions s)"
  by (simp_all add: record_decision_def)

lemma reset_store_simps [simp]:
  "sto_emergency_stop (reset_store s) = False" "sto_approval_decisions (reset_store s) = []"
  "sto_risk_limits (reset_store s) = []"
  by (simp_all add: reset_store_def)

lemma serve_emergency:
  "sto_emergency_stop (serve q s) =
     (case q of EmergencyStop re \<Rightarrow> re \<or> sto_emergency_stop s | ResumeAll \<Rightarrow> False | Reset \<Rightarrow> False
      | _ \<Rightarrow> sto_emergency_stop s)"
proof (cases q)
  case (Decide fresh i a)
  then show ?thesis by (cases rule: decide_effect [of fresh i a s]) auto
next
  case (UpdateRiskRule i l re)
  then show ?thesis using update_effect [of i l re s] by auto
qed (simp_all add: quick_handlers recheck_effect split: option.split)

lemma serve_limits:
  assumes "q \<noteq> Reset"
  obtains "sto_risk_limits (serve q s) = sto_risk_limits s"
  | i l re rules where "q = UpdateRiskRule i l re" "build_risk s ''normal'' = Inr rules"
      "serve q s = s\<lparr>sto_risk_limits := dict_set i l (sto_risk_limits s)\<rparr>"
proof (cases q)
  case (Decide fresh i a)
  then have "sto_risk_limits (serve q s) = sto_risk_limits s"
    by (cases rule: decide_effect [of fresh i a s]) auto
  then show thesis by (rule that(1))
next
  case (UpdateRiskRule i l re)
  then show thesis using update_effect [of i l re s] that by auto
qed (use assms that(1) in \<open>simp_all add: quick_handlers recheck_effect split: option.split\<close>)

text \<open>The invariant of the approvals.\<close>

definition approvals_ok :: "console_store \<Rightarrow> bool" where
  "approvals_ok s \<longleftrightarrow>
     (\<forall>a. dict_get (sto_approval_decisions s) a = Some Approved \<longrightarrow>
        a \<in> sto_approval_rechecked s \<and> find_approval a \<noteq> None)"

inductive console_step :: "console_store \<Rightarrow> console_store \<Rightarrow> bool" where
  served: "console_step s (serve q s)"

inductive_cases console_stepE: "console_step s t"

lemma approvals_ok_step: "approvals_ok s \<Longrightarrow> approvals_ok (serve q s)"
proof (cases q)
  case (Decide fresh i a)
  assume "approvals_ok s"
  then show ?thesis using Decide
    by (cases rule: decide_effect [of fresh i a s]) (auto simp: approvals_ok_def dict_get_set split: if_splits)
next
  case (UpdateRiskRule i l re)
  assume "approvals_ok s"
  then show ?thesis using UpdateRiskRule update_effect [of i l re s] by (auto simp: approvals_ok_def)
qed (auto simp: approvals_ok_def quick_handlers recheck_effect split: option.split)

interpretation console: safe_machine "\<lambda>s. s = ConsoleStore" console_step approvals_ok
proof unfold_locales
  show "approvals_ok s" if "s = ConsoleStore" for s
    using that by (simp add: approvals_ok_def ConsoleStore_def)
  show "approvals_ok t" if "approvals_ok s" "console_step s t" for s t
    using that by (auto elim!: console_stepE intro: approvals_ok_step)
qed

section \<open>Risk limits\<close>

lemma risk_row_fields:
  assumes "risk_row s raw = Inr r"
  obtains l where "parse_decimal (case dict_get (sto_risk_limits s) (rb_rule_id raw) of Some l \<Rightarrow> l | None \<Rightarrow> rb_limit raw)
      = Some (Finite l)" "rl_limit r = l" "rl_rule_id r = rb_rule_id raw"
  using assms by (auto simp: risk_row_def Let_def bindr_Inr_iff split: option.splits decval.splits)

lemma risk_row_cong:
  "dict_get (sto_risk_limits s) (rb_rule_id raw) = dict_get (sto_risk_limits t) (rb_rule_id raw) \<Longrightarrow>
     risk_row s raw = risk_row t raw"
  by (simp add: risk_row_def)

lemma build_risk_cong: "sto_risk_limits s = sto_risk_limits t \<Longrightarrow> build_risk s state = build_risk t state"
  unfolding build_risk_def by (auto intro!: mapr_cong risk_row_cong)

lemma normal_risk: "build_risk s ''normal'' = mapr (risk_row s) RISK_BASE"
  by (simp add: build_risk_def)

lemma rule_ids: "mapr (risk_row s) raws = Inr rules \<Longrightarrow> map rl_rule_id rules = map rb_rule_id raws"
  by (induction raws arbitrary: rules) (auto simp: bindr_Inr_iff elim!: risk_row_fields)

lemma distinct_rules: "distinct (map rb_rule_id RISK_BASE)"
  by (simp add: RISK_BASE_def)

lemma the_rule:
  assumes "build_risk s ''normal'' = Inr rules" "raw \<in> set RISK_BASE" "risk_row s raw = Inr r"
  shows "List.find (\<lambda>x. rl_rule_id x = rb_rule_id raw) rules = Some r"
proof -
  have ids: "distinct (map rl_rule_id rules)"
    using rule_ids assms(1) distinct_rules by (simp add: normal_risk)
  have r: "r \<in> set rules" "rl_rule_id r = rb_rule_id raw"
    using mapr_image [OF assms(1) [unfolded normal_risk] assms(2,3)] risk_row_fields [OF assms(3)] by blast+
  then have "List.find (\<lambda>x. rl_rule_id x = rb_rule_id raw) rules \<noteq> None" by (auto simp: find_None_iff)
  then obtain x where x: "List.find (\<lambda>x. rl_rule_id x = rb_rule_id raw) rules = Some x" by blast
  then have "x \<in> set rules" "rl_rule_id x = rb_rule_id raw"
    by (auto simp: find_Some_iff in_set_conv_nth)
  then have "x = r" using ids r by (auto simp: distinct_map inj_on_def)
  with x show ?thesis by simp
qed

fun loosens :: "console_request \<Rightarrow> bool" where
  "loosens (UpdateRiskRule i l re) = re"
| "loosens Reset = True"
| "loosens _ = False"

definition tighter :: "risk_rule_row list \<Rightarrow> risk_rule_row list \<Rightarrow> bool" where
  "tighter rules rules' \<longleftrightarrow> list_all2 (\<lambda>r r'. rl_rule_id r' = rl_rule_id r \<and> rl_limit r' \<le> rl_limit r) rules rules'"

lemma tighter_refl: "tighter rules rules"
  by (simp add: tighter_def list_all2_refl dec_order)

lemma tighter_trans: "tighter a b \<Longrightarrow> tighter b c \<Longrightarrow> tighter a c"
  unfolding tighter_def by (rule list_all2_trans) (auto simp: dec_order)

lemma tightening_update:
  assumes "snd (update_risk_rule i l False s) \<noteq> s"
  obtains rules current v where "build_risk s ''normal'' = Inr rules"
    "List.find (\<lambda>r. rl_rule_id r = i) rules = Some current" "parse_decimal l = Some v"
    "limit_exceeds v (rl_limit current) = Inr False"
  using assms by (auto simp: update_risk_rule_def io_defs split: sum.splits option.splits if_splits)

lemma tightens_step:
  assumes "\<not> loosens q" "build_risk s ''normal'' = Inr rules" "build_risk (serve q s) ''normal'' = Inr rules'"
  shows "tighter rules rules'"
proof -
  have "q \<noteq> Reset" using assms(1) by auto
  then show ?thesis
  proof (cases rule: serve_limits [of q s])
    case 1
    with assms(2,3) build_risk_cong [of "serve q s" s] show ?thesis by (simp add: tighter_refl)
  next
    case (2 i l re base)
    show ?thesis
    proof (cases "serve q s = s")
      case True
      with assms(2,3) show ?thesis by (simp add: tighter_refl)
    next
      case False
      with 2(1) assms(1) have "snd (update_risk_rule i l False s) \<noteq> s" by auto
      then obtain cur v where cur: "List.find (\<lambda>r. rl_rule_id r = i) rules = Some cur"
        "parse_decimal l = Some v" "limit_exceeds v (rl_limit cur) = Inr False"
        using assms(2) by (auto elim!: tightening_update)
      have "rl_rule_id r' = rl_rule_id r \<and> rl_limit r' \<le> rl_limit r"
        if raw: "raw \<in> set RISK_BASE" and r: "risk_row s raw = Inr r" "risk_row (serve q s) raw = Inr r'" for raw r r'
      proof (cases "rb_rule_id raw = i")
        case True
        then have "cur = r" using the_rule [OF assms(2) raw r(1)] cur(1) by simp
        with True cur(2,3) r show ?thesis
          unfolding 2(3) by (auto simp: dict_get_set not_less_dec limit_exceeds_def elim!: risk_row_fields)
      next
        case False
        then have "risk_row (serve q s) raw = risk_row s raw"
          unfolding 2(3) by (intro risk_row_cong) (simp add: dict_get_set)
        with r show ?thesis by (simp add: dec_order)
      qed
      with assms(2,3) show ?thesis
        unfolding normal_risk mapr_Inr_iff tighter_def list_all2_conv_all_nth by (metis nth_mem)
    qed
  qed
qed

lemma failing_stays:
  "q \<noteq> Reset \<Longrightarrow> build_risk s ''normal'' = Inl e \<Longrightarrow> build_risk (serve q s) ''normal'' = Inl e"
  by (cases rule: serve_limits [of q s]) (use build_risk_cong [of "serve q s" s] in auto)

section \<open>Runs\<close>

abbreviation serve_all :: "console_request list \<Rightarrow> console_store \<Rightarrow> console_store" where
  "serve_all qs s \<equiv> foldl (\<lambda>s q. serve q s) s qs"

lemma serve_all_steps: "console_step\<^sup>*\<^sup>* s (serve_all qs s)"
  by (induction qs rule: rev_induct) (auto intro: rtranclp.rtrancl_into_rtrancl served)

lemma emergency_lasts:
  "sto_emergency_stop s \<Longrightarrow> ResumeAll \<notin> set qs \<Longrightarrow> Reset \<notin> set qs \<Longrightarrow> sto_emergency_stop (serve_all qs s)"
  by (induction qs arbitrary: s) (auto simp: serve_emergency split: console_request.split)

lemma failing_lasts:
  "Reset \<notin> set qs \<Longrightarrow> build_risk s ''normal'' = Inl e \<Longrightarrow> build_risk (serve_all qs s) ''normal'' = Inl e"
  by (induction qs arbitrary: s) (auto simp: failing_stays)

lemma tightens_run:
  assumes "\<forall>q\<in>set qs. \<not> loosens q" "build_risk s ''normal'' = Inr rules"
    and "build_risk (serve_all qs s) ''normal'' = Inr rules'"
  shows "tighter rules rules'"
  using assms
proof (induction qs arbitrary: s rules)
  case Nil
  then show ?case by (simp add: tighter_refl)
next
  case (Cons q qs)
  have no_reset: "Reset \<notin> set qs" using Cons.prems(1) by auto
  show ?case
  proof (cases "build_risk (serve q s) ''normal''")
    case (Inl e)
    with failing_lasts [OF no_reset] Cons.prems(3) show ?thesis by simp
  next
    case (Inr mid)
    from Cons.prems(1,2) Inr have "tighter rules mid" by (intro tightens_step) auto
    moreover from Cons.prems(1,3) Inr have "tighter mid rules'" by (intro Cons.IH) auto
    ultimately show ?thesis by (rule tighter_trans)
  qed
qed

lemma risk_screen: "state \<notin> {''empty'', ''loading''} \<Longrightarrow> build_risk s state = build_risk s ''normal''"
  by (simp add: build_risk_def)

text \<open>The approvals of the sample data can always be shown.\<close>

lemma sample_notionals:
  "quantize (- 2) (Dec 45102 (- 2) * Dec 12 0) = Inr (Dec 541224 (- 2))"
  "quantize (- 2) (Dec 45388 (- 2) * Dec 12 0) = Inr (Dec 544656 (- 2))"
  "quantize (- 2) (Dec 81100 0 * Dec 30 0) = Inr (Dec 243300000 (- 2))"
  "quantize (- 2) (Dec 46302 (- 2) * Dec 8 0) = Inr (Dec 370416 (- 2))"
  by code_simp+

lemma approvals_shown: "\<exists>rows. build_approvals s state = Inr rows"
  by (simp add: build_approvals_def APPROVAL_BASE_def approval_summary_of_def Let_def sample_notionals)

lemma base_texts:
  "dec_text (Dec 10000000 0) = ''10000000''" "dec_text (Dec 150000000 0) = ''150000000''"
  "dec_text (Dec 200 (- 3)) = ''0.200''" "dec_text (Dec 300 (- 4)) = ''0.0300''"
  "dec_text (Dec 1000 (- 4)) = ''0.1000''" "dec_text (Dec 1 (- 30)) = ''1E-30''"
  by (simp_all add: text_evals)

lemmas base_limits = parse_dec_text [of "Dec 10000000 0", unfolded base_texts]
  parse_dec_text [of "Dec 150000000 0", unfolded base_texts]
  parse_dec_text [of "Dec 200 (- 3)", unfolded base_texts]
  parse_dec_text [of "Dec 300 (- 4)", unfolded base_texts]
  parse_dec_text [of "Dec 1000 (- 4)", unfolded base_texts]
  parse_dec_text [of "Dec 1 (- 30)", unfolded base_texts]

lemma tiny_limit_stored:
  "update_risk_rule ''risk-order-notional'' ''1E-30'' False ConsoleStore =
     (Inr (acted ''UPDATED''), ConsoleStore\<lparr>sto_risk_limits := [(''risk-order-notional'', ''1E-30'')]\<rparr>)"
proof -
  have "\<not> Dec 10000000 0 < Dec 1 (- 30)" by code_simp
  then show ?thesis
    by (simp add: update_risk_rule_def io_defs normal_risk RISK_BASE_def risk_row_def ConsoleStore_def base_limits
        limit_exceeds_def Let_def)
qed

lemma tiny_limit_fails:
  "build_risk (ConsoleStore\<lparr>sto_risk_limits := [(''risk-order-notional'', ''1E-30'')]\<rparr>) ''normal'' =
     Inl DecimalException"
proof -
  have "bindr (ddiv (Dec 5412000 0) (Dec 1 (- 30))) (\<lambda>q. quantize (- 1) (q * dint 100)) = Inl DecimalException"
    "(0::dec) < Dec 1 (- 30)"
    by code_simp+
  then show ?thesis
    by (simp add: normal_risk RISK_BASE_def risk_row_def base_limits Let_def)
qed

section \<open>Properties\<close>

text \<open>C36: Nothing is approved unseen. In every store the console can reach, an approval that the screen
  shows as approved belongs to a known request whose price and account state were checked again
  before the decision.\<close>

theorem approved_only_after_recheck:
  assumes "console_step\<^sup>*\<^sup>* ConsoleStore s" "approval_summary_of s raw = Inr row" "as_status row = Approved"
  shows "ra_approval_id raw \<in> sto_approval_rechecked s"
proof -
  have "approvals_ok s" using console.inv_reachable assms(1) by blast
  with assms(2,3) show ?thesis
    by (auto simp: approval_summary_of_def Let_def bindr_Inr_iff approvals_ok_def split: option.splits)
qed

text \<open>The second sample request, rechecked and then approved by the operator.\<close>

lemma sample_approval:
  "\<exists>s row. console_step\<^sup>*\<^sup>* ConsoleStore s \<and> approval_summary_of s (APPROVAL_BASE ! 1) = Inr row \<and>
     as_status row = Approved"
proof -
  let ?i = "''apv-leader-005930''"
  have found: "find_approval ?i = Some (APPROVAL_BASE ! 1)"
    by (simp add: find_approval_def APPROVAL_BASE_def)
  define s1 where "s1 = ConsoleStore\<lparr>sto_approval_rechecked := {?i}\<rparr>"
  define s2 where "s2 = record_decision ?i Approved ''approved by the operator'' s1"
  have "serve (Recheck ?i) ConsoleStore = s1"
    using found by (simp add: recheck_effect s1_def ConsoleStore_def)
  moreover have "serve (Decide 0 ?i APPROVE) s1 = s2"
  proof -
    have big: "\<not> Dec 243300000 (- 2) \<le> Dec 2000000 0" by code_simp
    have config: "ApprovalPolicyConfig \<lparr>ap_mode = CONDITIONAL, ap_auto_notional_limit = Some (Dec 2000000 0)\<rparr> =
        Inr \<lparr>ap_mode = CONDITIONAL, ap_auto_notional_limit = Some (Dec 2000000 0)\<rparr>"
      by (simp add: ApprovalPolicyConfig_iff)
    have raw: "ra_current_price (APPROVAL_BASE ! 1) = Dec 81100 0" "ra_quantity (APPROVAL_BASE ! 1) = Dec 30 0"
      "ra_mode (APPROVAL_BASE ! 1) = CONDITIONAL" "ra_expires (APPROVAL_BASE ! 1) = 252"
      by (simp_all add: APPROVAL_BASE_def)
    have "snd (decide_approval 0 ?i True s1) = s2"
      unfolding decide_approval_def found option.case lift_run raw sample_notionals sum.case
      by (simp add: config decide_def big as_utc_def BASE_NOW_def astimezone_utc_def do_run s2_def)
    moreover have "?i \<in> sto_approval_rechecked s1" by (simp add: s1_def)
    ultimately show ?thesis
      by (auto simp: post_decide_def io_bind_def io_get_def io_ret_def io_raise_def split: prod.split sum.split option.split)
  qed
  ultimately have "console_step\<^sup>*\<^sup>* ConsoleStore s2"
    using serve_all_steps [of ConsoleStore "[Recheck ?i, Decide 0 ?i APPROVE]"] by (simp del: serve.simps)
  moreover have "\<exists>row. approval_summary_of s2 (APPROVAL_BASE ! 1) = Inr row \<and> as_status row = Approved"
    by (simp add: approval_summary_of_def APPROVAL_BASE_def sample_notionals s2_def dict_get_set Let_def)
  ultimately show ?thesis by blast
qed

theorem approved_only_after_recheck_witness:
  "\<exists>s row. approval_summary_of s (APPROVAL_BASE ! 1) = Inr row \<and> as_status row = Approved \<and>
     ''apv-leader-005930'' \<in> sto_approval_rechecked s"
proof -
  obtain s row where s: "console_step\<^sup>*\<^sup>* ConsoleStore s"
    "approval_summary_of s (APPROVAL_BASE ! 1) = Inr row" "as_status row = Approved"
    using sample_approval by blast
  have "ra_approval_id (APPROVAL_BASE ! 1) = ''apv-leader-005930''" by (simp add: APPROVAL_BASE_def)
  with s approved_only_after_recheck [OF s] show ?thesis by auto
qed

text \<open>The Toss rows of the connections screen do not look at the emergency stop: after one they
  show an account as open for orders unless it was stopped by itself.\<close>

lemma toss_rows_ignore_the_stop:
  "state \<notin> {''empty'', ''loading'', ''toss-auth-expired''} \<Longrightarrow>
   map ta_order_stopped (cn_toss_accounts (build_connections (serve (EmergencyStop True) ConsoleStore) state)) =
     [False, False]"
proof -
  have "sto_stopped_accounts (serve (EmergencyStop True) s) = sto_stopped_accounts s" for s
    by (simp add: quick_handlers)
  then show "state \<notin> {''empty'', ''loading'', ''toss-auth-expired''} \<Longrightarrow>
    map ta_order_stopped (cn_toss_accounts (build_connections (serve (EmergencyStop True) ConsoleStore) state)) =
      [False, False]"
    by (simp add: build_connections_def Let_def ConsoleStore_def del: serve.simps)
qed

lemma dashboard_lists:
  assumes "build_dashboard s state = Inr da"
  shows "da_accounts da = (if state \<noteq> ''empty'' then build_accounts s state else [])"
    and "da_nodes da = (if state \<noteq> ''empty'' then build_nodes s state else [])"
  using assms unfolding build_dashboard_def bindr_Inr_iff Let_def sum.inject
  by (elim exE conjE, hypsubst, simp only: dashboard_payload.simps)+

text \<open>C37: An emergency stop needs reauthentication and holds. Without it the request changes nothing; with
  it, whatever other requests follow short of resuming or resetting, the stop is shown by the controls and
  by the session's header, every account of the account list (also in the header and on the dashboard) is
  stopped, and no trading node is shown as running, neither in the node list nor on the dashboard nor on
  the connections screen. (The Toss rows of the connections screen have a flag of their own, which
  ignores the stop.)\<close>

theorem emergency_stop_holds:
  assumes "ResumeAll \<notin> set qs" "Reset \<notin> set qs" and "s' = serve_all (EmergencyStop True # qs) s"
  shows "serve (EmergencyStop False) s = s \<and>
    ctl_emergency_stop (build_controls s' state) \<and>
    list_all acs_order_stopped (build_accounts s' state) \<and>
    RUNNING \<notin> nh_auto_trading ` set (build_nodes s' state) \<and>
    RUNNING \<notin> nh_auto_trading ` set (cn_mt5_nodes (build_connections s' state)) \<and>
    (\<forall>se. build_session s' state role = Inr se \<longrightarrow>
       se_emergency_stop se \<and> se_system_status se = LevelStopped \<and> list_all acs_order_stopped (se_accounts se)) \<and>
    (\<forall>da. build_dashboard s' state = Inr da \<longrightarrow>
       list_all acs_order_stopped (da_accounts da) \<and> RUNNING \<notin> nh_auto_trading ` set (da_nodes da))"
proof -
  have stop: "sto_emergency_stop s'"
    using emergency_lasts [OF _ assms(1,2)] by (simp add: assms(3) serve_emergency del: serve.simps)
  have accounts: "list_all acs_order_stopped (build_accounts s' state)"
    using stop by (auto simp: build_accounts_def build_account_def ACCOUNT_BASE_def Let_def)
  have nodes: "RUNNING \<notin> nh_auto_trading ` set (build_nodes s' state)"
    using stop by (auto simp: build_nodes_def Let_def)
  have "serve (EmergencyStop False) s = s" by (simp add: quick_handlers)
  moreover have "ctl_emergency_stop (build_controls s' state)"
    using stop by (simp add: build_controls_def Let_def)
  moreover have "RUNNING \<notin> nh_auto_trading ` set (cn_mt5_nodes (build_connections s' state))"
    using nodes by (simp add: build_connections_def Let_def)
  moreover have "\<forall>se. build_session s' state role = Inr se \<longrightarrow>
      se_emergency_stop se \<and> se_system_status se = LevelStopped \<and> list_all acs_order_stopped (se_accounts se)"
    using stop accounts by (auto simp: build_session_def bindr_Inr_iff Let_def)
  moreover have "\<forall>da. build_dashboard s' state = Inr da \<longrightarrow>
      list_all acs_order_stopped (da_accounts da) \<and> RUNNING \<notin> nh_auto_trading ` set (da_nodes da)"
    using accounts nodes by (auto simp: dashboard_lists)
  ultimately show ?thesis using accounts nodes by blast
qed

theorem emergency_stop_holds_witness:
  "list_all acs_order_stopped
     (build_accounts (serve_all [EmergencyStop True, ResumeAccount ACCOUNT_KR, ToggleStrategy ''str-spx-vol''] ConsoleStore)
       ''normal'')"
  by (rule emergency_stop_holds [of "[ResumeAccount ACCOUNT_KR, ToggleStrategy ''str-spx-vol'']",
      OF _ _ refl, THEN conjunct2, THEN conjunct2, THEN conjunct1]) simp_all

text \<open>C38: Risk limits are loosened only after reauthentication. Along any run of requests of which none
  updates a limit with reauthentication and none resets the console, every limit that can still be
  shown is at most what it was, rule by rule.\<close>

theorem limits_only_tighten:
  assumes "\<forall>q\<in>set qs. \<not> loosens q" "get_risk_rules s None = Inr rules"
    and "get_risk_rules (serve_all qs s) None = Inr rules'"
  shows "list_all2 (\<lambda>r r'. rl_rule_id r' = rl_rule_id r \<and> rl_limit r' \<le> rl_limit r) rules rules'"
  using tightens_run [OF assms(1)] assms(2,3)
  by (simp add: get_risk_rules_def normalise_state_def guard_state_def tighter_def)

theorem limits_only_tighten_witness:
  "\<exists>rules rules'. get_risk_rules ConsoleStore None = Inr rules \<and>
     get_risk_rules (serve_all [UpdateRiskRule ''risk-daily-loss'' ''0.0300'' False, ResumeAll] ConsoleStore) None = Inr rules' \<and>
     list_all2 (\<lambda>r r'. rl_rule_id r' = rl_rule_id r \<and> rl_limit r' \<le> rl_limit r) rules rules'"
proof -
  have "\<exists>rules. get_risk_rules ConsoleStore None = Inr rules"
    by (simp add: get_risk_rules_def normalise_state_def guard_state_def normal_risk RISK_BASE_def risk_row_def
        ConsoleStore_def base_limits Let_def)
  moreover have "\<exists>rules'. get_risk_rules
      (serve_all [UpdateRiskRule ''risk-daily-loss'' ''0.0300'' False, ResumeAll] ConsoleStore) None = Inr rules'"
    by (simp add: get_risk_rules_def normalise_state_def guard_state_def normal_risk RISK_BASE_def risk_row_def
        ConsoleStore_def base_limits Let_def update_risk_rule_def io_defs limit_exceeds_def resume_all_def dec_order)
  ultimately obtain rules rules' where r: "get_risk_rules ConsoleStore None = Inr rules"
    "get_risk_rules (serve_all [UpdateRiskRule ''risk-daily-loss'' ''0.0300'' False, ResumeAll] ConsoleStore) None = Inr rules'"
    by blast
  then show ?thesis using limits_only_tighten [OF _ r] by auto
qed

text \<open>C39: A limit can be set so small that the console cannot be repaired. The update is accepted without
  reauthentication, because a smaller limit is a stricter one; from then on the usage cannot be
  quantised, so the risk page, the session header and the dashboard fail in every state that shows
  data, and so does every further update of any rule, until the console is reset.\<close>

theorem tiny_limit_blocks_the_console:
  assumes "Reset \<notin> set qs" "state \<notin> {''empty'', ''loading''}"
  shows "let s = serve_all (UpdateRiskRule ''risk-order-notional'' ''1E-30'' False # qs) ConsoleStore
    in build_risk s state = Inl DecimalException \<and> build_session s state role = Inl DecimalException \<and>
       build_dashboard s state = Inl DecimalException \<and>
       fst (update_risk_rule i l re s) = Inl DecimalException"
proof -
  define s where "s = serve_all (UpdateRiskRule ''risk-order-notional'' ''1E-30'' False # qs) ConsoleStore"
  let ?u = "UpdateRiskRule ''risk-order-notional'' ''1E-30'' False"
  have "build_risk (serve ?u ConsoleStore) ''normal'' = Inl DecimalException"
    by (simp add: tiny_limit_stored tiny_limit_fails)
  then have fails: "build_risk s ''normal'' = Inl DecimalException"
    using failing_lasts [OF assms(1)] by (simp add: s_def)
  then have risk: "build_risk s state = Inl DecimalException"
    using risk_screen [OF assms(2)] by simp
  obtain rows where rows: "build_approvals s state = Inr rows" using approvals_shown by blast
  have "build_session s state role = Inl DecimalException" "build_dashboard s state = Inl DecimalException"
    "fst (update_risk_rule i l re s) = Inl DecimalException"
    by (simp_all add: build_session_def build_dashboard_def update_risk_rule_def io_defs rows risk fails)
  with risk show ?thesis unfolding Let_def s_def by blast
qed

theorem tiny_limit_blocks_the_console_witness:
  "build_session (serve_all [UpdateRiskRule ''risk-order-notional'' ''1E-30'' False, ResumeAll] ConsoleStore)
     ''normal'' ''ADMIN'' = Inl DecimalException"
  using tiny_limit_blocks_the_console [of "[ResumeAll]" "''normal''" "''ADMIN''"] by (simp add: Let_def)

end
