(* ===== verification/Settings.thy ===== *)
theory Settings
  imports Execution_Api Py_Float
begin

text \<open>
  \<open>config.py\<close>: the settings of the process, their validators, and the switches derived from them.
  Reading the environment and the \<open>.env\<close> file is pydantic-settings' part: a value of the record is
  what it hands to the validators.
\<close>

record settings =
  st_database_url :: string
  st_redis_url :: "string option"
  st_internal_api_key :: string
  st_readiness_timeout_seconds :: pyfloat
  st_console_stub_enabled :: bool
  st_mt5_enabled :: bool
  st_mt5_terminal_path :: "string option"
  st_mt5_login :: "int option"
  st_mt5_password :: "string option"
  st_mt5_server :: "string option"
  st_mt5_submit_enabled :: bool
  st_telegram_bot_token :: "string option"
  st_telegram_chat_id :: "int option"

text \<open>The defaults; only the database and the key have none.\<close>

definition default_settings :: "string \<Rightarrow> string \<Rightarrow> settings" where
  "default_settings database_url internal_api_key =
     \<lparr>st_database_url = database_url, st_redis_url = None, st_internal_api_key = internal_api_key,
      st_readiness_timeout_seconds = FBin 2 0, st_console_stub_enabled = False,
      st_mt5_enabled = False, st_mt5_terminal_path = None, st_mt5_login = None,
      st_mt5_password = None, st_mt5_server = None, st_mt5_submit_enabled = False,
      st_telegram_bot_token = None, st_telegram_chat_id = None\<rparr>"

definition validate_internal_api_key :: "string \<Rightarrow> string result" where
  "validate_internal_api_key v =
     (if strip v = [] then Inl (ValueError ''internal_api_key must not be blank'') else Inr (strip v))"

definition require_mt5_before_submitting :: "settings \<Rightarrow> string option" where
  "require_mt5_before_submitting s =
     (if st_mt5_submit_enabled s \<and> \<not> st_mt5_enabled s
      then Some ''mt5_submit_enabled requires mt5_enabled'' else None)"

definition require_chat_id_with_token :: "settings \<Rightarrow> string option" where
  "require_chat_id_with_token s =
     (if st_telegram_bot_token s \<noteq> None \<and> st_telegram_chat_id s = None
      then Some ''telegram_bot_token requires telegram_chat_id to lock responses down'' else None)"

fun finite_float :: "pyfloat \<Rightarrow> bool" where
  "finite_float FNan = False"
| "finite_float (FInf _) = False"
| "finite_float _ = True"

definition Settings :: "settings \<Rightarrow> settings result" where
  "Settings s =
     run_model
       (complain (strip (st_internal_api_key s) = []) ''internal_api_key must not be blank''
        @ complain (\<not> (finite_float (st_readiness_timeout_seconds s) \<and> FZero False < st_readiness_timeout_seconds s))
            ''readiness_timeout_seconds must be a finite number greater than 0'')
       [require_mt5_before_submitting s, require_chat_id_with_token s]
       (s\<lparr>st_internal_api_key := strip (st_internal_api_key s)\<rparr>)"

definition telegram_enabled :: "settings \<Rightarrow> bool" where
  "telegram_enabled s \<longleftrightarrow> st_telegram_bot_token s \<noteq> None \<and> st_telegram_chat_id s \<noteq> None"

section \<open>What valid settings guarantee\<close>

lemma dropWhile_last: "dropWhile P s \<noteq> [] \<Longrightarrow> last (dropWhile P s) = last s"
  by (induction s) (auto split: if_splits)

lemma dropWhile_rev_hd: "rev (dropWhile P (rev s)) \<noteq> [] \<Longrightarrow> hd (rev (dropWhile P (rev s))) = hd s"
  using dropWhile_last [of P "rev s"] by (simp add: hd_rev last_rev)

text \<open>Stripping is done once: the ends of a stripped text are not blank.\<close>

lemma strip_idem [simp]: "strip (strip s) = strip s"
proof -
  define a where "a = dropWhile is_space s"
  define b where "b = dropWhile is_space (rev a)"
  have strip: "strip s = rev b" by (simp add: strip_def a_def b_def)
  show ?thesis
  proof (cases "b = []")
    case True
    then show ?thesis by (simp add: strip) (simp add: strip_def)
  next
    case False
    have b: "\<not> is_space (hd b)" using False hd_dropWhile [of is_space "rev a"] by (simp add: b_def)
    have "a \<noteq> []" using False by (auto simp: b_def)
    then have "\<not> is_space (hd a)" using hd_dropWhile [of is_space s] by (simp add: a_def)
    moreover have "hd (rev b) = hd a" using dropWhile_rev_hd [of is_space a] False by (simp add: b_def)
    ultimately have "dropWhile is_space (rev b) = rev b"
      using False by (cases "rev b") auto
    moreover have "dropWhile is_space b = b" using b False by (cases b) auto
    ultimately show ?thesis unfolding strip by (simp add: strip_def)
  qed
qed

lemma Settings_iff:
  "Settings s = Inr v \<longleftrightarrow>
     strip (st_internal_api_key s) \<noteq> [] \<and> finite_float (st_readiness_timeout_seconds s) \<and>
     FZero False < st_readiness_timeout_seconds s \<and>
     (st_mt5_submit_enabled s \<longrightarrow> st_mt5_enabled s) \<and>
     (st_telegram_bot_token s \<noteq> None \<longrightarrow> st_telegram_chat_id s \<noteq> None) \<and>
     v = s\<lparr>st_internal_api_key := strip (st_internal_api_key s)\<rparr>"
  by (auto simp: Settings_def run_model_Inr_iff complain_def first_failure_None_iff
      require_mt5_before_submitting_def require_chat_id_with_token_def split: if_splits)

text \<open>\<open>Settings.model_validate(settings.model_dump())\<close> gives the same settings again.\<close>

lemma Settings_stable: "Settings s = Inr v \<Longrightarrow> Settings v = Inr v"
  by (auto simp: Settings_iff)

lemma configured_key_opens:
  assumes "Settings s = Inr v"
  shows "require_internal_key (Some k) (st_internal_api_key v) = Inr () \<longleftrightarrow>
    strip k = strip (st_internal_api_key s)"
  using assms by (auto simp: Settings_iff require_internal_key_def)

end
