(* ===== verification/Application.thy ===== *)
theory Application
  imports Settings Console_Data
begin

text \<open>
  \<open>api/app.py\<close> and \<open>api/routes/health.py\<close>: what the process mounts for which settings, the order in
  which it lets go of its connections, and the readiness check. The database engine and the Redis
  client are parameters; a check that exceeds the readiness timeout is a \<open>TimeoutError\<close> of the
  parameter.
\<close>

section \<open>The application\<close>

datatype router = HealthRouter | ExecutionRouter | ConsoleRouter

record fast_api =
  fa_settings :: settings
  fa_engine_url :: string
  fa_redis_url :: "string option"
  fa_console_store :: "console_store option"
  fa_routers :: "router list"

definition create_app :: "settings \<Rightarrow> fast_api result" where
  "create_app s =
     bindr (Settings s) (\<lambda>resolved.
     let enabled = st_console_stub_enabled resolved
     in Inr \<lparr>fa_settings = resolved, fa_engine_url = st_database_url resolved,
             fa_redis_url = (case st_redis_url resolved of
                               Some u \<Rightarrow> if u = [] then None else Some u | None \<Rightarrow> None),
             fa_console_store = (if enabled then Some ConsoleStore else None),
             fa_routers = [HealthRouter, ExecutionRouter] @ (if enabled then [ConsoleRouter] else [])\<rparr>)"

record 'w connections =
  co_redis_aclose :: "(unit, 'w) io"
  co_engine_dispose :: "(unit, 'w) io"

text \<open>The end of the lifespan: the engine is disposed of even when closing Redis raises.\<close>

definition lifespan_end :: "fast_api \<Rightarrow> 'w connections \<Rightarrow> (unit, 'w) io" where
  "lifespan_end app C =
     io_finally (if fa_redis_url app \<noteq> None then co_redis_aclose C else io_ret ()) (co_engine_dispose C)"

section \<open>Health\<close>

record 'w health_ops =
  he_select_one :: "(unit, 'w) io"
  he_ping :: "(bool, 'w) io"

definition live_probe :: string where
  "live_probe = ''ok''"

definition ready :: "fast_api \<Rightarrow> 'w health_ops \<Rightarrow> (string, 'w) io" where
  "ready app H =
     io_bind
       (io_catch
          (io_bind (he_select_one H) (\<lambda>_.
           if fa_redis_url app \<noteq> None then
             io_bind (he_ping H) (\<lambda>ok. if ok then io_ret () else io_raise (RuntimeError ''redis ping failed''))
           else io_ret ()))
          (\<lambda>e. if is_exception e then io_raise (HTTPException 503 ''dependencies unavailable'')
               else io_raise e))
       (\<lambda>_. io_ret ''ready'')"

section \<open>What the application guarantees\<close>

lemma lifespan_disposes:
  "snd (lifespan_end app C w) =
     snd (co_engine_dispose C (if fa_redis_url app \<noteq> None then snd (co_redis_aclose C w) else w))"
  by (auto simp: lifespan_end_def io_finally_def io_ret_def split: prod.split sum.split)

lemma ready_outcome:
  "fst (ready app H w) =
     (case he_select_one H w of
        (Inl e, _) \<Rightarrow> Inl (if is_exception e then HTTPException 503 ''dependencies unavailable'' else e)
      | (Inr _, v) \<Rightarrow>
          if fa_redis_url app = None then Inr ''ready''
          else (case fst (he_ping H v) of
                  Inl e \<Rightarrow> Inl (if is_exception e then HTTPException 503 ''dependencies unavailable'' else e)
                | Inr ok \<Rightarrow> if ok then Inr ''ready'' else Inl (HTTPException 503 ''dependencies unavailable'')))"
  by (simp add: ready_def io_defs split: prod.split sum.split)

section \<open>Properties\<close>

text \<open>C40: The application starts only with safe settings, and mounts exactly what they switch on. If it
  starts, orders are sent to MT5 only with MT5 enabled, a Telegram token never comes without the chat
  that locks its answers down, the execution routes answer exactly to the configured key, and the
  console routes are mounted and a fresh console store exists exactly when the given settings enable
  the stub; and it starts from the settings it
  resolved again with the same outcome.\<close>

theorem application_is_safely_configured:
  assumes "create_app s = Inr app"
  shows "(st_mt5_submit_enabled (fa_settings app) \<longrightarrow> st_mt5_enabled (fa_settings app)) \<and>
    (st_telegram_bot_token (fa_settings app) \<noteq> None \<longrightarrow> telegram_enabled (fa_settings app)) \<and>
    (require_internal_key header (st_internal_api_key (fa_settings app)) = Inr () \<longleftrightarrow>
      (\<exists>k. header = Some k \<and> strip k = strip (st_internal_api_key s) \<and> strip k \<noteq> [])) \<and>
    (ConsoleRouter \<in> set (fa_routers app) \<longleftrightarrow> st_console_stub_enabled s) \<and>
    fa_console_store app = (if st_console_stub_enabled s then Some ConsoleStore else None) \<and>
    create_app (fa_settings app) = Inr app"
proof (intro conjI)
  from assms obtain v where v: "Settings s = Inr v" "fa_settings app = v"
    "ConsoleRouter \<in> set (fa_routers app) \<longleftrightarrow> st_console_stub_enabled v"
    "fa_console_store app = (if st_console_stub_enabled v then Some ConsoleStore else None)"
    by (auto simp: create_app_def bindr_Inr_iff Let_def)
  have "st_console_stub_enabled v = st_console_stub_enabled s" using v(1) by (auto simp: Settings_iff)
  then show "ConsoleRouter \<in> set (fa_routers app) \<longleftrightarrow> st_console_stub_enabled s"
    and "fa_console_store app = (if st_console_stub_enabled s then Some ConsoleStore else None)"
    using v(3,4) by simp_all
  show "st_mt5_submit_enabled (fa_settings app) \<longrightarrow> st_mt5_enabled (fa_settings app)"
    and "st_telegram_bot_token (fa_settings app) \<noteq> None \<longrightarrow> telegram_enabled (fa_settings app)"
    using v(1,2) by (auto simp: Settings_iff telegram_enabled_def)
  show "require_internal_key header (st_internal_api_key (fa_settings app)) = Inr () \<longleftrightarrow>
      (\<exists>k. header = Some k \<and> strip k = strip (st_internal_api_key s) \<and> strip k \<noteq> [])"
    using v(1,2) by (cases header) (auto simp: Settings_iff require_internal_key_def)
  show "create_app (fa_settings app) = Inr app"
    using assms v(1,2) Settings_stable [OF v(1)] by (simp add: create_app_def)
qed

theorem application_is_safely_configured_witness:
  "\<exists>app. create_app (default_settings ''postgresql://db'' '' secret '') = Inr app \<and>
     require_internal_key (Some ''secret'') (st_internal_api_key (fa_settings app)) = Inr ()"
proof -
  have "strip '' secret '' = ''secret''" by code_simp
  moreover have "FZero False < FBin 2 0" by code_simp
  ultimately obtain app where app: "create_app (default_settings ''postgresql://db'' '' secret '') = Inr app"
    by (auto simp: create_app_def Settings_def default_settings_def run_model_def complain_def
        require_mt5_before_submitting_def require_chat_id_with_token_def Let_def)
  have "strip ''secret'' = strip '' secret ''" "strip ''secret'' \<noteq> []" by code_simp+
  then show ?thesis
    using application_is_safely_configured [OF app, of "Some ''secret''"] app
    by (auto simp: default_settings_def)
qed

end
