(* ===== verification/Spec2Isabelle.thy ===== *)
theory Spec2Isabelle
  imports Redis_Streams Backtest_Safety Mt5_Errors Mt5_Links Mt5_Session Mt5_Probe Telegram Console_Safety
    Application
begin

text \<open>
  A verification library for the trading core under \<open>src/mtoss\<close> (paths below are relative to it).

  \<^bold>\<open>The program.\<close> A request to create an order enters through the HTTP API, is checked against the risk
  limits and the approval policy, and is stored together with an outbox event in one transaction. A
  worker takes the events, executes each order on a broker and stores the outcome; a dispatcher
  publishes the other events. The strategy side computes Pine-style indicators and signals over closed
  bars, drives the two tranches of a trade, sizes the entries and can be run over a history of bars as a
  backtest. Around them are the MetaTrader 5 pieces (return codes, the write-ahead link of an order, the
  session of the terminal), the Telegram notifier that asks a person about over-budget entries, the
  settings and the assembly of the application, and the operations console.

  \<^bold>\<open>The foundations.\<close>
  \<^item> \<open>Mtoss_Prelude\<close>: exceptions as the datatype \<open>exn\<close>, results as \<open>exn + 'a\<close>, dictionaries as
    association lists in insertion order, effects as functions from a world to a result and a world
    (\<open>io\<close>), validation of a model (\<open>run_model\<close>), and two locales for machines: \<open>ranked_machine\<close> (a rank
    that never falls) and \<open>safe_machine\<close> (an invariant of every reachable state).
  \<^item> \<open>Py_Decimal\<close>, \<open>Py_Float\<close>, \<open>Py_Values\<close>, \<open>Py_Text\<close>, \<open>Py_Json\<close>, \<open>Py_Sha256\<close>: the parts of Python's
    library the sources use. A Decimal is a coefficient with an exponent, rounded half even to 28 digits
    by the arithmetic and never by comparison; exponents are unbounded integers, so the overflow of the
    decimal context is not modelled. A float is binary64, rounded once per operation, with signed zeros,
    infinities and NaN. Decimal and JSON text, UUIDs, datetimes (microseconds and an offset) and SHA-256
    are executable. Strings are lists of characters; \<open>upper\<close> and \<open>lower\<close> treat ASCII letters.

  \<^bold>\<open>Orders, from the request to the broker.\<close>
  \<^item> \<open>Domain_Orders\<close> (\<open>domain/enums.py\<close>, \<open>domain/orders.py\<close>) and \<open>Domain_Decisions\<close> (\<open>domain/risk.py\<close>,
    \<open>approvals.py\<close>, \<open>confirmations.py\<close>, \<open>signals.py\<close>): records for the pydantic models; the constructor
    function of a model (\<open>ExecutionIntent\<close>, \<open>RiskRule\<close>, ...) runs its validators and raises what they raise.
  \<^item> \<open>Order_State_Machine\<close>, \<open>Risk_Engine\<close>, \<open>Approval_Policy\<close>, \<open>Idempotency\<close>: the pure services of
    \<open>application\<close> of the same names.
  \<^item> \<open>Db_Session\<close> (\<open>infrastructure/db/models\<close>): the rows, and the locale \<open>sql_session\<close> with the laws of a
    transactional session: reads see the own writes, a commit that returns makes them durable, a commit
    that raises has made all of them durable or none (the connection may be lost after the server has
    committed), rollback forgets them, a flush checks the constraints, \<open>created_at\<close> is set by the
    database and orders the outbox (rows with one timestamp in the order of insertion). It is interpreted
    on \<open>mem_session\<close> (in-memory tables) and on \<open>cut_session\<close> (the same tables behind a connection that is
    lost at every commit).
  \<^item> \<open>Order_Repository\<close> (\<open>infrastructure/db/repositories\<close>), \<open>Intent_Service\<close>, \<open>Execution_Api\<close>
    (\<open>api/schemas.py\<close>, \<open>api/routes/execution.py\<close>, \<open>api/dependencies.py\<close>): the creation path. The locale
    \<open>intent_store\<close> is what the service asks of a repository; every \<open>sql_session\<close> provides it (\<open>sublocale\<close>).
    \<open>Intent_Safety\<close> shows that only checked orders are stored, with their event or not at all, and what
    a failed request can leave behind.
  \<^item> \<open>Fake_Broker\<close> (\<open>ports/broker.py\<close>, \<open>infrastructure/broker/fake.py\<close>): the broker port as a record of
    operations, its contract as the locale \<open>broker_adapter\<close>, and the in-memory broker that keeps it.
  \<^item> \<open>Execution_Service\<close> and \<open>Execution_Safety\<close> (\<open>application/execution_service.py\<close>): the execution of one
    order and of any history of them, on every session and broker. The locale \<open>execution\<close> joins
    \<open>execution_repository\<close> and \<open>broker_adapter\<close>; it is interpreted on the repositories over \<open>mem_session\<close>.
    \<open>outcome_row\<close> writes out the row an outcome must leave, independently of \<open>save_broker_result\<close>.
  \<^item> \<open>Execution_Worker\<close>, \<open>Worker_Safety\<close>, \<open>Redis_Streams\<close> (\<open>workers/executor.py\<close>,
    \<open>application/outbox_dispatcher.py\<close>, \<open>infrastructure/queue/redis_streams.py\<close>): the loops over the
    outbox on the locale \<open>outbox_queue\<close>, and what they do to the committed events. The state of the
    executions is a parameter; \<open>session_per_execution\<close> opens a new transaction for each of them.

  \<^bold>\<open>The strategy.\<close>
  \<^item> \<open>Ut_Config\<close>, \<open>Domain_Market\<close>, \<open>Ut_Indicators\<close>, \<open>Ut_Signals\<close> (\<open>strategies/ut_bot/config.py\<close>,
    \<open>indicators.py\<close>, \<open>signals.py\<close>, \<open>domain/bars.py\<close>, \<open>domain/numeric.py\<close>): indicators over lists of floats,
    with the order of every addition as in the source. They look back only, so no signal is repainted.
  \<^item> \<open>Sizing\<close> (\<open>application/sizing.py\<close>): lots from the budget; the exact loss of an accepted size at its
    stop stays within the exact budget up to \<open>slack k\<close>, \<open>k\<close> roundings to 28 digits.
  \<^item> \<open>Trade_Manager\<close> and \<open>Trade_Safety\<close> (\<open>application/trade_manager.py\<close>): the state of the two tranches as
    a machine, its invariant, the rules of a bar close and of a fill, and the refinement to a book of
    positions that only follows the actions.
  \<^item> \<open>Backtest\<close> and \<open>Backtest_Safety\<close> (\<open>strategies/ut_bot/backtest.py\<close>): the simulation as a fold over the
    bars. Its assertions never fail, its account is the sum over its trades, its fills are exactly the
    entries and exits of its trades and the entries still open (\<open>entry_fill_of\<close>, \<open>exit_fill_of\<close>), and
    every entry follows a signal and was sized from its stop and the equity of that moment (\<open>gated\<close>).

  \<^bold>\<open>The outside.\<close>
  \<^item> \<open>Mt5_Errors\<close>, \<open>Mt5_Links\<close>, \<open>Mt5_Session\<close> (\<open>infrastructure/broker/mt5_*.py\<close>): return codes as results,
    the store that ties a key to an order before it is sent (locale \<open>link_store\<close>, interpreted on the
    in-memory store), and the session of the terminal as a machine whose life only moves forward.
  \<^item> \<open>Telegram\<close> (\<open>infrastructure/notify/telegram.py\<close>, \<open>ports/notifier.py\<close>): requests, buttons and the polling
    of answers; the port is the locale \<open>notifier_port\<close>. A response comes from the configured chat only,
    and no update is handled twice.
  \<^item> \<open>Settings\<close>, \<open>Application\<close> (\<open>config.py\<close>, \<open>api/app.py\<close>, \<open>api/routes/health.py\<close>): the settings, what is
    mounted for them, the order of shutdown and the readiness probe.
  \<^item> \<open>Console_Data\<close>, \<open>Console_Screens\<close>, \<open>Console_Api\<close>, \<open>Console_Safety\<close> (\<open>api/console/store.py\<close>,
    \<open>schemas.py\<close>, \<open>fixtures.py\<close>, \<open>api/routes/console.py\<close>): the store, the screens built from it, every
    request that changes it, and what holds under any sequence of requests; also where a screen does not
    follow (the Toss rows of the connections screen and the emergency stop).
  \<^item> \<open>Mt5_Probe\<close> (\<open>ops/mt5_probe.py\<close>): the calculations of the diagnostic script.

  \<^bold>\<open>Parameters.\<close> Code outside the repository is an argument of the definitions that use it: the SQL
  session and the broker (records of operations), the HTTP client of Telegram, the client of MetaTrader,
  the \<open>xadd\<close> of Redis, clocks, fresh UUIDs. What is relied on is stated as an assumption of a locale or a
  named hypothesis (\<open>sql_session\<close>, \<open>broker_adapter\<close>, \<open>update_feed\<close>), each with a concrete instance.

  \<^bold>\<open>Bounds and termination.\<close> Recursions are structural or carry a measure. The endless loop of the worker
  (\<open>run_forever\<close>) recurs on the list of what \<open>stop.is_set()\<close> answers at each turn, and the liveness
  theorems hold for lists of any length. The search for the shortest text of a float tries 17 digits, which always suffice for
  binary64; SHA-256 and the weighted averages are bounded by the lengths of their inputs.

  \<^bold>\<open>Simplifications.\<close> Messages of exceptions and texts shown to people are kept in English or left out
  where no code reads them; logging is left out. A pydantic model collects the messages of its field
  checks before its model validators run, as in the library; conversions that pydantic does before a
  validator are the identity. The coroutines of a component run one after the other, as its callers
  await them; the asyncio lock of the MT5 session, which no code takes yet, is not modelled. Transactions
  run one after the other too, so the row locks of the queries (\<open>FOR UPDATE\<close>, \<open>SKIP LOCKED\<close>) have no
  counterpart and nothing is shown of two workers at once. The identifiers of the risk decision and of the
  approval are options in a row although the columns are NOT NULL (which \<open>order_row_ok\<close> demands), because
  the execution tests them for None.

  \<^bold>\<open>Not modelled.\<close> The engine and session factory of the database, the Alembic migrations (they only
  configure a library), the command line entry points, the two Telegram scripts under \<open>ops\<close> and the
  printing in \<open>mt5_probe.py\<close> (pure output), and the pages of the console that return constant tables
  whatever the store holds: fills, positions, chart points, audit entries, administration, and the
  detail pages of strategies and copy sources.
\<close>

end
